(* ===== verification/Prelude.thy ===== *)
theory Prelude
  imports Complex_Main "HOL-Library.Word" "HOL-Library.Signed_Division"
begin

section \<open>Shared notions of the swaylock-plugin development\<close>

text \<open>
  Type names for the machine integers of the C sources, the conversion of a C \<open>long\<close> value
  to a 32-bit \<open>int\<close>, and the list and map lemmas that several components use.

  Conventions of all theories: \<open>uint32_t\<close> and \<open>uint8_t\<close> values are words of that width;
  \<open>size_t\<close> lengths of buffers the program itself allocates are \<open>nat\<close>; \<open>int\<close> and
  \<open>long\<close> values are \<open>int\<close>, and \<open>to_int32\<close> marks each place where the code stores a
  wider value in an \<open>int\<close>.  C's \<open>/\<close> and \<open>%\<close> on signed values are \<open>sdiv\<close> and \<open>smod\<close>,
  which round towards zero.
\<close>

unbundle bit_operations_syntax

type_synonym byte = "8 word"
type_synonym u16 = "16 word"
type_synonym u32 = "32 word"
type_synonym u64 = "64 word"

text \<open>\<open>frame\<close> collects the equations saying which state an operation leaves alone,
  \<open>preserves\<close> the facts that an operation keeps an invariant.\<close>

named_theorems frame
named_theorems preserves

subsection \<open>Conversion to a 32-bit int\<close>

definition to_int32 :: "int \<Rightarrow> int" where
  "to_int32 x = (x + 2 ^ 31) mod 2 ^ 32 - 2 ^ 31"

lemma to_int32_id: "- (2 ^ 31) \<le> x \<Longrightarrow> x < 2 ^ 31 \<Longrightarrow> to_int32 x = x"
  by (simp add: to_int32_def)

lemma to_int32_range: "- (2 ^ 31) \<le> to_int32 x" "to_int32 x < 2 ^ 31"
  by (simp_all add: to_int32_def)

lemma to_int32_add_left: "to_int32 (to_int32 x + y) = to_int32 (x + y)"
proof -
  have "(to_int32 x + y + 2 ^ 31) mod 2 ^ 32 = ((x + 2 ^ 31) mod 2 ^ 32 + y) mod 2 ^ 32"
    by (simp add: to_int32_def algebra_simps)
  also have "\<dots> = (x + 2 ^ 31 + y) mod 2 ^ 32"
    by (rule mod_add_left_eq)
  finally show ?thesis by (simp add: to_int32_def algebra_simps)
qed

subsection \<open>Words\<close>

lemma unat_word_of_nat: "k < 2 ^ LENGTH('a) \<Longrightarrow> unat (word_of_nat k :: 'a :: len word) = k"
  by (simp add: unsigned_of_nat take_bit_nat_eq_self)

lemma byte_cases:
  fixes P :: "byte \<Rightarrow> bool"
  assumes "\<And>n. n < 256 \<Longrightarrow> P (word_of_nat n)"
  shows "P b"
proof -
  have "unat b < 256" using unsigned_less [of b] by simp
  then have "P (word_of_nat (unat b))" by (rule assms)
  then show ?thesis by simp
qed

subsection \<open>Lists\<close>

lemma take_update_ge: "n \<le> i \<Longrightarrow> take n (xs[i := x]) = take n xs"
  by simp

lemma take_Suc_update: "i < length xs \<Longrightarrow> take (Suc i) (xs[i := x]) = take i xs @ [x]"
  by (simp add: take_Suc_conv_app_nth)

lemma foldl_update_length [simp]:
  "length (foldl (\<lambda>b i. b[f i := g i]) xs is) = length xs"
  by (induction "is" arbitrary: xs) auto

text \<open>Storing a run of elements at an offset, as a loop of indexed stores does.\<close>

definition overwrite :: "'a list \<Rightarrow> nat \<Rightarrow> 'a list \<Rightarrow> 'a list" where
  "overwrite xs off ys = take off xs @ ys @ drop (off + length ys) xs"

lemma length_overwrite [simp]:
  "off + length ys \<le> length xs \<Longrightarrow> length (overwrite xs off ys) = length xs"
  by (simp add: overwrite_def)

lemma overwrite_snoc:
  assumes "off + length ys < length xs"
  shows "overwrite (xs[off + length ys := y]) off ys = overwrite xs off (ys @ [y])"
  using assms by (intro nth_equalityI) (auto simp: overwrite_def nth_append nth_list_update)

lemma overwrite_Cons:
  assumes "off + Suc (length ys) \<le> length xs"
  shows "(overwrite xs (Suc off) ys)[off := y] = overwrite xs off (y # ys)"
proof -
  from assms have "take (Suc off) xs = take off xs @ [xs ! off]"
    by (simp add: take_Suc_conv_app_nth)
  with assms show ?thesis by (simp add: overwrite_def list_update_append)
qed

lemma overwrite_Nil [simp]: "overwrite xs off [] = xs"
  by (simp add: overwrite_def)

lemma take_overwrite:
  "off + length ys \<le> length xs \<Longrightarrow>
    take (off + length ys) (overwrite xs off ys) = take off xs @ ys"
  by (simp add: overwrite_def)

lemma nth_overwrite_after:
  "off + length ys \<le> i \<Longrightarrow> off + length ys \<le> length xs \<Longrightarrow> overwrite xs off ys ! i = xs ! i"
  by (auto simp: overwrite_def nth_append)

lemma takeWhile_all_then:
  assumes "\<forall>x \<in> set xs. P x" and "\<not> P y"
  shows "takeWhile P (xs @ y # ys) = xs"
  using assms by (induction xs) auto

lemma filter_remove1_id: "x \<notin> set xs \<Longrightarrow> filter (\<lambda>y. y \<noteq> x) xs = xs"
  by (induction xs) auto

subsection \<open>Numbers\<close>

text \<open>C's conversion of a \<open>double\<close> to \<open>int\<close>, and the decimal digits \<open>printf\<close> writes.\<close>

definition trunc_rat :: "rat \<Rightarrow> int" where
  "trunc_rat x = (if x < 0 then - \<lfloor>- x\<rfloor> else \<lfloor>x\<rfloor>)"

lemma trunc_rat_bounds: "0 \<le> x \<Longrightarrow> of_int (trunc_rat x) \<le> x \<and> x < of_int (trunc_rat x) + 1"
  by (auto simp: trunc_rat_def) (linarith)

fun decimal :: "nat \<Rightarrow> string" where
  "decimal n =
     (if n < 10 then [char_of (48 + n)] else decimal (n div 10) @ [char_of (48 + n mod 10)])"

declare decimal.simps [simp del]

end
