(* ===== verification/Unicode.thy ===== *)
theory Unicode
  imports Prelude
begin

section \<open>UTF-8 helpers (unicode.c)\<close>

text \<open>
  \<open>utf8_chsize\<close>, \<open>utf8_encode\<close>, \<open>utf8_last_size\<close> and \<open>utf8_size\<close> of unicode.c.  A
  \<open>char *\<close> is the list of bytes from the pointer to the end of its object, and
  \<open>utf8_encode\<close> writes into such a list at an offset, as the C function writes through
  \<open>&pw->buffer[pw->len]\<close>.  The second half relates the loops to \<open>utf8_bytes\<close>, the encoding
  written with division, and to the reference decoder \<open>utf8_decode1\<close>.
\<close>

subsection \<open>The functions of unicode.c\<close>

text \<open>\<open>strchr(str, 0)\<close>: the offset of the terminator.  An unterminated list yields its
  length; the password component shows that its buffer is always terminated.\<close>

definition c_strlen :: "byte list \<Rightarrow> nat" where
  "c_strlen str = length (takeWhile (\<lambda>b. b \<noteq> 0) str)"

fun utf8_last_size_loop :: "byte list \<Rightarrow> nat \<Rightarrow> nat \<Rightarrow> nat" where
  "utf8_last_size_loop str 0 n = 0"
| "utf8_last_size_loop str (Suc pos) n =
     (if str ! pos AND 0xc0 \<noteq> 0x80 then Suc n else utf8_last_size_loop str pos (Suc n))"

definition utf8_last_size :: "byte list \<Rightarrow> nat" where
  "utf8_last_size str = utf8_last_size_loop str (c_strlen str) 0"

definition utf8_chsize :: "u32 \<Rightarrow> nat" where
  "utf8_chsize ch =
     (if ch < 0x80 then 1 else if ch < 0x800 then 2 else if ch < 0x10000 then 3 else 4)"

text \<open>The loop \<open>for (i = len - 1; i > 0; --i)\<close> and the final store of \<open>str[0]\<close>.\<close>

fun utf8_encode_loop :: "nat \<Rightarrow> nat \<Rightarrow> byte list \<Rightarrow> u32 \<Rightarrow> byte list \<times> u32" where
  "utf8_encode_loop off 0 str ch = (str, ch)"
| "utf8_encode_loop off (Suc i) str ch =
     utf8_encode_loop off i (str[off + Suc i := ucast ((ch AND 0x3f) OR 0x80)]) (drop_bit 6 ch)"

definition utf8_encode :: "byte list \<Rightarrow> nat \<Rightarrow> u32 \<Rightarrow> byte list \<times> nat" where
  "utf8_encode str off ch =
     (let (first, n) =
        (if ch < 0x80 then (0 :: byte, 1 :: nat)
         else if ch < 0x800 then (0xc0, 2)
         else if ch < 0x10000 then (0xe0, 3)
         else (0xf0, 4));
        (str', ch') = utf8_encode_loop off (n - 1) str ch
      in (str'[off := ucast (ch' OR ucast first)], n))"

definition sizes :: "(byte \<times> byte \<times> int) list" where
  "sizes =
     [(0x80, 0x00, 1), (0xE0, 0xC0, 2), (0xF0, 0xE0, 3), (0xF8, 0xF0, 4),
      (0xFC, 0xF8, 5), (0xFE, 0xF8, 6), (0x80, 0x80, -1)]"

fun utf8_size_loop :: "(byte \<times> byte \<times> int) list \<Rightarrow> byte \<Rightarrow> int" where
  "utf8_size_loop [] c = -1"
| "utf8_size_loop ((msk, result, octets) # rest) c =
     (if c AND msk = result then octets else utf8_size_loop rest c)"

definition utf8_size :: "byte list \<Rightarrow> int" where
  "utf8_size s = utf8_size_loop sizes (s ! 0)"

subsection \<open>The encoding as arithmetic\<close>

definition cont_byte :: "nat \<Rightarrow> byte" where
  "cont_byte n = word_of_nat (128 + n mod 64)"

definition utf8_bytes :: "u32 \<Rightarrow> byte list" where
  "utf8_bytes ch =
     (let n = unat ch in
      if n < 0x80 then [word_of_nat n]
      else if n < 0x800 then [word_of_nat (192 + n div 64), cont_byte n]
      else if n < 0x10000 then
        [word_of_nat (224 + n div 4096), cont_byte (n div 64), cont_byte n]
      else
        [ucast (drop_bit 18 ch OR 0xf0), cont_byte (n div 4096), cont_byte (n div 64), cont_byte n])"

text \<open>The reference decoder of one code point from the front of a byte list.\<close>

fun utf8_decode1 :: "byte list \<Rightarrow> (nat \<times> byte list) option" where
  "utf8_decode1 [] = None"
| "utf8_decode1 (a # bs) =
     (if unat a < 128 then Some (unat a, bs)
      else if unat a < 192 then None
      else if unat a < 224 then
        (case bs of b # r \<Rightarrow> Some ((unat a - 192) * 64 + (unat b - 128), r) | _ \<Rightarrow> None)
      else if unat a < 240 then
        (case bs of b # c # r \<Rightarrow>
           Some ((unat a - 224) * 4096 + (unat b - 128) * 64 + (unat c - 128), r) | _ \<Rightarrow> None)
      else
        (case bs of b # c # d # r \<Rightarrow>
           Some ((unat a - 240) * 262144 + (unat b - 128) * 4096 + (unat c - 128) * 64
             + (unat d - 128), r) | _ \<Rightarrow> None))"

subsection \<open>Bit manipulation as arithmetic\<close>

lemma take_bit_or_push_bit:
  fixes a :: "'a :: len word"
  assumes "n \<le> m"
  shows "take_bit n a OR push_bit m b = take_bit n a + push_bit m b"
  by (rule disjunctive_add_eq_or [symmetric])
    (use assms in \<open>auto simp: bit_eq_iff bit_simps\<close>)

lemma and_63_or_128: "unat ((ch AND 0x3f) OR (0x80 :: u32)) = 128 + unat ch mod 64"
proof -
  have "(ch AND 0x3f) OR (0x80 :: u32) = take_bit 6 ch OR push_bit 7 1"
    by (simp add: take_bit_eq_mask mask_eq_exp_minus_1)
  also have "\<dots> = take_bit 6 ch + push_bit 7 1"
    by (rule take_bit_or_push_bit) simp
  finally have eq: "(ch AND 0x3f) OR (0x80 :: u32) = take_bit 6 ch + 0x80" by simp
  have tb: "unat (take_bit 6 ch) = unat ch mod 64"
    by (simp only: unsigned_take_bit_eq) (simp add: take_bit_eq_mod)
  have "unat ch mod 64 < 64" by simp
  with tb show ?thesis
    by (simp add: eq unat_word_ariths)
qed

lemma cont_byte_ucast: "ucast ((ch AND 0x3f) OR (0x80 :: u32)) = cont_byte (unat ch)"
proof -
  have "ucast ((ch AND 0x3f) OR (0x80 :: u32)) = (word_of_nat (unat ((ch AND 0x3f) OR 0x80)) :: byte)"
    by simp
  then show ?thesis by (simp only: and_63_or_128 cont_byte_def)
qed

lemma unat_cont_byte: "unat (cont_byte n) = 128 + n mod 64"
proof -
  have "n mod 64 < 64" by simp
  then have "128 + n mod 64 < 2 ^ LENGTH(8)" by simp
  then show ?thesis
    unfolding cont_byte_def by (rule unat_word_of_nat)
qed

text \<open>The test of \<open>utf8_last_size\<close>, as a range of byte values.\<close>

lemma and_not_mask_word: "w AND NOT (mask n) = push_bit n (drop_bit n (w :: 'a :: len word))"
  by (rule bit_eqI) (auto simp: bit_simps)

lemma unat_and_high: "unat (b AND NOT (mask k)) = 2 ^ k * (unat (b :: byte) div 2 ^ k)"
proof -
  have lt: "unat b < 256" using unsigned_less [of b] by simp
  have "2 ^ k * (unat b div 2 ^ k) \<le> unat b" by simp
  with lt have small: "2 ^ k * (unat b div 2 ^ k) < 256" by (rule le_less_trans [rotated])
  have "unat (b AND NOT (mask k)) = take_bit 8 (2 ^ k * (unat b div 2 ^ k))"
    by (simp only: and_not_mask_word unsigned_push_bit_eq unat_drop_bit_eq)
      (simp add: push_bit_eq_mult drop_bit_eq_div mult.commute)
  also have "\<dots> = 2 ^ k * (unat b div 2 ^ k)"
    using small by (simp only: take_bit_nat_eq_self_iff) simp
  finally show ?thesis .
qed

lemma div_mult_eq_iff: "0 < (d :: nat) \<Longrightarrow> d * (n div d) = d * q \<longleftrightarrow> d * q \<le> n \<and> n < d * q + d"
  by (auto simp: div_nat_eqI mult.commute dividend_less_times_div)
    (metis add.commute dividend_less_times_div mult.commute)

text \<open>The masks of unicode.c keep the high bits, so each test is a range of byte values.\<close>

lemma and_mask_eq_iff:
  fixes b :: byte
  assumes "msk = NOT (mask k)" and "unat v = 2 ^ k * q"
  shows "b AND msk = v \<longleftrightarrow> 2 ^ k * q \<le> unat b \<and> unat b < 2 ^ k * q + 2 ^ k"
proof -
  have "b AND msk = v \<longleftrightarrow> 2 ^ k * (unat b div 2 ^ k) = 2 ^ k * q"
    by (simp only: assms(1) word_unat_eq_iff [of _ v] assms(2) unat_and_high)
  then show ?thesis by (simp only: div_mult_eq_iff zero_less_power zero_less_numeral)
qed

lemma and_c0_eq_iff: "b AND 0xc0 = (0x80 :: byte) \<longleftrightarrow> 128 \<le> unat b \<and> unat b < 192"
  using and_mask_eq_iff [of "0xc0" 6 "0x80" 2 b] by (simp add: mask_eq_exp_minus_1)

lemma and_sizes_iff:
  fixes b :: byte
  shows "b AND 0x80 = 0 \<longleftrightarrow> unat b < 128"
    and "b AND 0x80 = 0x80 \<longleftrightarrow> 128 \<le> unat b \<and> unat b < 256"
    and "b AND 0xE0 = 0xC0 \<longleftrightarrow> 192 \<le> unat b \<and> unat b < 224"
    and "b AND 0xF0 = 0xE0 \<longleftrightarrow> 224 \<le> unat b \<and> unat b < 240"
    and "b AND 0xF8 = 0xF0 \<longleftrightarrow> 240 \<le> unat b \<and> unat b < 248"
    and "b AND 0xFC = 0xF8 \<longleftrightarrow> 248 \<le> unat b \<and> unat b < 252"
    and "b AND 0xFE = 0xF8 \<longleftrightarrow> 248 \<le> unat b \<and> unat b < 250"
  using and_mask_eq_iff [of "0x80" 7 0 0 b] and_mask_eq_iff [of "0x80" 7 "0x80" 1 b]
    and_mask_eq_iff [of "0xE0" 5 "0xC0" 6 b] and_mask_eq_iff [of "0xF0" 4 "0xE0" 14 b]
    and_mask_eq_iff [of "0xF8" 3 "0xF0" 30 b] and_mask_eq_iff [of "0xFC" 2 "0xF8" 62 b]
    and_mask_eq_iff [of "0xFE" 1 "0xF8" 124 b]
  by (simp_all add: mask_eq_exp_minus_1)

lemma cont_byte_and [simp]: "cont_byte n AND 0xc0 = 0x80"
  by (simp add: and_c0_eq_iff unat_cont_byte)

lemma cont_byte_nonzero [simp]: "cont_byte n \<noteq> 0"
  using unat_cont_byte [of n] by force

subsection \<open>The encoder writes the encoding\<close>

lemma utf8_bytes_length [simp]: "length (utf8_bytes ch) = utf8_chsize ch"
  by (simp add: utf8_bytes_def utf8_chsize_def Let_def word_less_nat_alt)

lemma utf8_chsize_pos [simp]: "0 < utf8_chsize ch"
  by (simp add: utf8_chsize_def)

lemma utf8_chsize_le: "utf8_chsize ch \<le> 4"
  by (simp add: utf8_chsize_def)

lemma drop_bit_6_unat: "unat (drop_bit 6 (ch :: u32)) = unat ch div 64"
  by (simp only: unat_drop_bit_eq) (simp add: drop_bit_eq_div)

lemma utf8_encode_loop_eq:
  "off + n < length str \<Longrightarrow>
   utf8_encode_loop off n str ch =
     (overwrite str (Suc off) (map (\<lambda>k. cont_byte (unat ch div 64 ^ (n - Suc k))) [0..<n]),
      drop_bit (6 * n) ch)"
proof (induction off n str ch rule: utf8_encode_loop.induct)
  case (1 off str ch)
  then show ?case by simp
next
  case (2 off i str ch)
  let ?f = "\<lambda>k. cont_byte (unat ch div 64 ^ (Suc i - Suc k))"
  have m: "map (\<lambda>k. cont_byte (unat (drop_bit 6 ch) div 64 ^ (i - Suc k))) [0..<i] = map ?f [0..<i]"
    by (rule map_cong) (auto simp: drop_bit_6_unat div_mult2_eq Suc_diff_Suc [symmetric] simp del: div_mult2_eq [symmetric])
  have "utf8_encode_loop off (Suc i) str ch =
      (overwrite (str[Suc off + length (map ?f [0..<i]) := cont_byte (unat ch)]) (Suc off) (map ?f [0..<i]),
       drop_bit (6 * i) (drop_bit 6 ch))"
    using 2 by (simp add: m cont_byte_ucast)
  also have "\<dots> = (overwrite str (Suc off) (map ?f [0..<i] @ [cont_byte (unat ch)]),
       drop_bit (6 * Suc i) ch)"
    using 2 by (subst overwrite_snoc) (simp_all add: drop_bit_drop_bit add.commute)
  finally show ?case by simp
qed

lemma or_high_bits:
  assumes "unat (a :: u32) < 2 ^ k"
  shows "unat (a OR push_bit k b) = unat (a + push_bit k b)"
proof -
  have "a = take_bit k a"
    using assms by (metis take_bit_nat_eq_self unsigned_take_bit_eq word_unat_eq_iff)
  then show ?thesis
    using take_bit_or_push_bit [of k k a b] by simp
qed

lemma lead_byte_eq:
  assumes "unat (a :: u32) < 2 ^ k" and "unat (a + push_bit k b) = v" and "v < 256"
  shows "ucast (a OR push_bit k b) = (word_of_nat v :: byte)"
proof -
  have "(ucast (a OR push_bit k b) :: byte) = word_of_nat (unat (a OR push_bit k b))" by simp
  with assms or_high_bits [OF assms(1), of b] show ?thesis by simp
qed

lemma unat_shift_add:
  "unat (a :: u32) + v < 2 ^ 32 \<Longrightarrow> unat (c :: u32) = v \<Longrightarrow> unat (a + c) = unat a + v"
  by (simp add: unat_word_ariths)

lemma lead_byte_2:
  assumes "ch < 0x800"
  shows "ucast (drop_bit 6 ch OR (0xc0 :: u32)) = (word_of_nat (192 + unat ch div 64) :: byte)"
proof -
  let ?a = "drop_bit 6 ch"
  have n: "unat ?a = unat ch div 64" "unat ch div 64 < 32"
    using assms by (simp_all only: drop_bit_6_unat) (simp add: word_less_nat_alt less_mult_imp_div_less)
  have "ucast (?a OR push_bit 6 (3 :: u32)) = (word_of_nat (192 + unat ch div 64) :: byte)"
  proof (rule lead_byte_eq)
    show "unat ?a < 2 ^ 6" using n by simp
    show "unat (?a + push_bit 6 3) = 192 + unat ch div 64"
      using n by (subst unat_shift_add [where v = 192]) simp_all
    show "192 + unat ch div 64 < 256" using n by linarith
  qed
  then show ?thesis by simp
qed

lemma drop_bit_12_unat: "unat (drop_bit 12 (ch :: u32)) = unat ch div 4096"
  by (simp only: unat_drop_bit_eq) (simp add: drop_bit_eq_div)

lemma drop_bit_18_unat: "unat (drop_bit 18 (ch :: u32)) = unat ch div 262144"
  by (simp only: unat_drop_bit_eq) (simp add: drop_bit_eq_div)

lemma lead_byte_3:
  assumes "ch < 0x10000"
  shows "ucast (drop_bit 12 ch OR (0xe0 :: u32)) = (word_of_nat (224 + unat ch div 4096) :: byte)"
proof -
  let ?a = "drop_bit 12 ch"
  have n: "unat ?a = unat ch div 4096" "unat ch div 4096 < 16"
    using assms by (simp_all only: drop_bit_12_unat) (simp add: word_less_nat_alt less_mult_imp_div_less)
  have "ucast (?a OR push_bit 5 (7 :: u32)) = (word_of_nat (224 + unat ch div 4096) :: byte)"
  proof (rule lead_byte_eq)
    show "unat ?a < 2 ^ 5" using n by simp
    show "unat (?a + push_bit 5 7) = 224 + unat ch div 4096"
      using n by (subst unat_shift_add [where v = 224]) simp_all
    show "224 + unat ch div 4096 < 256" using n by linarith
  qed
  then show ?thesis by simp
qed

lemma lead_byte_4:
  assumes "ch < 0x200000"
  shows "ucast (drop_bit 18 ch OR (0xf0 :: u32)) = (word_of_nat (240 + unat ch div 262144) :: byte)"
proof -
  let ?a = "drop_bit 18 ch"
  have n: "unat ?a = unat ch div 262144" "unat ch div 262144 < 8"
    using assms by (simp_all only: drop_bit_18_unat) (simp add: word_less_nat_alt less_mult_imp_div_less)
  have "ucast (?a OR push_bit 4 (15 :: u32)) = (word_of_nat (240 + unat ch div 262144) :: byte)"
  proof (rule lead_byte_eq)
    show "unat ?a < 2 ^ 4" using n by simp
    show "unat (?a + push_bit 4 15) = 240 + unat ch div 262144"
      using n by (subst unat_shift_add [where v = 240]) simp_all
    show "240 + unat ch div 262144 < 256" using n by linarith
  qed
  then show ?thesis by simp
qed

lemma lead_byte_4_ge: "240 \<le> unat (ucast (a OR (0xf0 :: u32)) :: byte)"
proof -
  have "(ucast (a OR (0xf0 :: u32)) :: byte) = 0xf0 OR ucast a"
    by (simp add: unsigned_or_eq or.commute)
  then have "(0xf0 :: byte) \<le> ucast (a OR (0xf0 :: u32))"
    using le_word_or2 [of "0xf0 :: byte" "ucast a"] by simp
  then show ?thesis by (simp add: word_le_nat_alt)
qed

theorem utf8_encode_bytes:
  assumes "off + utf8_chsize ch \<le> length str"
  shows "utf8_encode str off ch = (overwrite str off (utf8_bytes ch), utf8_chsize ch)"
proof -
  have loop: "utf8_encode_loop off n str ch =
     (overwrite str (Suc off) (map (\<lambda>k. cont_byte (unat ch div 64 ^ (n - Suc k))) [0..<n]),
      drop_bit (6 * n) ch)" if "n < utf8_chsize ch" for n
    using that assms by (intro utf8_encode_loop_eq) simp
  have upt: "[0..<2] = [0, 1 :: nat]" "[0..<3] = [0, 1, 2 :: nat]"
    by (simp_all add: upt_rec)
  consider "ch < 0x80" | "\<not> ch < 0x80" "ch < 0x800" | "\<not> ch < 0x800" "ch < 0x10000" | "\<not> ch < 0x10000"
    by blast
  then show ?thesis
  proof cases
    case 1
    then show ?thesis
      using assms by (simp add: utf8_encode_def utf8_chsize_def utf8_bytes_def word_less_nat_alt overwrite_Cons [symmetric])
  next
    case 2
    then have "utf8_chsize ch = 2" by (simp add: utf8_chsize_def)
    with 2 assms loop [of 1] show ?thesis
      by (simp add: utf8_encode_def utf8_bytes_def lead_byte_2 overwrite_Cons word_less_nat_alt Let_def)
  next
    case 3
    then have nb: "\<not> ch < 0x80" by (simp add: word_less_nat_alt)
    with 3 have "utf8_chsize ch = 3" by (simp add: utf8_chsize_def)
    with 3 nb assms loop [of 2] show ?thesis
      by (simp add: utf8_encode_def utf8_bytes_def lead_byte_3 overwrite_Cons word_less_nat_alt upt Let_def)
  next
    case 4
    then have nb: "\<not> ch < 0x80" "\<not> ch < 0x800" by (simp_all add: word_less_nat_alt)
    with 4 have "utf8_chsize ch = 4" by (simp add: utf8_chsize_def)
    with 4 nb assms loop [of 3] show ?thesis
      by (simp add: utf8_encode_def utf8_bytes_def overwrite_Cons word_less_nat_alt upt Let_def)
  qed
qed

subsection \<open>Shape of an encoded character\<close>

text \<open>An encoded character is one byte that is no continuation byte, followed by
  continuation bytes only; no byte is zero unless the character is.\<close>

definition utf8_shape :: "byte list \<Rightarrow> bool" where
  "utf8_shape bs \<longleftrightarrow>
     (\<exists>l cs. bs = l # cs \<and> l AND 0xc0 \<noteq> 0x80 \<and> (\<forall>c \<in> set cs. c AND 0xc0 = 0x80) \<and>
       (\<forall>c \<in> set bs. c \<noteq> 0))"

lemma unat_lead:
  "n < 0x800 \<Longrightarrow> unat (word_of_nat (192 + n div 64) :: byte) = 192 + n div 64"
  "n < 0x10000 \<Longrightarrow> unat (word_of_nat (224 + n div 4096) :: byte) = 224 + n div 4096"
  "n < 0x200000 \<Longrightarrow> unat (word_of_nat (240 + n div 262144) :: byte) = 240 + n div 262144"
  by (rule unat_word_of_nat, simp add: less_mult_imp_div_less,
      linarith?)+

lemma utf8_bytes_shape:
  assumes "ch \<noteq> 0"
  shows "utf8_shape (utf8_bytes ch)"
proof -
  let ?n = "unat ch"
  have nz: "?n \<noteq> 0" using assms by (simp add: unat_eq_0)
  have lead: "utf8_shape (l # cs)"
    if "unat l \<noteq> 0" "\<not> (128 \<le> unat l \<and> unat l < 192)" "\<forall>c \<in> set cs. \<exists>k. c = cont_byte k"
    for l :: byte and cs
    using that by (auto simp: utf8_shape_def and_c0_eq_iff unat_cont_byte)
  consider "?n < 0x80" | "\<not> ?n < 0x80" "?n < 0x800" | "\<not> ?n < 0x800" "?n < 0x10000" | "\<not> ?n < 0x10000"
    by linarith
  then show ?thesis
  proof cases
    case 1
    then have "unat (word_of_nat ?n :: byte) = ?n" by (intro unat_word_of_nat) simp
    with 1 nz show ?thesis by (simp add: utf8_bytes_def lead)
  next
    case 2
    with unat_lead(1) [of ?n] show ?thesis
      by (simp only: utf8_bytes_def Let_def if_False if_True) (rule lead, auto)
  next
    case 3
    then have "\<not> ?n < 0x80" by linarith
    with 3 unat_lead(2) [of ?n] show ?thesis
      by (simp only: utf8_bytes_def Let_def if_False if_True) (rule lead, auto)
  next
    case 4
    then have "\<not> ?n < 0x80" "\<not> ?n < 0x800" by linarith+
    with 4 lead_byte_4_ge [of "drop_bit 18 ch"] show ?thesis
      by (simp only: utf8_bytes_def Let_def if_False if_True) (rule lead, auto)
  qed
qed

lemma utf8_bytes_nonzero: "ch \<noteq> 0 \<Longrightarrow> 0 \<notin> set (utf8_bytes ch)"
  using utf8_bytes_shape [of ch] by (auto simp: utf8_shape_def)

subsection \<open>The last character of a string\<close>

lemma c_strlen_terminated: "0 \<notin> set bs \<Longrightarrow> c_strlen (bs @ 0 # rest) = length bs"
  unfolding c_strlen_def by (subst takeWhile_all_then) auto

lemma utf8_last_size_loop_skip:
  "(\<forall>i < length cs. str ! (p + i) AND 0xc0 = 0x80) \<Longrightarrow> length cs = k \<Longrightarrow>
   utf8_last_size_loop str (p + k) n = utf8_last_size_loop str p (n + k)"
  by (induction k arbitrary: n cs) (auto simp: length_Suc_conv_rev)

lemma utf8_last_size_snoc:
  assumes "utf8_shape c" and "0 \<notin> set pre"
  shows "utf8_last_size (pre @ c @ 0 # rest) = length c"
proof -
  obtain l cs where c: "c = l # cs" and l: "l AND 0xc0 \<noteq> 0x80"
    and cs: "\<forall>b \<in> set cs. b AND 0xc0 = 0x80" and nz: "0 \<notin> set c"
    using assms(1) by (auto simp: utf8_shape_def)
  let ?s = "pre @ c @ 0 # rest"
  have len: "c_strlen ?s = Suc (length pre) + length cs"
    using c_strlen_terminated [of "pre @ c" rest] assms(2) nz c by simp
  have "utf8_last_size ?s = utf8_last_size_loop ?s (Suc (length pre)) (length cs)"
    unfolding utf8_last_size_def len
    by (subst utf8_last_size_loop_skip [of cs]) (use cs c in \<open>auto simp: nth_append\<close>)
  also have "\<dots> = length c" using l c by simp
  finally show ?thesis .
qed

lemma utf8_last_size_empty: "utf8_last_size (0 # rest) = 0"
  by (simp add: utf8_last_size_def c_strlen_def)

subsection \<open>Decoding what was encoded\<close>

lemma split_64:
  fixes n :: nat
  shows "n div 4096 * 4096 + (n div 64) mod 64 * 64 + n mod 64 = n"
    and "n div 262144 * 262144 + (n div 4096) mod 64 * 4096 + (n div 64) mod 64 * 64 + n mod 64 = n"
proof -
  have d: "n div 4096 = n div 64 div 64" "n div 262144 = n div 64 div 64 div 64"
    by (simp_all flip: div_mult2_eq)
  have "n div 64 * 64 + n mod 64 = n" "n div 64 div 64 * 64 + (n div 64) mod 64 = n div 64"
    "n div 64 div 64 div 64 * 64 + (n div 64 div 64) mod 64 = n div 64 div 64"
    by (rule div_mult_mod_eq)+
  then show "n div 4096 * 4096 + (n div 64) mod 64 * 64 + n mod 64 = n"
    and "n div 262144 * 262144 + (n div 4096) mod 64 * 4096 + (n div 64) mod 64 * 64 + n mod 64 = n"
    unfolding d by linarith+
qed

lemma utf8_decode1_bytes:
  assumes "ch < 0x200000"
  shows "utf8_decode1 (utf8_bytes ch @ rest) = Some (unat ch, rest)"
proof -
  let ?n = "unat ch"
  have bound: "?n < 0x200000" using assms by (simp add: word_less_nat_alt)
  consider "?n < 0x80" | "\<not> ?n < 0x80" "?n < 0x800" | "\<not> ?n < 0x800" "?n < 0x10000" | "\<not> ?n < 0x10000"
    by linarith
  then show ?thesis
  proof cases
    case 1
    then have "unat (word_of_nat ?n :: byte) = ?n" by (intro unat_word_of_nat) simp
    with 1 show ?thesis by (simp add: utf8_bytes_def)
  next
    case 2
    have "192 + ?n div 64 < 224" using 2 by (simp add: less_mult_imp_div_less)
    moreover have "?n div 64 * 64 + ?n mod 64 = ?n" by simp
    ultimately show ?thesis
      using 2 unat_lead(1) [of ?n]
      by (simp only: utf8_bytes_def Let_def if_False if_True) (simp add: unat_cont_byte less_mult_imp_div_less del: of_nat_add)
  next
    case 3
    then have nb: "\<not> ?n < 0x80" by linarith
    have "224 + ?n div 4096 < 240" using 3 by (simp add: less_mult_imp_div_less)
    with split_64(1) [of ?n] show ?thesis
      using 3 nb unat_lead(2) [of ?n]
      by (simp only: utf8_bytes_def Let_def if_False if_True)
        (simp add: unat_cont_byte less_mult_imp_div_less del: of_nat_add)
  next
    case 4
    then have nb: "\<not> ?n < 0x80" "\<not> ?n < 0x800" by linarith+
    from split_64(2) [of ?n] show ?thesis
      using 4 nb unat_lead(3) [OF bound]
      by (simp only: utf8_bytes_def Let_def if_False if_True lead_byte_4 [OF assms])
        (simp add: unat_cont_byte del: of_nat_add)
  qed
qed

subsection \<open>Properties\<close>

lemma drop_overwrite: "off + length ys \<le> length xs \<Longrightarrow>
    drop off (overwrite xs off ys) = ys @ drop (off + length ys) xs"
  by (simp add: overwrite_def)

text \<open>C33. Encoding a code point into a buffer with room for it and decoding at the same offset
  gives the code point back; exactly \<open>utf8_chsize\<close> bytes of the buffer change and the returned
  length is that size.\<close>

theorem utf8_encode_roundtrip:
  assumes "off + utf8_chsize ch \<le> length str" and "ch < 0x200000"
  shows "snd (utf8_encode str off ch) = utf8_chsize ch \<and>
    utf8_decode1 (drop off (fst (utf8_encode str off ch))) =
      Some (unat ch, drop (off + utf8_chsize ch) str) \<and>
    take off (fst (utf8_encode str off ch)) = take off str"
  using assms by (simp add: utf8_encode_bytes drop_overwrite utf8_decode1_bytes overwrite_def)

theorem utf8_encode_roundtrip_witness:
  "utf8_decode1 (drop 1 (fst (utf8_encode (replicate 8 0) 1 0x20AC))) = Some (0x20AC, replicate 4 0)"
  using utf8_encode_roundtrip [of 1 "0x20AC" "replicate 8 0"] by (simp add: utf8_chsize_def)

lemma utf8_size_loop_sizes:
  "utf8_size_loop sizes c =
     (if unat c < 128 then 1 else if unat c < 192 then -1 else if unat c < 224 then 2
      else if unat c < 240 then 3 else if unat c < 248 then 4 else if unat c < 252 then 5 else -1)"
  by (simp add: sizes_def and_sizes_iff)

text \<open>The size table of \<open>utf8_size\<close> agrees with the encoder on every code point up to 21 bits,
  and its row for six octets is dead: no string is ever given the size six.\<close>

theorem utf8_size_table:
  "(ch < 0x200000 \<longrightarrow> utf8_size (utf8_bytes ch @ rest) = int (utf8_chsize ch)) \<and> utf8_size s \<noteq> 6"
proof
  show "utf8_size s \<noteq> 6" by (simp add: utf8_size_def utf8_size_loop_sizes)
  show "ch < 0x200000 \<longrightarrow> utf8_size (utf8_bytes ch @ rest) = int (utf8_chsize ch)"
  proof
    assume b: "ch < 0x200000"
    then have n: "unat ch < 0x200000" by (simp add: word_less_nat_alt)
    note lead = unat_lead [of "unat ch"]
    have one: "unat ch < 0x80 \<Longrightarrow> unat (word_of_nat (unat ch) :: byte) = unat ch"
      by (rule unat_word_of_nat) simp
    show "utf8_size (utf8_bytes ch @ rest) = int (utf8_chsize ch)"
      using n lead one lead_byte_4 [OF b]
      by (auto simp: utf8_size_def utf8_size_loop_sizes utf8_bytes_def utf8_chsize_def Let_def
          word_less_nat_alt less_mult_imp_div_less simp del: of_nat_add)
  qed
qed

theorem utf8_size_table_witness: "utf8_size (utf8_bytes 0x20AC @ []) = 3"
  using utf8_size_table [of "0x20AC" "[]" "[]"] by (simp add: utf8_chsize_def)

end
