(* ===== verification/PasswordBuffer.thy ===== *)
theory PasswordBuffer
  imports Unicode
begin

section \<open>The password buffer (password.c)\<close>

text \<open>
  \<open>struct swaylock_password\<close> of swaylock.h and the operations of password.c that edit it:
  \<open>clear_buffer\<close>, \<open>clear_password_buffer\<close>, \<open>append_ch\<close> and \<open>backspace\<close>.  The invariant
  \<open>pw_repr\<close> says which list of code points a buffer holds; the operations refine the list
  operations \<open>append\<close>, \<open>butlast\<close> and the empty list.
\<close>

record swaylock_password =
  pw_len :: nat
  pw_buffer_len :: nat
  pw_buffer :: "byte list"

fun clear_buffer_loop :: "byte list \<Rightarrow> nat \<Rightarrow> nat \<Rightarrow> byte list" where
  "clear_buffer_loop buf i 0 = buf"
| "clear_buffer_loop buf i (Suc n) = clear_buffer_loop (buf[i := 0]) (Suc i) n"

definition clear_buffer :: "byte list \<Rightarrow> nat \<Rightarrow> byte list" where
  "clear_buffer buf sz = clear_buffer_loop buf 0 sz"

definition clear_password_buffer :: "swaylock_password \<Rightarrow> swaylock_password" where
  "clear_password_buffer pw =
     pw\<lparr>pw_buffer := clear_buffer (pw_buffer pw) (pw_buffer_len pw), pw_len := 0\<rparr>"

definition backspace :: "swaylock_password \<Rightarrow> bool \<times> swaylock_password" where
  "backspace pw =
     (if pw_len pw \<noteq> 0 then
        let n = pw_len pw - utf8_last_size (pw_buffer pw)
        in (True, pw\<lparr>pw_len := n, pw_buffer := (pw_buffer pw)[n := 0]\<rparr>)
      else (False, pw))"

definition append_ch :: "swaylock_password \<Rightarrow> u32 \<Rightarrow> swaylock_password" where
  "append_ch pw codepoint =
     (let utf8_sz = utf8_chsize codepoint in
      if pw_len pw + utf8_sz + 1 \<ge> pw_buffer_len pw then pw
      else
        let buf = fst (utf8_encode (pw_buffer pw) (pw_len pw) codepoint)
        in pw\<lparr>pw_buffer := buf[pw_len pw + utf8_sz := 0], pw_len := pw_len pw + utf8_sz\<rparr>)"

subsection \<open>What a buffer holds\<close>

definition pw_content :: "swaylock_password \<Rightarrow> byte list" where
  "pw_content pw = take (pw_len pw) (pw_buffer pw)"

definition pw_repr :: "swaylock_password \<Rightarrow> u32 list \<Rightarrow> bool" where
  "pw_repr pw cps \<longleftrightarrow>
     length (pw_buffer pw) = pw_buffer_len pw \<and> pw_len pw < pw_buffer_len pw \<and>
     pw_buffer pw ! pw_len pw = 0 \<and> pw_content pw = concat (map utf8_bytes cps) \<and> 0 \<notin> set cps"

text \<open>The invariant of the component: the buffer holds some password.\<close>

definition pw_inv :: "swaylock_password \<Rightarrow> bool" where
  "pw_inv pw \<longleftrightarrow> (\<exists>cps. pw_repr pw cps)"

lemma pw_reprD:
  assumes "pw_repr pw cps"
  shows "length (pw_buffer pw) = pw_buffer_len pw" "pw_len pw < pw_buffer_len pw"
    "pw_buffer pw ! pw_len pw = 0" "pw_content pw = concat (map utf8_bytes cps)" "0 \<notin> set cps"
    "pw_len pw = length (concat (map utf8_bytes cps))"
proof -
  show "length (pw_buffer pw) = pw_buffer_len pw" "pw_len pw < pw_buffer_len pw"
    "pw_buffer pw ! pw_len pw = 0" "pw_content pw = concat (map utf8_bytes cps)" "0 \<notin> set cps"
    using assms by (auto simp: pw_repr_def)
  then show "pw_len pw = length (concat (map utf8_bytes cps))"
    by (metis less_or_eq_imp_le length_take min.absorb2 pw_content_def)
qed

lemma concat_utf8_nonzero: "0 \<notin> set cps \<Longrightarrow> 0 \<notin> set (concat (map utf8_bytes cps))"
proof -
  assume z: "0 \<notin> set cps"
  have "0 \<notin> set (utf8_bytes c)" if "c \<in> set cps" for c
    using that z by (intro utf8_bytes_nonzero) auto
  then show ?thesis by auto
qed

lemma pw_repr_buffer:
  assumes "pw_repr pw cps"
  shows "pw_buffer pw = concat (map utf8_bytes cps) @ 0 # drop (Suc (pw_len pw)) (pw_buffer pw)"
proof -
  note r = pw_reprD [OF assms]
  have "pw_buffer pw = take (pw_len pw) (pw_buffer pw) @ drop (pw_len pw) (pw_buffer pw)" by simp
  also have "drop (pw_len pw) (pw_buffer pw) = 0 # drop (Suc (pw_len pw)) (pw_buffer pw)"
    using r(1-3) by (metis Cons_nth_drop_Suc)
  finally show ?thesis using r(4) by (simp add: pw_content_def)
qed

lemma pw_repr_empty_iff: "pw_repr pw cps \<Longrightarrow> pw_len pw = 0 \<longleftrightarrow> cps = []"
proof -
  assume r: "pw_repr pw cps"
  have "utf8_bytes c \<noteq> []" for c using utf8_chsize_pos [of c] by (metis length_greater_0_conv utf8_bytes_length)
  then have "concat (map utf8_bytes cps) = [] \<longleftrightarrow> cps = []" by (cases cps) auto
  then show ?thesis using pw_reprD(6) [OF r] by simp
qed

subsection \<open>Clearing\<close>

lemma clear_buffer_loop_eq:
  "clear_buffer_loop buf i n = foldl (\<lambda>b j. b[j := 0]) buf [i..<i + n]"
  by (induction buf i n rule: clear_buffer_loop.induct) (auto simp: upt_rec)

lemma length_clear_buffer_loop [simp]: "length (clear_buffer_loop buf i n) = length buf"
  by (induction buf i n rule: clear_buffer_loop.induct) auto

lemma nth_clear_buffer_loop:
  "k < length buf \<Longrightarrow>
   clear_buffer_loop buf i n ! k = (if i \<le> k \<and> k < i + n then 0 else buf ! k)"
  by (induction buf i n rule: clear_buffer_loop.induct) (auto simp: nth_list_update)

lemma clear_buffer_all: "sz = length buf \<Longrightarrow> clear_buffer buf sz = replicate sz 0"
  by (rule nth_equalityI) (simp_all add: clear_buffer_def nth_clear_buffer_loop)

lemma clear_password_buffer_repr:
  assumes "length (pw_buffer pw) = pw_buffer_len pw" and "0 < pw_buffer_len pw"
  shows "pw_repr (clear_password_buffer pw) []"
  using assms
  by (simp add: pw_repr_def clear_password_buffer_def pw_content_def clear_buffer_all)

lemma clear_password_buffer_inv [preserves]: "pw_inv pw \<Longrightarrow> pw_inv (clear_password_buffer pw)"
  unfolding pw_inv_def
  by (metis clear_password_buffer_repr gr_zeroI not_less_zero pw_reprD(1,2))

lemma pw_len_clear [simp]: "pw_len (clear_password_buffer pw) = 0"
  by (simp add: clear_password_buffer_def)

lemma pw_buffer_len_ops [simp]:
  "pw_buffer_len (clear_password_buffer pw) = pw_buffer_len pw"
  "pw_buffer_len (append_ch pw c) = pw_buffer_len pw"
  "pw_buffer_len (snd (backspace pw)) = pw_buffer_len pw"
  by (simp_all add: clear_password_buffer_def append_ch_def backspace_def Let_def)

subsection \<open>Appending and removing a character\<close>

definition pw_fits :: "swaylock_password \<Rightarrow> u32 \<Rightarrow> bool" where
  "pw_fits pw c \<longleftrightarrow> pw_len pw + utf8_chsize c + 1 < pw_buffer_len pw"

lemma append_ch_repr:
  assumes r: "pw_repr pw cps" and nz: "c \<noteq> 0"
  shows "pw_repr (append_ch pw c) (if pw_fits pw c then cps @ [c] else cps)"
proof (cases "pw_fits pw c")
  case False
  then show ?thesis using r by (simp add: append_ch_def pw_fits_def)
next
  case True
  note rd = pw_reprD [OF r]
  let ?n = "pw_len pw" and ?k = "utf8_chsize c"
  have room: "?n + ?k < length (pw_buffer pw)" using True rd(1) by (simp add: pw_fits_def)
  then have enc: "fst (utf8_encode (pw_buffer pw) ?n c) = overwrite (pw_buffer pw) ?n (utf8_bytes c)"
    by (simp add: utf8_encode_bytes)
  have app: "append_ch pw c =
      pw\<lparr>pw_buffer := (overwrite (pw_buffer pw) ?n (utf8_bytes c))[?n + ?k := 0], pw_len := ?n + ?k\<rparr>"
    using True by (simp add: append_ch_def pw_fits_def enc Let_def)
  have "take (?n + ?k) (overwrite (pw_buffer pw) ?n (utf8_bytes c)) = concat (map utf8_bytes (cps @ [c]))"
    using take_overwrite [of ?n "utf8_bytes c" "pw_buffer pw"] room rd(4) by (simp add: pw_content_def)
  then show ?thesis
    using True room rd nz by (simp add: app pw_repr_def pw_content_def pw_fits_def)
qed

lemma backspace_repr:
  assumes r: "pw_repr pw cps"
  shows "pw_repr (snd (backspace pw)) (butlast cps)" and "fst (backspace pw) = (cps \<noteq> [])"
proof -
  note rd = pw_reprD [OF r]
  show "fst (backspace pw) = (cps \<noteq> [])"
    using pw_repr_empty_iff [OF r] by (simp add: backspace_def Let_def)
  show "pw_repr (snd (backspace pw)) (butlast cps)"
  proof (cases cps rule: rev_cases)
    case Nil
    then show ?thesis using r pw_repr_empty_iff [OF r] by (simp add: backspace_def)
  next
    case (snoc ds c)
    let ?pre = "concat (map utf8_bytes ds)"
    have nz: "c \<noteq> 0" "0 \<notin> set ds" using rd(5) snoc by auto
    have buf: "pw_buffer pw = ?pre @ utf8_bytes c @ 0 # drop (Suc (pw_len pw)) (pw_buffer pw)"
      using pw_repr_buffer [OF r] snoc by simp
    have last_size: "utf8_last_size (pw_buffer pw) = utf8_chsize c"
      using utf8_last_size_snoc [OF utf8_bytes_shape [OF nz(1)] concat_utf8_nonzero [OF nz(2)]]
      by (subst buf) simp
    have len: "pw_len pw = length ?pre + utf8_chsize c" using rd(6) snoc by simp
    have erased: "snd (backspace pw) = pw\<lparr>pw_len := length ?pre, pw_buffer := (pw_buffer pw)[length ?pre := 0]\<rparr>"
      using len last_size utf8_chsize_pos [of c] by (simp add: backspace_def Let_def)
    have "take (length ?pre) (pw_buffer pw) = ?pre" by (subst buf) simp
    then show ?thesis
      using rd len nz snoc by (simp add: erased pw_repr_def pw_content_def)
  qed
qed

lemma append_ch_inv [preserves]: "pw_inv pw \<Longrightarrow> c \<noteq> 0 \<Longrightarrow> pw_inv (append_ch pw c)"
  unfolding pw_inv_def using append_ch_repr by blast

lemma backspace_inv [preserves]: "pw_inv pw \<Longrightarrow> pw_inv (snd (backspace pw))"
  unfolding pw_inv_def using backspace_repr(1) by blast

subsection \<open>The interface of an editable text\<close>

text \<open>
  What a user of the buffer relies on: a relation to the list of characters held, and the three
  edits with their effect on that list.  An append may be refused (the buffer is full), which
  \<open>fits\<close> tells.
\<close>

datatype 'c edit = Append 'c | Erase | Clear

fun edit_spec :: "bool \<Rightarrow> 'c edit \<Rightarrow> 'c list \<Rightarrow> 'c list" where
  "edit_spec room (Append c) cs = (if room then cs @ [c] else cs)"
| "edit_spec room Erase cs = butlast cs"
| "edit_spec room Clear cs = []"

locale text_buffer =
  fixes repr :: "'b \<Rightarrow> 'c list \<Rightarrow> bool"
    and valid :: "'c \<Rightarrow> bool"
    and fits :: "'b \<Rightarrow> 'c \<Rightarrow> bool"
    and app :: "'b \<Rightarrow> 'c \<Rightarrow> 'b"
    and del :: "'b \<Rightarrow> bool \<times> 'b"
    and clr :: "'b \<Rightarrow> 'b"
  assumes app_repr: "repr b cs \<Longrightarrow> valid c \<Longrightarrow> repr (app b c) (if fits b c then cs @ [c] else cs)"
    and del_repr: "repr b cs \<Longrightarrow> repr (snd (del b)) (butlast cs)"
    and del_result: "repr b cs \<Longrightarrow> fst (del b) = (cs \<noteq> [])"
    and clr_repr: "repr b cs \<Longrightarrow> repr (clr b) []"
begin

fun edit_impl :: "'c edit \<Rightarrow> 'b \<Rightarrow> 'b" where
  "edit_impl (Append c) b = app b c"
| "edit_impl Erase b = snd (del b)"
| "edit_impl Clear b = clr b"

fun edit_room :: "'c edit \<Rightarrow> 'b \<Rightarrow> bool" where
  "edit_room (Append c) b = fits b c"
| "edit_room _ b = True"

fun edit_valid :: "'c edit \<Rightarrow> bool" where
  "edit_valid (Append c) = valid c"
| "edit_valid _ = True"

lemma edit_simulation:
  "repr b cs \<Longrightarrow> edit_valid e \<Longrightarrow> repr (edit_impl e b) (edit_spec (edit_room e b) e cs)"
  by (cases e) (auto simp: app_repr del_repr clr_repr dest: app_repr)

lemma edits_keep_repr:
  "\<exists>cs. repr b cs \<Longrightarrow> \<forall>e \<in> set es. edit_valid e \<Longrightarrow> \<exists>cs. repr (fold edit_impl es b) cs"
  by (induction es arbitrary: b) (auto dest: edit_simulation)

end

interpretation pw: text_buffer pw_repr "\<lambda>c. c \<noteq> 0" pw_fits append_ch backspace clear_password_buffer
proof
  fix b cs
  assume r: "pw_repr b cs"
  show "pw_repr (append_ch b c) (if pw_fits b c then cs @ [c] else cs)" if "c \<noteq> 0" for c
    using r that by (rule append_ch_repr)
  show "pw_repr (snd (backspace b)) (butlast cs)" "fst (backspace b) = (cs \<noteq> [])"
    using r by (rule backspace_repr)+
  show "pw_repr (clear_password_buffer b) []"
    using pw_reprD(1,2) [OF r] by (intro clear_password_buffer_repr) auto
qed

subsection \<open>Properties\<close>

text \<open>C11. Refinement of the password buffer: a buffer that holds a list of code points holds, after
  any edit (append, backspace, clear), the list that the same edit of the list gives; an append is
  dropped exactly when the encoded character and a terminator do not fit.\<close>

theorem password_edit_refines:
  assumes "pw_repr pw cps" and "\<And>c. e = Append c \<Longrightarrow> c \<noteq> 0"
  shows "pw_repr (case e of Append c \<Rightarrow> append_ch pw c | Erase \<Rightarrow> snd (backspace pw)
                   | Clear \<Rightarrow> clear_password_buffer pw)
           (edit_spec (case e of Append c \<Rightarrow> pw_len pw + utf8_chsize c + 1 < pw_buffer_len pw | _ \<Rightarrow> True) e cps)"
  using pw.edit_simulation [OF assms(1), of e] assms(2) by (cases e) (auto simp: pw_fits_def)

lemma password_edit_refines_witness:
  "pw_repr (append_ch \<lparr>pw_len = 1, pw_buffer_len = 8, pw_buffer = [0x61, 0, 7, 7, 7, 7, 7, 7]\<rparr> 0xE9) [0x61, 0xE9]"
proof -
  have "pw_repr \<lparr>pw_len = 1, pw_buffer_len = 8, pw_buffer = [0x61, 0, 7, 7, 7, 7, 7, 7]\<rparr> [0x61]"
    by (simp add: pw_repr_def pw_content_def) code_simp
  from password_edit_refines [OF this, of "Append 0xE9"] show ?thesis by (simp add: utf8_chsize_def)
qed

text \<open>Clearing wipes the whole buffer, not only the bytes in use: every byte is zero afterwards
  and the recorded length is zero.\<close>

theorem clear_password_buffer_wipes:
  assumes "length (pw_buffer pw) = pw_buffer_len pw"
  shows "pw_buffer (clear_password_buffer pw) = replicate (pw_buffer_len pw) 0 \<and>
    pw_len (clear_password_buffer pw) = 0"
  using assms by (simp_all add: clear_password_buffer_def clear_buffer_all)

lemma clear_password_buffer_wipes_witness:
  "pw_buffer (clear_password_buffer \<lparr>pw_len = 1, pw_buffer_len = 4, pw_buffer = [0x61, 0, 7, 7]\<rparr>) = [0, 0, 0, 0]"
  using clear_password_buffer_wipes [of "\<lparr>pw_len = 1, pw_buffer_len = 4, pw_buffer = [0x61, 0, 7, 7]\<rparr>"]
  by (simp add: eval_nat_numeral)

end
