(* ===== verification/Comm.thy ===== *)
theory Comm
  imports PasswordBuffer
begin

section \<open>Talking to the password checker (comm.c, password-buffer.c)\<close>

text \<open>
  The pipe protocol between the locker and its password-checking child.  \<open>ret k\<close> is what the
  \<open>k\<close>-th system call answers: for \<open>read\<close> and \<open>write\<close> the number of bytes moved, and minus the
  \<open>errno\<close> for a failed call.  The loops that retry after \<open>EINTR\<close> may never return, so they are partial functions:
  \<open>None\<close> is "never returns".  A pipe is the list of the bytes in it.
\<close>

definition EPERM :: int where "EPERM = 1"
definition EINTR :: int where "EINTR = 4"
definition EAGAIN :: int where "EAGAIN = 11"

datatype io_status = IO_ok | IO_eof | IO_error | IO_assert

subsection \<open>Complete reads and writes\<close>

text \<open>The result holds the bytes read, what is left in the pipe and the number of the next call.\<close>

partial_function (option) read_full ::
  "(nat \<Rightarrow> int) \<Rightarrow> nat \<Rightarrow> byte list \<Rightarrow> byte list \<Rightarrow> nat \<Rightarrow> (io_status \<times> byte list \<times> byte list \<times> nat) option" where
  "read_full ret len buf pipe k =
     (if length buf < len then
        let n = ret k in
        if n < 0 then
          (if n = - EINTR then read_full ret len buf pipe (Suc k) else Some (IO_error, buf, pipe, Suc k))
        else if n = 0 then
          (if length buf = 0 then Some (IO_eof, buf, pipe, Suc k) else Some (IO_error, buf, pipe, Suc k))
        else read_full ret len (buf @ take (nat n) pipe) (drop (nat n) pipe) (Suc k)
      else Some (IO_ok, buf, pipe, k))"

text \<open>The result holds the number of bytes of \<open>buf\<close> written.\<close>

partial_function (option) write_full ::
  "(nat \<Rightarrow> int) \<Rightarrow> byte list \<Rightarrow> nat \<Rightarrow> nat \<Rightarrow> (io_status \<times> nat \<times> nat) option" where
  "write_full ret buf off k =
     (if off < length buf then
        let n = ret k in
        if n \<le> 0 then
          (if n = 0 then Some (IO_assert, off, Suc k)
           else if n = - EINTR then write_full ret buf off (Suc k)
           else Some (IO_error, off, Suc k))
        else write_full ret buf (off + nat n) (Suc k)
      else Some (IO_ok, off, k))"

text \<open>A \<open>size_t\<close> in memory: eight bytes, the least significant one first.\<close>

fun le_bytes :: "nat \<Rightarrow> nat \<Rightarrow> byte list" where
  "le_bytes 0 n = []"
| "le_bytes (Suc i) n = word_of_nat (n mod 256) # le_bytes i (n div 256)"

fun bytes_size :: "byte list \<Rightarrow> nat" where
  "bytes_size [] = 0"
| "bytes_size (b # bs) = unat b + 256 * bytes_size bs"

definition size_bytes :: "nat \<Rightarrow> byte list" where
  "size_bytes n = le_bytes 8 n"

subsection \<open>Locked memory (password-buffer.c)\<close>

text \<open>\<open>mlock\<close> is tried again after \<open>EAGAIN\<close>, five failures in all; the results are whether the buffer may be
  used and whether locking is supported.\<close>

fun password_buffer_lock :: "(nat \<Rightarrow> int) \<Rightarrow> nat \<Rightarrow> nat \<Rightarrow> (bool \<times> bool) \<times> nat" where
  "password_buffer_lock ret 0 k = ((True, True), Suc k)"
| "password_buffer_lock ret (Suc retries) k =
     (if ret k = 0 then ((True, True), Suc k)
      else if ret k = - EAGAIN then
        (if retries = 0 then ((False, True), Suc k) else password_buffer_lock ret retries (Suc k))
      else if ret k = - EPERM then ((True, False), Suc k)
      else ((False, True), Suc k))"

definition password_buffer_create :: "(nat \<Rightarrow> int) \<Rightarrow> nat \<Rightarrow> bool \<times> nat" where
  "password_buffer_create ret k =
     (if ret k \<noteq> 0 then (False, Suc k)
      else let ((ok, _), k') = password_buffer_lock ret 5 (Suc k) in (ok, k'))"

definition password_buffer_destroy :: "byte list \<Rightarrow> nat \<Rightarrow> byte list" where
  "password_buffer_destroy buf sz = clear_buffer buf sz"

subsection \<open>Requests and replies\<close>

text \<open>\<open>write_comm_request\<close>: whether it worked, the password afterwards, the bytes that went into the
  pipe and the next call; a failed assertion is the status \<open>IO_assert\<close>.\<close>

definition write_comm_request ::
  "(nat \<Rightarrow> int) \<Rightarrow> swaylock_password \<Rightarrow> nat \<Rightarrow> (io_status \<times> swaylock_password \<times> byte list \<times> nat) option" where
  "write_comm_request ret pw k =
     (let sz = pw_len pw + 1; header = size_bytes sz; body = take sz (pw_buffer pw) in
      case write_full ret header 0 k of
        None \<Rightarrow> None
      | Some (st, n, k1) \<Rightarrow>
          if st = IO_assert then Some (IO_assert, pw, take n header, k1)
          else if st \<noteq> IO_ok then Some (IO_error, clear_password_buffer pw, take n header, k1)
          else (case write_full ret body 0 k1 of
                  None \<Rightarrow> None
                | Some (st2, m, k2) \<Rightarrow>
                    if st2 = IO_assert then Some (IO_assert, pw, header @ take m body, k2)
                    else Some (if st2 = IO_ok then IO_ok else IO_error,
                               clear_password_buffer pw, header @ take m body, k2)))"

datatype request = No_request | Request_failed | Request_abort | Request "byte list"

definition read_comm_request :: "(nat \<Rightarrow> int) \<Rightarrow> byte list \<Rightarrow> nat \<Rightarrow> (request \<times> byte list \<times> nat) option" where
  "read_comm_request ret pipe k =
     (case read_full ret 8 [] pipe k of
        None \<Rightarrow> None
      | Some (st, hd_bytes, pipe1, k1) \<Rightarrow>
          if st = IO_eof then Some (No_request, pipe1, k1)
          else if st \<noteq> IO_ok then Some (Request_failed, pipe1, k1)
          else
            let sz = bytes_size hd_bytes in
            if sz = 0 then Some (Request_abort, pipe1, k1)
            else
              let (made, k2) = password_buffer_create ret k1 in
              if \<not> made then Some (Request_failed, pipe1, k2)
              else (case read_full ret sz [] pipe1 k2 of
                      None \<Rightarrow> None
                    | Some (st2, buf, pipe2, k3) \<Rightarrow>
                        if st2 \<noteq> IO_ok then Some (Request_failed, pipe2, k3)
                        else if buf ! (sz - 1) \<noteq> 0 then Some (Request_abort, pipe2, k3)
                        else Some (Request buf, pipe2, k3)))"

definition write_comm_reply :: "(nat \<Rightarrow> int) \<Rightarrow> bool \<Rightarrow> nat \<Rightarrow> (io_status \<times> byte list \<times> nat) option" where
  "write_comm_reply ret success k =
     (let buf = [if success then 1 else 0] in
      case write_full ret buf 0 k of None \<Rightarrow> None | Some (st, n, k1) \<Rightarrow> Some (st, take n buf, k1))"

text \<open>\<open>Some (None, \<dots>)\<close> when the reply cannot be read.\<close>

definition read_comm_reply :: "(nat \<Rightarrow> int) \<Rightarrow> byte list \<Rightarrow> nat \<Rightarrow> (bool option \<times> byte list \<times> nat) option" where
  "read_comm_reply ret pipe k =
     (case read_full ret 1 [] pipe k of
        None \<Rightarrow> None
      | Some (st, buf, pipe1, k1) \<Rightarrow>
          Some (if st = IO_ok then Some (buf ! 0 \<noteq> 0) else None, pipe1, k1))"

subsection \<open>Starting the child\<close>

text \<open>The pipe ends are \<open>(r0, w0)\<close> for requests and \<open>(r1, w1)\<close> for replies; the results are the role of the
  process and the descriptors it closed.\<close>

datatype role = Spawn_failed | Parent | Child

definition spawn_comm_child ::
  "(nat \<Rightarrow> int) \<Rightarrow> int \<times> int \<Rightarrow> int \<times> int \<Rightarrow> bool \<Rightarrow> nat \<Rightarrow> role \<times> int list \<times> nat" where
  "spawn_comm_child ret c0 c1 cloexec_ok k =
     (if ret k \<noteq> 0 then (Spawn_failed, [], Suc k)
      else if ret (Suc k) \<noteq> 0 then (Spawn_failed, [fst c0, snd c0], k + 2)
      else if \<not> cloexec_ok then (Spawn_failed, [fst c0, snd c0, fst c1, snd c1], k + 2)
      else
        let child = ret (k + 2) in
        if child < 0 then (Spawn_failed, [], k + 3)
        else if child = 0 then (Child, [snd c0, fst c1], k + 3)
        else (Parent, [fst c0, snd c1], k + 3))"

subsection \<open>Kernel answers\<close>

text \<open>\<open>ok_answers n as\<close>: the answers move exactly \<open>n\<close> bytes in positive chunks, with interruptions
  anywhere.  \<open>feeds ret k as\<close>: these are the answers from call \<open>k\<close> on.\<close>

fun ok_answers :: "nat \<Rightarrow> int list \<Rightarrow> bool" where
  "ok_answers n [] = (n = 0)"
| "ok_answers n (a # as) =
     (0 < n \<and> (if a = - EINTR then ok_answers n as else 0 < a \<and> nat a \<le> n \<and> ok_answers (n - nat a) as))"

definition feeds :: "(nat \<Rightarrow> int) \<Rightarrow> nat \<Rightarrow> int list \<Rightarrow> bool" where
  "feeds ret k as \<longleftrightarrow> (\<forall>i<length as. ret (k + i) = as ! i)"

lemma feeds_Cons: "feeds ret k (a # as) \<longleftrightarrow> ret k = a \<and> feeds ret (Suc k) as"
proof
  assume l: "feeds ret k (a # as)"
  have "ret (k + Suc i) = as ! i" if "i < length as" for i
    using l that by (metis feeds_def Suc_less_eq length_Cons nth_Cons_Suc)
  moreover have "ret (k + 0) = a" using l by (metis feeds_def length_Cons nth_Cons_0 zero_less_Suc)
  ultimately show "ret k = a \<and> feeds ret (Suc k) as" by (simp add: feeds_def)
next
  assume "ret k = a \<and> feeds ret (Suc k) as"
  then show "feeds ret k (a # as)" by (auto simp: feeds_def nth_Cons split: nat.split)
qed

lemma feeds_append: "feeds ret k (as @ bs) \<longleftrightarrow> feeds ret k as \<and> feeds ret (k + length as) bs"
proof (induction as arbitrary: k)
  case Nil
  then show ?case by (simp add: feeds_def)
next
  case (Cons a as)
  then show ?case by (simp add: feeds_Cons)
qed

lemma write_full_ok:
  assumes "off \<le> length buf" "ok_answers (length buf - off) as" "feeds ret k as"
  shows "write_full ret buf off k = Some (IO_ok, length buf, k + length as)"
  using assms
proof (induction as arbitrary: off k)
  case Nil
  then show ?case by (subst write_full.simps) simp
next
  case (Cons a as)
  have a: "ret k = a" "feeds ret (Suc k) as" using Cons.prems(3) by (simp_all add: feeds_Cons)
  show ?case
  proof (cases "a = - EINTR")
    case True
    then have "write_full ret buf off (Suc k) = Some (IO_ok, length buf, Suc k + length as)"
      using Cons.prems a(2) by (intro Cons.IH) auto
    then show ?thesis using Cons.prems(2) a(1) True by (subst write_full.simps) (simp add: EINTR_def)
  next
    case False
    then have pos: "0 < a" "nat a \<le> length buf - off" "ok_answers (length buf - off - nat a) as" "off < length buf"
      using Cons.prems(2) by auto
    then have "write_full ret buf (off + nat a) (Suc k) = Some (IO_ok, length buf, Suc k + length as)"
      using a(2) by (intro Cons.IH) auto
    then show ?thesis using pos a(1) by (subst write_full.simps) simp
  qed
qed

lemma read_full_ok:
  assumes "length buf \<le> len" "ok_answers (len - length buf) as" "feeds ret k as" "len - length buf \<le> length pipe"
  shows "read_full ret len buf pipe k =
    Some (IO_ok, buf @ take (len - length buf) pipe, drop (len - length buf) pipe, k + length as)"
  using assms
proof (induction as arbitrary: buf pipe k)
  case Nil
  then show ?case by (subst read_full.simps) simp
next
  case (Cons a as)
  have a: "ret k = a" "feeds ret (Suc k) as" using Cons.prems(3) by (simp_all add: feeds_Cons)
  show ?case
  proof (cases "a = - EINTR")
    case True
    then have "read_full ret len buf pipe (Suc k) =
        Some (IO_ok, buf @ take (len - length buf) pipe, drop (len - length buf) pipe, Suc k + length as)"
      using Cons.prems a(2) by (intro Cons.IH) auto
    then show ?thesis using Cons.prems(2) a(1) True by (subst read_full.simps) (simp add: EINTR_def)
  next
    case False
    then have pos: "0 < a" "nat a \<le> len - length buf" "ok_answers (len - length buf - nat a) as" "length buf < len"
      using Cons.prems(2) by auto
    let ?b = "buf @ take (nat a) pipe" and ?p = "drop (nat a) pipe"
    have lb: "length ?b = length buf + nat a" using pos(2) Cons.prems(4) by simp
    have "read_full ret len ?b ?p (Suc k) =
        Some (IO_ok, ?b @ take (len - length ?b) ?p, drop (len - length ?b) ?p, Suc k + length as)"
    proof (rule Cons.IH)
      show "ok_answers (len - length ?b) as" using pos(3) unfolding lb by simp
      show "length ?b \<le> len" "len - length ?b \<le> length ?p" using pos(2,4) Cons.prems(4) unfolding lb by auto
    qed (rule a(2))
    moreover have "?b @ take (len - length ?b) ?p = buf @ take (len - length buf) pipe"
    proof -
      have "len - length buf = nat a + (len - length ?b)" unfolding lb using pos(2) by simp
      then show ?thesis by (metis append.assoc take_add)
    qed
    moreover have "drop (len - length ?b) ?p = drop (len - length buf) pipe"
    proof -
      have "len - length ?b + nat a = len - length buf" unfolding lb using pos(2) by simp
      then show ?thesis by (metis drop_drop)
    qed
    ultimately show ?thesis using pos a(1) by (subst read_full.simps) simp
  qed
qed

lemma bytes_size_le_bytes: "n < 256 ^ i \<Longrightarrow> bytes_size (le_bytes i n) = n"
proof (induction i n rule: le_bytes.induct)
  case (2 i n)
  then have "bytes_size (le_bytes i (n div 256)) = n div 256" by (simp add: less_mult_imp_div_less)
  then show ?case by (simp add: unsigned_of_nat take_bit_eq_mod)
qed simp

lemma length_le_bytes [simp]: "length (le_bytes i n) = i"
  by (induction i n rule: le_bytes.induct) auto

lemma bytes_size_size_bytes: "n < 2 ^ 64 \<Longrightarrow> bytes_size (size_bytes n) = n"
  by (simp add: size_bytes_def bytes_size_le_bytes)

lemma length_size_bytes [simp]: "length (size_bytes n) = 8"
  by (simp add: size_bytes_def)

subsection \<open>Properties of the protocol\<close>

lemma write_comm_request_ok:
  assumes "length (pw_buffer pw) = pw_buffer_len pw" "pw_len pw < pw_buffer_len pw"
    and "ok_answers 8 hs" "ok_answers (pw_len pw + 1) bs" "feeds ret k (hs @ bs)"
  shows "write_comm_request ret pw k =
    Some (IO_ok, clear_password_buffer pw, size_bytes (pw_len pw + 1) @ take (pw_len pw + 1) (pw_buffer pw),
          k + length hs + length bs)"
proof -
  have f: "feeds ret k hs" "feeds ret (k + length hs) bs" using assms(5) by (simp_all add: feeds_append)
  have n: "length (take (pw_len pw + 1) (pw_buffer pw)) = pw_len pw + 1" using assms(1,2) by simp
  have "write_full ret (size_bytes (pw_len pw + 1)) 0 k = Some (IO_ok, 8, k + length hs)"
    using write_full_ok [of 0 "size_bytes (pw_len pw + 1)" hs ret k] assms(3) f(1) by simp
  moreover have "write_full ret (take (pw_len pw + 1) (pw_buffer pw)) 0 (k + length hs) =
      Some (IO_ok, pw_len pw + 1, k + length hs + length bs)"
    using write_full_ok [of 0 "take (pw_len pw + 1) (pw_buffer pw)" bs ret "k + length hs"] assms(4) f(2)
    unfolding n by simp
  ultimately show ?thesis by (simp add: write_comm_request_def Let_def)
qed

lemma read_comm_request_ok:
  assumes "length body = n" "0 < n" "n < 2 ^ 64" "body ! (n - 1) = 0"
    and "ok_answers 8 hs" "ok_answers n bs" "feeds ret k (hs @ [0, 0] @ bs)"
  shows "read_comm_request ret (size_bytes n @ body @ rest) k =
    Some (Request body, rest, k + length hs + 2 + length bs)"
proof -
  have f: "feeds ret k hs" "ret (k + length hs) = 0" "ret (Suc (k + length hs)) = 0"
      "feeds ret (k + length hs + 2) bs"
    using assms(7) by (simp_all add: feeds_append feeds_Cons)
  have "read_full ret 8 [] (size_bytes n @ body @ rest) k = Some (IO_ok, size_bytes n, body @ rest, k + length hs)"
    using read_full_ok [of "[]" 8 hs ret k "size_bytes n @ body @ rest"] assms(5) f(1) by simp
  moreover have "password_buffer_create ret (k + length hs) = (True, k + length hs + 2)"
    using f(2,3) by (simp add: password_buffer_create_def eval_nat_numeral)
  moreover have "read_full ret n [] (body @ rest) (k + length hs + 2) = Some (IO_ok, body, rest, k + length hs + 2 + length bs)"
    using read_full_ok [of "[]" n bs ret "k + length hs + 2" "body @ rest"] assms(1,6) f(4) by simp
  ultimately show ?thesis
    using assms(2-4) by (simp add: read_comm_request_def bytes_size_size_bytes)
qed

text \<open>C8. Round trip of a password request: whatever chunks and interruptions the kernel answers the locker's
  writes and the child's reads with, the child gets exactly the bytes of the typed characters and
  their terminator, what follows in the pipe is untouched, and the locker's buffer is empty and
  zeroed afterwards.\<close>

theorem request_roundtrip:
  assumes "pw_repr pw cps" and "pw_len pw + 1 < 2 ^ 64"
    and "ok_answers 8 hs" "ok_answers (pw_len pw + 1) bs" "feeds wret k (hs @ bs)"
    and "ok_answers 8 hs'" "ok_answers (pw_len pw + 1) bs'" "feeds rret j (hs' @ [0, 0] @ bs')"
  shows "\<exists>sent k' j'.
    write_comm_request wret pw k = Some (IO_ok, clear_password_buffer pw, sent, k') \<and>
    pw_repr (clear_password_buffer pw) [] \<and>
    pw_buffer (clear_password_buffer pw) = replicate (pw_buffer_len pw) 0 \<and>
    read_comm_request rret (sent @ rest) j = Some (Request (concat (map utf8_bytes cps) @ [0]), rest, j')"
proof -
  note r = pw_reprD [OF assms(1)]
  let ?n = "pw_len pw + 1"
  have body: "take ?n (pw_buffer pw) = concat (map utf8_bytes cps) @ [0]"
    using r(1-4) by (simp add: take_Suc_conv_app_nth pw_content_def)
  have "read_comm_request rret (size_bytes ?n @ (concat (map utf8_bytes cps) @ [0]) @ rest) j =
      Some (Request (concat (map utf8_bytes cps) @ [0]), rest, j + length hs' + 2 + length bs')"
    using assms(2,6,7,8) r(6) by (intro read_comm_request_ok) (simp_all add: nth_append)
  moreover have "write_comm_request wret pw k =
      Some (IO_ok, clear_password_buffer pw, size_bytes ?n @ concat (map utf8_bytes cps) @ [0], k + length hs + length bs)"
    using write_comm_request_ok [OF r(1,2) assms(3-5)] body by simp
  moreover have "pw_repr (clear_password_buffer pw) []" "pw_buffer (clear_password_buffer pw) = replicate (pw_buffer_len pw) 0"
    using r(1,2) clear_password_buffer_repr [OF r(1)] by (simp_all add: clear_password_buffer_def clear_buffer_all)
  ultimately show ?thesis by simp
qed

lemma request_roundtrip_witness:
  "\<exists>sent k' j'.
    write_comm_request (\<lambda>k. if k = 0 then -4 else if k = 1 then 8 else 2)
      \<lparr>pw_len = 1, pw_buffer_len = 4, pw_buffer = [0x61, 0, 7, 7]\<rparr> 0 =
      Some (IO_ok, clear_password_buffer \<lparr>pw_len = 1, pw_buffer_len = 4, pw_buffer = [0x61, 0, 7, 7]\<rparr>, sent, k') \<and>
    read_comm_request (\<lambda>j. if j < 2 then 4 else if j < 4 then 0 else 1) (sent @ [9]) 0 = Some (Request [0x61, 0], [9], j')"
proof -
  let ?pw = "\<lparr>pw_len = 1, pw_buffer_len = 4, pw_buffer = [0x61, 0, 7, 7]\<rparr>"
  have r: "pw_repr ?pw [0x61]" by (simp add: pw_repr_def pw_content_def) code_simp
  have u: "utf8_bytes 0x61 = [0x61]" by code_simp
  have "\<exists>sent k' j'.
    write_comm_request (\<lambda>k. if k = 0 then -4 else if k = 1 then 8 else 2) ?pw 0 =
      Some (IO_ok, clear_password_buffer ?pw, sent, k') \<and> pw_repr (clear_password_buffer ?pw) [] \<and>
    pw_buffer (clear_password_buffer ?pw) = replicate (pw_buffer_len ?pw) 0 \<and>
    read_comm_request (\<lambda>j. if j < 2 then 4 else if j < 4 then 0 else 1) (sent @ [9]) 0 =
      Some (Request (concat (map utf8_bytes [0x61]) @ [0]), [9], j')"
    by (rule request_roundtrip [OF r, of "[-4, 8]" "[2]" _ _ "[4, 4]" "[1, 1]"])
       (simp_all add: feeds_Cons, simp_all add: feeds_def EINTR_def)
  then show ?thesis by (auto simp: u)
qed


end
