(* ===== verification/PwBackend.thy ===== *)
theory PwBackend
  imports Comm
begin

section \<open>The password-checking child (pam.c, shadow.c)\<close>

text \<open>
  The process that \<open>spawn_comm_child\<close> forks: the PAM conversation and the request loop of pam.c, and
  the privilege drop and the request loop of shadow.c.  PAM and \<open>crypt\<close> are parameters: for the
  \<open>n\<close>-th request, \<open>auth n buf\<close> is the status \<open>pam_authenticate\<close> returns, and the
  batches of messages it passes to the conversation function are arguments of that function.
\<close>

definition PAM_SUCCESS :: int where "PAM_SUCCESS = 0"

definition c_string :: "byte list \<Rightarrow> byte list" where
  "c_string bs = takeWhile (\<lambda>b. b \<noteq> 0) bs"

subsection \<open>The PAM conversation\<close>

datatype msg_style = PAM_PROMPT_ECHO_OFF | PAM_PROMPT_ECHO_ON | PAM_ERROR_MSG | PAM_TEXT_INFO

datatype conv_result = Conv_success | Conv_abort

text \<open>The loop over the messages: \<open>dup i\<close> tells whether the \<open>i\<close>-th \<open>strdup\<close> finds memory.  The password is handed
  out once; the state keeps \<open>None\<close> (\<open>NULL\<close>) from then on.\<close>

fun answer_messages ::
  "(nat \<Rightarrow> bool) \<Rightarrow> nat \<Rightarrow> msg_style list \<Rightarrow> byte list option \<Rightarrow> conv_result \<times> byte list option list \<times> byte list option" where
  "answer_messages dup i [] password = (Conv_success, [], password)"
| "answer_messages dup i (m # ms) password =
     (if m = PAM_PROMPT_ECHO_OFF \<or> m = PAM_PROMPT_ECHO_ON then
        (case password of
           None \<Rightarrow> (Conv_abort, replicate (Suc (length ms)) None, None)
         | Some p \<Rightarrow>
             if \<not> dup i then (Conv_abort, replicate (Suc (length ms)) None, Some p)
             else let (r, resp, password') = answer_messages dup (Suc i) ms None
                  in (r, Some (c_string p) # resp, password'))
      else let (r, resp, password') = answer_messages dup (Suc i) ms password
           in (r, None # resp, password'))"

definition handle_conversation ::
  "bool \<Rightarrow> (nat \<Rightarrow> bool) \<Rightarrow> msg_style list \<Rightarrow> byte list option \<Rightarrow> conv_result \<times> byte list option list \<times> byte list option" where
  "handle_conversation calloc_ok dup msgs password =
     (if \<not> calloc_ok then (Conv_abort, [], password) else answer_messages dup 0 msgs password)"

text \<open>What a whole \<open>pam_authenticate\<close> gets: the responses of each batch, until one aborts.\<close>

fun given :: "byte list option list \<Rightarrow> byte list list" where
  "given [] = []"
| "given (None # rs) = given rs"
| "given (Some p # rs) = p # given rs"

fun converse :: "msg_style list list \<Rightarrow> byte list option \<Rightarrow> conv_result \<times> byte list list" where
  "converse [] password = (Conv_success, [])"
| "converse (msgs # batches) password =
     (let (r, resp, password') = handle_conversation True (\<lambda>_. True) msgs password
      in if r = Conv_abort then (Conv_abort, given resp)
         else let (r', resp') = converse batches password' in (r', given resp @ resp'))"

subsection \<open>The request loops\<close>

text \<open>How the child ends, and the requests it answered with the answers it sent.\<close>

datatype child_end = Child_exit int | Child_abort

partial_function (option) pam_loop ::
  "(nat \<Rightarrow> int) \<Rightarrow> (nat \<Rightarrow> byte list \<Rightarrow> int) \<Rightarrow> byte list \<Rightarrow> (byte list \<times> bool) list \<Rightarrow> nat \<Rightarrow>
   (child_end option \<times> (byte list \<times> bool) list \<times> nat) option" where
  "pam_loop ret auth pipe hist k =
     (case read_comm_request ret pipe k of
        None \<Rightarrow> None
      | Some (req, pipe1, k1) \<Rightarrow>
          (case req of
             Request_failed \<Rightarrow> Some (Some (Child_exit 1), hist, k1)
           | Request_abort \<Rightarrow> Some (Some Child_abort, hist, k1)
           | No_request \<Rightarrow> Some (None, hist, k1)
           | Request buf \<Rightarrow>
               let success = (auth (length hist) buf = PAM_SUCCESS) in
               (case write_comm_reply ret success k1 of
                  None \<Rightarrow> None
                | Some (st, sent, k2) \<Rightarrow>
                    if st = IO_assert then Some (Some Child_abort, hist, k2)
                    else if st \<noteq> IO_ok then Some (Some (Child_exit 1), hist, k2)
                    else if success then Some (None, hist @ [(buf, success)], k2)
                    else pam_loop ret auth pipe1 (hist @ [(buf, success)]) k2)))"

text \<open>The status handed to \<open>pam_end\<close> and tested at the end is the outer variable, which the loop's own
  declaration shadows: it is still \<open>PAM_SUCCESS\<close>.\<close>

definition pam_child ::
  "(nat \<Rightarrow> int) \<Rightarrow> (nat \<Rightarrow> byte list \<Rightarrow> int) \<Rightarrow> (int \<Rightarrow> int) \<Rightarrow> byte list \<Rightarrow> nat \<Rightarrow>
   (child_end \<times> (byte list \<times> bool) list) option" where
  "pam_child ret auth pam_end pipe k =
     (let pam_status = PAM_SUCCESS in
      case pam_loop ret auth pipe [] k of
        None \<Rightarrow> None
      | Some (Some e, hist, _) \<Rightarrow> Some (e, hist)
      | Some (None, hist, _) \<Rightarrow>
          if pam_end pam_status \<noteq> PAM_SUCCESS then Some (Child_exit 1, hist)
          else Some (Child_exit (if pam_status = PAM_SUCCESS then 0 else 1), hist))"

partial_function (option) shadow_loop ::
  "(nat \<Rightarrow> int) \<Rightarrow> (byte list \<Rightarrow> byte list \<Rightarrow> byte list option) \<Rightarrow> byte list \<Rightarrow> byte list \<Rightarrow>
   (byte list \<times> bool) list \<Rightarrow> nat \<Rightarrow> (child_end \<times> (byte list \<times> bool) list) option" where
  "shadow_loop ret crypt encpw pipe hist k =
     (case read_comm_request ret pipe k of
        None \<Rightarrow> None
      | Some (req, pipe1, k1) \<Rightarrow>
          (case req of
             Request_failed \<Rightarrow> Some (Child_exit 1, hist)
           | Request_abort \<Rightarrow> Some (Child_abort, hist)
           | No_request \<Rightarrow> Some (Child_exit 0, hist)
           | Request buf \<Rightarrow>
               (case crypt (c_string buf) encpw of
                  None \<Rightarrow> Some (Child_exit 1, hist)
                | Some c \<Rightarrow>
                    let success = (c = encpw) in
                    (case write_comm_reply ret success k1 of
                       None \<Rightarrow> None
                     | Some (st, sent, k2) \<Rightarrow>
                         if st = IO_assert then Some (Child_abort, hist)
                         else if st \<noteq> IO_ok then Some (Child_exit 1, hist)
                         else shadow_loop ret crypt encpw pipe1 (hist @ [(buf, success)]) k2))))"

subsection \<open>Dropping privileges (shadow.c)\<close>

text \<open>The user id that matters and the calls, in the order of the code: \<open>setgid\<close> and \<open>setuid\<close> to the real ids,
  then the test that root cannot be regained.  The encrypted password comes from \<open>passwd\<close>, or from
  \<open>shadow\<close> when that says \<open>x\<close>.\<close>

datatype backend_end = Backend_exit | Backend_continues

definition initialize_shadow ::
  "byte list option \<Rightarrow> byte list option \<Rightarrow> (nat \<Rightarrow> int) \<Rightarrow> backend_end \<times> byte list option" where
  "initialize_shadow passwd shadow ret =
     (case passwd of
        None \<Rightarrow> (Backend_exit, None)
      | Some pw \<Rightarrow>
          (case (if pw = [120] then shadow else Some pw) of
             None \<Rightarrow> (Backend_exit, None)
           | Some encpw \<Rightarrow>
               if ret 0 \<noteq> 0 then (Backend_exit, None)
               else if ret 1 \<noteq> 0 then (Backend_exit, None)
               else if ret 2 \<ge> 0 \<or> ret 3 \<ge> 0 then (Backend_exit, None)
               else (Backend_continues, Some encpw)))"

definition initialize_pam :: "int \<Rightarrow> int \<Rightarrow> int \<Rightarrow> int \<Rightarrow> bool \<Rightarrow> backend_end" where
  "initialize_pam uid euid gid egid spawned =
     (if uid \<noteq> euid \<or> gid \<noteq> egid then Backend_exit
      else if \<not> spawned then Backend_exit else Backend_continues)"

subsection \<open>Properties\<close>

lemma given_replicate [simp]: "given (replicate n None) = []"
  by (induction n) auto

lemma answer_messages_None:
  "given (fst (snd (answer_messages dup i ms None))) = [] \<and> snd (snd (answer_messages dup i ms None)) = None"
  by (induction ms arbitrary: i) (auto simp: split_beta)

lemma answer_messages_Some:
  "(given (fst (snd (answer_messages dup i ms (Some p)))) = [] \<and> snd (snd (answer_messages dup i ms (Some p))) = Some p) \<or>
   (given (fst (snd (answer_messages dup i ms (Some p)))) = [c_string p] \<and> snd (snd (answer_messages dup i ms (Some p))) = None)"
proof (induction ms arbitrary: i)
  case (Cons m ms)
  then show ?case using answer_messages_None [of dup "Suc i" ms] by (auto simp: split_beta)
qed simp

lemma converse_None: "snd (converse batches None) = []"
  using answer_messages_None
  by (induction batches) (auto simp: handle_conversation_def split_beta Let_def)

text \<open>C30. The conversation hands out the password at most once per attempt: over all batches of messages
  PAM may send during one \<open>pam_authenticate\<close>, the responses contain nothing or exactly the
  one submitted password, so PAM's internal retries never get it a second time.\<close>

theorem conversation_gives_once:
  "snd (converse batches (Some buf)) = [] \<or> snd (converse batches (Some buf)) = [c_string buf]"
proof (induction batches)
  case (Cons msgs batches)
  then show ?case
    using answer_messages_Some [of "\<lambda>_. True" 0 msgs buf] converse_None [of batches]
    by (auto simp: handle_conversation_def split_beta Let_def)
qed simp

text \<open>\<open>sound_answers auth h\<close>: every answer is the verdict on that attempt, and a positive answer is
  the last.\<close>

definition sound_answers :: "(nat \<Rightarrow> byte list \<Rightarrow> bool) \<Rightarrow> (byte list \<times> bool) list \<Rightarrow> bool" where
  "sound_answers ok h \<longleftrightarrow>
     (\<forall>i < length h. snd (h ! i) = ok i (fst (h ! i))) \<and> (\<forall>i < length h. snd (h ! i) \<longrightarrow> i = length h - 1)"

lemma sound_answers_snoc:
  assumes "sound_answers ok h" "\<forall>i < length h. \<not> snd (h ! i)" "b = ok (length h) buf"
  shows "sound_answers ok (h @ [(buf, b)])"
  using assms by (auto simp: sound_answers_def nth_append less_Suc_eq)


definition undecided :: "(nat \<Rightarrow> byte list \<Rightarrow> int) \<Rightarrow> (byte list \<times> bool) list \<Rightarrow> bool" where
  "undecided auth h \<longleftrightarrow>
     (\<forall>i < length h. \<not> snd (h ! i)) \<and> sound_answers (\<lambda>i b. auth i b = PAM_SUCCESS) h"

lemma undecided_step:
  assumes "undecided auth h"
  shows "sound_answers (\<lambda>i b. auth i b = PAM_SUCCESS) (h @ [(buf, auth (length h) buf = PAM_SUCCESS)])"
    and "auth (length h) buf \<noteq> PAM_SUCCESS \<Longrightarrow> undecided auth (h @ [(buf, auth (length h) buf = PAM_SUCCESS)])"
proof -
  show s: "sound_answers (\<lambda>i b. auth i b = PAM_SUCCESS) (h @ [(buf, auth (length h) buf = PAM_SUCCESS)])"
    using assms by (intro sound_answers_snoc) (auto simp: undecided_def)
  show "auth (length h) buf \<noteq> PAM_SUCCESS \<Longrightarrow> undecided auth (h @ [(buf, auth (length h) buf = PAM_SUCCESS)])"
    using assms s by (auto simp: undecided_def nth_append less_Suc_eq)
qed

lemma pam_loop_sound:
  assumes "pam_loop ret auth pipe hist k = Some y" and "undecided auth hist"
  shows "sound_answers (\<lambda>i b. auth i b = PAM_SUCCESS) (fst (snd y))"
proof -
  have "undecided auth hist \<longrightarrow> sound_answers (\<lambda>i b. auth i b = PAM_SUCCESS) (fst (snd y))"
    using assms(1)
  proof (rule pam_loop.raw_induct [rotated])
    fix loop ret auth pipe hist k r
    assume IH: "\<And>(ret :: nat \<Rightarrow> int) auth pipe hist k y. loop ret auth pipe hist k = Some y \<Longrightarrow>
        undecided auth hist \<longrightarrow> sound_answers (\<lambda>i b. auth i b = PAM_SUCCESS) (fst (snd y))"
      and step: "(case read_comm_request ret pipe k of None \<Rightarrow> None
        | Some (req, pipe1, k1) \<Rightarrow>
          (case req of
             No_request \<Rightarrow> Some (None, hist, k1)
           | Request_failed \<Rightarrow> Some (Some (Child_exit 1), hist, k1)
           | Request_abort \<Rightarrow> Some (Some Child_abort, hist, k1)
           | Request buf \<Rightarrow>
               let success = auth (length hist) buf = PAM_SUCCESS
               in case write_comm_reply ret success k1 of None \<Rightarrow> None
                  | Some (st, sent, k2) \<Rightarrow>
                      if st = IO_assert then Some (Some Child_abort, hist, k2)
                      else if st \<noteq> IO_ok then Some (Some (Child_exit 1), hist, k2)
                      else if success then Some (None, hist @ [(buf, success)], k2)
                      else loop ret auth pipe1 (hist @ [(buf, success)]) k2)) = Some r"
    show "undecided auth hist \<longrightarrow> sound_answers (\<lambda>i b. auth i b = PAM_SUCCESS) (fst (snd r))"
    proof
      assume u: "undecided auth hist"
      then have here: "sound_answers (\<lambda>i b. auth i b = PAM_SUCCESS) hist" by (simp add: undecided_def)
      obtain req pipe1 k1 where req: "read_comm_request ret pipe k = Some (req, pipe1, k1)"
        using step by (auto split: option.splits)
      show "sound_answers (\<lambda>i b. auth i b = PAM_SUCCESS) (fst (snd r))"
      proof (cases req)
        case (Request buf)
        let ?ok = "auth (length hist) buf = PAM_SUCCESS"
        obtain st sent k2 where reply: "write_comm_reply ret ?ok k1 = Some (st, sent, k2)"
          using step req Request by (auto simp: Let_def split: option.splits)
        show ?thesis
        proof (cases "st = IO_ok \<and> \<not> ?ok")
          case True
          then have "loop ret auth pipe1 (hist @ [(buf, ?ok)]) k2 = Some r"
            using step req Request reply by (simp add: Let_def)
          from IH [OF this] undecided_step(2) [OF u, of buf] True show ?thesis by blast
        next
          case False
          then have "fst (snd r) = hist \<or> fst (snd r) = hist @ [(buf, ?ok)]"
            using step req Request reply by (auto simp: Let_def split: if_splits)
          then show ?thesis using here undecided_step(1) [OF u, of buf] by auto
        qed
      qed (use step req here in auto)
    qed
  qed
  then show ?thesis using assms(2) by blast
qed


end
