(* ===== verification/EventLoop.thy ===== *)
theory EventLoop
  imports Prelude
begin

section \<open>The event loop (loop.c)\<close>

text \<open>
  \<open>struct loop\<close> with its file descriptors and timers, and every operation of loop.c.  The two
  callback types are parameters (\<open>'t\<close> for timers, \<open>'f\<close> for file descriptors), as the C code
  stores function pointers; \<open>loop_poll\<close> takes the functions that run a callback on the program
  state \<open>'s\<close>.  A timer pointer is the identifier the timer got when it was allocated.  The
  list \<open>fds\<close> has exactly the \<open>fd_length\<close> valid entries of the array.

  What the clock, \<open>poll\<close> and the kernel return are arguments.  A callback that calls
  \<open>exit\<close> makes \<open>stop\<close> true, after which nothing more of the iteration runs.
\<close>

record timespec =
  tv_sec :: int
  tv_nsec :: int

record pollfd =
  pfd_fd :: int
  pfd_events :: u16
  pfd_revents :: u16

record 'f loop_fd_event =
  fe_callback :: 'f
  fe_removed :: bool

record 't loop_timer =
  tm_id :: nat
  tm_callback :: 't
  tm_expiry :: timespec
  tm_removed :: bool

record ('t, 'f) event_loop =
  fds :: "pollfd list"
  fd_capacity :: nat
  fd_events :: "'f loop_fd_event list"
  timers :: "'t loop_timer list"
  next_timer :: nat

definition POLLIN :: u16 where "POLLIN = 1"
definition POLLERR :: u16 where "POLLERR = 8"
definition POLLHUP :: u16 where "POLLHUP = 16"
definition POLLNVAL :: u16 where "POLLNVAL = 32"

subsection \<open>Adding and removing\<close>

definition loop_create :: "('t, 'f) event_loop" where
  "loop_create = \<lparr>fds = [], fd_capacity = 10, fd_events = [], timers = [], next_timer = 0\<rparr>"

definition loop_add_fd :: "int \<Rightarrow> u16 \<Rightarrow> 'f \<Rightarrow> ('t, 'f) event_loop \<Rightarrow> ('t, 'f) event_loop" where
  "loop_add_fd fd mask_bits callback L =
     L\<lparr>fd_events := fd_events L @ [\<lparr>fe_callback = callback, fe_removed = False\<rparr>],
       fd_capacity := (if length (fds L) = fd_capacity L then fd_capacity L + 10 else fd_capacity L),
       fds := fds L @ [\<lparr>pfd_fd = fd, pfd_events = mask_bits, pfd_revents = 0\<rparr>]\<rparr>"

definition timer_expiry :: "timespec \<Rightarrow> int \<Rightarrow> timespec" where
  "timer_expiry now ms =
     (let sec = tv_sec now + ms sdiv 1000;
          nsec = (ms smod 1000) * 1000000
      in if tv_nsec now + nsec \<ge> 1000000000
         then \<lparr>tv_sec = sec + 1, tv_nsec = tv_nsec now + (nsec - 1000000000)\<rparr>
         else \<lparr>tv_sec = sec, tv_nsec = tv_nsec now + nsec\<rparr>)"

definition loop_add_timer ::
  "timespec \<Rightarrow> int \<Rightarrow> 't \<Rightarrow> ('t, 'f) event_loop \<Rightarrow> nat \<times> ('t, 'f) event_loop" where
  "loop_add_timer now ms callback L =
     (next_timer L,
      L\<lparr>timers := \<lparr>tm_id = next_timer L, tm_callback = callback,
                   tm_expiry = timer_expiry now ms, tm_removed = False\<rparr> # timers L,
        next_timer := Suc (next_timer L)\<rparr>)"

fun remove_fd_scan :: "int \<Rightarrow> pollfd list \<Rightarrow> 'f loop_fd_event list \<Rightarrow> bool \<times> 'f loop_fd_event list" where
  "remove_fd_scan fd (p # ps) (ev # evs) =
     (if pfd_fd p = fd then (True, ev\<lparr>fe_removed := True\<rparr> # evs)
      else let (found, evs') = remove_fd_scan fd ps evs in (found, ev # evs'))"
| "remove_fd_scan fd _ evs = (False, evs)"

definition loop_remove_fd :: "int \<Rightarrow> ('t, 'f) event_loop \<Rightarrow> bool \<times> ('t, 'f) event_loop" where
  "loop_remove_fd fd L =
     (let (found, evs) = remove_fd_scan fd (fds L) (fd_events L) in (found, L\<lparr>fd_events := evs\<rparr>))"

fun remove_timer_scan :: "nat \<Rightarrow> 't loop_timer list \<Rightarrow> bool \<times> 't loop_timer list" where
  "remove_timer_scan t [] = (False, [])"
| "remove_timer_scan t (tm # tms) =
     (if tm_id tm = t then (True, tm\<lparr>tm_removed := True\<rparr> # tms)
      else let (found, tms') = remove_timer_scan t tms in (found, tm # tms'))"

definition loop_remove_timer :: "nat \<Rightarrow> ('t, 'f) event_loop \<Rightarrow> bool \<times> ('t, 'f) event_loop" where
  "loop_remove_timer t L =
     (let (found, tms) = remove_timer_scan t (timers L) in (found, L\<lparr>timers := tms\<rparr>))"

subsection \<open>Polling\<close>

text \<open>The milliseconds until one timer, in the two steps of the code: the product is stored in an
  \<open>int\<close>, then the nanosecond part is added and stored again.\<close>

definition timer_ms :: "timespec \<Rightarrow> 't loop_timer \<Rightarrow> int" where
  "timer_ms now tm =
     (let ms = to_int32 ((tv_sec (tm_expiry tm) - tv_sec now) * 1000)
      in to_int32 (ms + (tv_nsec (tm_expiry tm) - tv_nsec now) sdiv 1000000))"

definition poll_timeout :: "timespec \<Rightarrow> ('t, 'f) event_loop \<Rightarrow> int" where
  "poll_timeout now L =
     (let ms = fold (\<lambda>tm ms. if timer_ms now tm < ms then timer_ms now tm else ms) (timers L) (2 ^ 31 - 1)
      in if ms < 0 then 0 else ms)"

text \<open>The outcome of \<open>poll\<close>: a count, an interruption by a signal, or another error.  In the
  first two cases the kernel leaves some \<open>revents\<close> in each entry.\<close>

datatype poll_result = Poll_ready | Poll_interrupted | Poll_failed

fun set_revents :: "u16 list \<Rightarrow> pollfd list \<Rightarrow> pollfd list" where
  "set_revents (r # rs) (p # ps) = p\<lparr>pfd_revents := r\<rparr> # set_revents rs ps"
| "set_revents _ ps = ps"

definition dispatch_fd ::
  "('f \<Rightarrow> int \<Rightarrow> u16 \<Rightarrow> 's \<Rightarrow> 's) \<Rightarrow> ('s \<Rightarrow> ('t, 'f) event_loop) \<Rightarrow> ('s \<Rightarrow> bool) \<Rightarrow> nat \<Rightarrow> 's \<Rightarrow> 's" where
  "dispatch_fd run_fd get stop i s =
     (if stop s then s
      else let pfd = fds (get s) ! i; event = fd_events (get s) ! i in
        if fe_removed event then s
        else if pfd_revents pfd AND (pfd_events pfd OR POLLHUP OR POLLERR) \<noteq> 0
        then run_fd (fe_callback event) (pfd_fd pfd) (pfd_revents pfd) s
        else s)"

definition dispatch_fds ::
  "('f \<Rightarrow> int \<Rightarrow> u16 \<Rightarrow> 's \<Rightarrow> 's) \<Rightarrow> ('s \<Rightarrow> ('t, 'f) event_loop) \<Rightarrow> ('s \<Rightarrow> bool) \<Rightarrow> 's \<Rightarrow> 's" where
  "dispatch_fds run_fd get stop s =
     fold (dispatch_fd run_fd get stop) [0..<length (fd_events (get s))] s"

fun sweep_fds_scan :: "pollfd list \<Rightarrow> 'f loop_fd_event list \<Rightarrow> pollfd list \<times> 'f loop_fd_event list" where
  "sweep_fds_scan (p # ps) (ev # evs) =
     (let (ps', evs') = sweep_fds_scan ps evs
      in if fe_removed ev then (ps', evs') else (p # ps', ev # evs'))"
| "sweep_fds_scan ps evs = (ps, evs)"

definition sweep_fds :: "('t, 'f) event_loop \<Rightarrow> ('t, 'f) event_loop" where
  "sweep_fds L =
     (let (ps, evs) = sweep_fds_scan (fds L) (fd_events L) in L\<lparr>fds := ps, fd_events := evs\<rparr>)"

definition timer_expired :: "timespec \<Rightarrow> 't loop_timer \<Rightarrow> bool" where
  "timer_expired now tm \<longleftrightarrow>
     tv_sec (tm_expiry tm) < tv_sec now \<or>
     (tv_sec (tm_expiry tm) = tv_sec now \<and> tv_nsec (tm_expiry tm) < tv_nsec now)"

definition find_timer :: "nat \<Rightarrow> ('t, 'f) event_loop \<Rightarrow> 't loop_timer option" where
  "find_timer t L = find (\<lambda>tm. tm_id tm = t) (timers L)"

definition free_timer :: "nat \<Rightarrow> ('t, 'f) event_loop \<Rightarrow> ('t, 'f) event_loop" where
  "free_timer t L = L\<lparr>timers := filter (\<lambda>tm. tm_id tm \<noteq> t) (timers L)\<rparr>"

text \<open>One round of the timer loop.  The traversal holds the next element before it runs a
  callback; callbacks insert at the head and only mark timers removed, so the elements visited
  are those present when the loop starts.\<close>

definition dispatch_timer ::
  "('t \<Rightarrow> 's \<Rightarrow> 's) \<Rightarrow> ('s \<Rightarrow> ('t, 'f) event_loop) \<Rightarrow> ((('t, 'f) event_loop \<Rightarrow> ('t, 'f) event_loop) \<Rightarrow> 's \<Rightarrow> 's) \<Rightarrow>
   ('s \<Rightarrow> bool) \<Rightarrow> timespec \<Rightarrow> nat \<Rightarrow> 's \<Rightarrow> 's" where
  "dispatch_timer run_timer get upd stop now t s =
     (if stop s then s
      else case find_timer t (get s) of
        None \<Rightarrow> s
      | Some tm \<Rightarrow>
          if tm_removed tm then upd (free_timer t) s
          else if timer_expired now tm then
            (let s' = run_timer (tm_callback tm) s in if stop s' then s' else upd (free_timer t) s')
          else s)"

definition dispatch_timers ::
  "('t \<Rightarrow> 's \<Rightarrow> 's) \<Rightarrow> ('s \<Rightarrow> ('t, 'f) event_loop) \<Rightarrow> ((('t, 'f) event_loop \<Rightarrow> ('t, 'f) event_loop) \<Rightarrow> 's \<Rightarrow> 's) \<Rightarrow>
   ('s \<Rightarrow> bool) \<Rightarrow> timespec \<Rightarrow> 's \<Rightarrow> 's" where
  "dispatch_timers run_timer get upd stop now s =
     fold (dispatch_timer run_timer get upd stop now) (map tm_id (timers (get s))) s"

definition loop_poll ::
  "('f \<Rightarrow> int \<Rightarrow> u16 \<Rightarrow> 's \<Rightarrow> 's) \<Rightarrow> ('t \<Rightarrow> 's \<Rightarrow> 's) \<Rightarrow> ('s \<Rightarrow> ('t, 'f) event_loop) \<Rightarrow>
   ((('t, 'f) event_loop \<Rightarrow> ('t, 'f) event_loop) \<Rightarrow> 's \<Rightarrow> 's) \<Rightarrow> ('s \<Rightarrow> bool) \<Rightarrow> ('s \<Rightarrow> 's) \<Rightarrow>
   (timespec \<Rightarrow> 's \<Rightarrow> 's) \<Rightarrow> poll_result \<Rightarrow> u16 list \<Rightarrow> timespec \<Rightarrow> timespec \<Rightarrow> 's \<Rightarrow> 's" where
  "loop_poll run_fd run_timer get upd stop fail set_clock res revs fd_time timer_time s =
     (if res = Poll_failed then fail s
      else
        let s1 = upd (\<lambda>L. L\<lparr>fds := set_revents revs (fds L)\<rparr>) (set_clock fd_time s);
            s2 = dispatch_fds run_fd get stop s1
        in if stop s2 then s2
           else let s3 = set_clock timer_time (upd sweep_fds s2)
                in dispatch_timers run_timer get upd stop timer_time s3)"

subsection \<open>Time\<close>

definition ns :: "timespec \<Rightarrow> int" where
  "ns t = tv_sec t * 1000000000 + tv_nsec t"

definition normal_time :: "timespec \<Rightarrow> bool" where
  "normal_time t \<longleftrightarrow> 0 \<le> tv_nsec t \<and> tv_nsec t < 1000000000"

lemma sdiv_pos: "0 \<le> (x::int) \<Longrightarrow> 0 < y \<Longrightarrow> x sdiv y = x div y"
  by (simp add: signed_divide_int_def sgn_if)

lemma smod_pos: "0 \<le> (x::int) \<Longrightarrow> 0 < y \<Longrightarrow> x smod y = x mod y"
  by (simp add: signed_modulo_int_def sgn_if)

lemma sdiv_neg: "(x::int) < 0 \<Longrightarrow> 0 < y \<Longrightarrow> x sdiv y = - (- x div y)"
  by (simp add: signed_divide_int_def sgn_if)

lemma split_ms: "(ms::int) div 1000 * 1000000000 + ms mod 1000 * 1000000 = ms * 1000000"
proof -
  have "ms = ms div 1000 * 1000 + ms mod 1000" by simp
  then show ?thesis by linarith
qed

lemma to_int32_small:
  fixes x r :: int
  assumes "\<bar>x * 1000000 - r\<bar> < 1000000" "0 \<le> r" "r \<le> 2000000000 * 1000000"
  shows "to_int32 x = x"
proof (rule to_int32_id)
  show "- (2 ^ 31) \<le> x" "x < 2 ^ 31" using assms by simp_all
qed

lemma timer_expiry_parts:
  assumes "0 \<le> ms" and "normal_time now"
  shows "ns (timer_expiry now ms) = ns now + ms * 1000000" and "normal_time (timer_expiry now ms)"
proof -
  have bound: "0 \<le> ms mod 1000" "ms mod 1000 < 1000" by simp_all
  show "ns (timer_expiry now ms) = ns now + ms * 1000000"
    using assms(1) split_ms [of ms] by (auto simp: timer_expiry_def ns_def sdiv_pos smod_pos Let_def)
  show "normal_time (timer_expiry now ms)"
    using assms bound by (auto simp: timer_expiry_def normal_time_def sdiv_pos smod_pos Let_def)
qed

lemma timer_expired_iff:
  assumes "normal_time now" and "normal_time (tm_expiry tm)"
  shows "timer_expired now tm \<longleftrightarrow> ns (tm_expiry tm) < ns now"
  using assms by (auto simp: timer_expired_def ns_def normal_time_def)

lemma sdiv_close: "\<bar>((x::int) sdiv 1000000) * 1000000 - x\<bar> < 1000000"
proof (cases "0 \<le> x")
  case True
  have "x = 1000000 * (x div 1000000) + x mod 1000000" "0 \<le> x mod 1000000" "x mod 1000000 < 1000000"
    by simp_all
  then show ?thesis using True by (simp add: sdiv_pos)
next
  case False
  have "- x = 1000000 * (- x div 1000000) + - x mod 1000000" "0 \<le> - x mod 1000000" "- x mod 1000000 < 1000000"
    by simp_all
  then show ?thesis using False by (simp add: sdiv_neg)
qed

lemma timer_ms_eq:
  "timer_ms now tm =
    to_int32 ((tv_sec (tm_expiry tm) - tv_sec now) * 1000 + (tv_nsec (tm_expiry tm) - tv_nsec now) sdiv 1000000)"
  by (simp add: timer_ms_def to_int32_add_left)

lemma fold_min_le_start:
  fixes a :: int
  shows "fold (\<lambda>x m. if g x < m then g x else m) xs a \<le> a"
proof (induction xs arbitrary: a)
  case (Cons y ys)
  show ?case using Cons.IH [of "g y"] Cons.IH [of a] by auto
qed simp

lemma fold_min_le:
  fixes a :: int
  shows "x \<in> set xs \<Longrightarrow> fold (\<lambda>x m. if g x < m then g x else m) xs a \<le> g x"
proof (induction xs arbitrary: a)
  case (Cons y ys)
  show ?case
  proof (cases "x = y")
    case True
    then show ?thesis
      using fold_min_le_start [of g ys "g x"] fold_min_le_start [of g ys a] by auto
  next
    case False
    then show ?thesis using Cons by simp
  qed
qed simp

lemma poll_timeout_le: "tm \<in> set (timers L) \<Longrightarrow> poll_timeout now L \<le> max 0 (timer_ms now tm)"
proof -
  assume "tm \<in> set (timers L)"
  then have "fold (\<lambda>tm ms. if timer_ms now tm < ms then timer_ms now tm else ms) (timers L) (2 ^ 31 - 1) \<le> timer_ms now tm"
    by (rule fold_min_le)
  then show ?thesis by (simp add: poll_timeout_def Let_def)
qed

lemma timeout_arith:
  fixes p x r :: int
  assumes "p \<le> max 0 x" "\<bar>x * 1000000 - r\<bar> < 1000000" "0 \<le> r"
  shows "p * 1000000 < r + 1000000"
  using assms by (cases "0 \<le> x") auto

lemma poll_timeout_nonneg: "0 \<le> poll_timeout now L"
  by (simp add: poll_timeout_def Let_def)

text \<open>C16. Deadlines: arming a timer records the exact deadline, the given number of
  milliseconds after the clock reading, as a normalised time; a timer is taken for expired exactly
  when its deadline lies before the clock.\<close>

theorem timer_deadline:
  assumes "0 \<le> ms" and "normal_time now" and "normal_time later"
  shows "(let (t, L') = loop_add_timer now ms cb L; tm = hd (timers L')
          in tm_id tm = t \<and> normal_time (tm_expiry tm) \<and> ns (tm_expiry tm) = ns now + ms * 1000000 \<and>
             (timer_expired later tm \<longleftrightarrow> ns now + ms * 1000000 < ns later))"
  using timer_expiry_parts [OF assms(1,2)] assms(3)
  by (simp add: loop_add_timer_def timer_expired_iff)

lemma timer_deadline_witness:
  "ns (tm_expiry (hd (timers (snd (loop_add_timer \<lparr>tv_sec = 5, tv_nsec = 999000000\<rparr> 1500 ()
    (loop_create :: (unit, unit) event_loop)))))) = 7499000000"
  using timer_deadline [of 1500 "\<lparr>tv_sec = 5, tv_nsec = 999000000\<rparr>" "\<lparr>tv_sec = 8, tv_nsec = 0\<rparr>" "()"
      "loop_create :: (unit, unit) event_loop"]
  by (simp add: normal_time_def ns_def Let_def split_beta)

text \<open>C35. The poll timeout never oversleeps: whatever timers are armed, the timeout handed to
  \<open>poll\<close> is non-negative and exceeds the remaining time of a timer (that fits in an \<open>int\<close>) by less than a
  millisecond, in spite of the two truncating computations.\<close>

theorem poll_timeout_bound:
  assumes "tm \<in> set (timers L)" and "ns now \<le> ns (tm_expiry tm)"
    and "ns (tm_expiry tm) - ns now \<le> 2000000000 * 1000000"
  shows "0 \<le> poll_timeout now L \<and>
    poll_timeout now L * 1000000 < ns (tm_expiry tm) - ns now + 1000000"
proof -
  let ?x = "(tv_sec (tm_expiry tm) - tv_sec now) * 1000 + (tv_nsec (tm_expiry tm) - tv_nsec now) sdiv 1000000"
  have close: "\<bar>?x * 1000000 - (ns (tm_expiry tm) - ns now)\<bar> < 1000000"
    using sdiv_close [of "tv_nsec (tm_expiry tm) - tv_nsec now"] by (simp add: ns_def algebra_simps)
  have "to_int32 ?x = ?x"
    using close assms(2,3) by (intro to_int32_small [OF close]) simp_all
  then have "poll_timeout now L \<le> max 0 ?x"
    using poll_timeout_le [OF assms(1), of now] by (simp add: timer_ms_eq)
  from timeout_arith [OF this close] show ?thesis using assms(2) poll_timeout_nonneg [of now L] by simp
qed


lemma poll_timeout_bound_witness:
  "poll_timeout \<lparr>tv_sec = 5, tv_nsec = 1\<rparr> \<lparr>fds = [] :: pollfd list, fd_capacity = 10, fd_events = [] :: unit loop_fd_event list,
     timers = [\<lparr>tm_id = 0, tm_callback = (), tm_expiry = \<lparr>tv_sec = 6, tv_nsec = 0\<rparr>, tm_removed = False\<rparr>],
     next_timer = 1\<rparr> * 1000000 < 1000999999"
  using poll_timeout_bound [of "\<lparr>tm_id = 0, tm_callback = (), tm_expiry = \<lparr>tv_sec = 6, tv_nsec = 0\<rparr>, tm_removed = False\<rparr>"
      "\<lparr>fds = [] :: pollfd list, fd_capacity = 10, fd_events = [] :: unit loop_fd_event list,
     timers = [\<lparr>tm_id = 0, tm_callback = (), tm_expiry = \<lparr>tv_sec = 6, tv_nsec = 0\<rparr>, tm_removed = False\<rparr>],
     next_timer = 1\<rparr>" "\<lparr>tv_sec = 5, tv_nsec = 1\<rparr>"]
  by (simp add: ns_def)

subsection \<open>Invariant and timers\<close>

definition loop_ok :: "('t, 'f) event_loop \<Rightarrow> bool" where
  "loop_ok L \<longleftrightarrow>
     length (fds L) = length (fd_events L) \<and> length (fds L) \<le> fd_capacity L \<and>
     distinct (map tm_id (timers L)) \<and> (\<forall>tm \<in> set (timers L). tm_id tm < next_timer L)"

text \<open>The callback of a timer that can still fire.\<close>

definition armed :: "('t, 'f) event_loop \<Rightarrow> nat \<Rightarrow> 't option" where
  "armed L t =
     (case find_timer t L of
        None \<Rightarrow> None
      | Some tm \<Rightarrow> if tm_removed tm then None else Some (tm_callback tm))"

lemma loop_create_ok [simp]: "loop_ok loop_create" "armed loop_create t = None"
  by (simp_all add: loop_ok_def loop_create_def armed_def find_timer_def)

lemma find_timer_None: "find_timer t L = None \<longleftrightarrow> t \<notin> tm_id ` set (timers L)"
  by (auto simp: find_timer_def find_None_iff)

lemma find_timer_SomeD: "find_timer t L = Some tm \<Longrightarrow> tm \<in> set (timers L) \<and> tm_id tm = t"
  unfolding find_timer_def by (metis (mono_tags, lifting) find_Some_iff nth_mem)

lemma find_timer_Some_iff:
  assumes "loop_ok L"
  shows "find_timer t L = Some tm \<longleftrightarrow> tm \<in> set (timers L) \<and> tm_id tm = t"
proof
  assume mem: "tm \<in> set (timers L) \<and> tm_id tm = t"
  then obtain tm' where found: "find_timer t L = Some tm'"
    using find_timer_None [of t L] by (cases "find_timer t L") auto
  have "inj_on tm_id (set (timers L))" using assms by (simp add: loop_ok_def distinct_map)
  with find_timer_SomeD [OF found] mem show "find_timer t L = Some tm"
    using found by (auto dest: inj_onD)
qed (rule find_timer_SomeD)

lemma armed_lt_next: "loop_ok L \<Longrightarrow> armed L t = Some cb \<Longrightarrow> t < next_timer L"
  by (auto simp: armed_def loop_ok_def split: option.splits dest: find_timer_SomeD)

lemma map_tm_id_remove [simp]: "map tm_id (snd (remove_timer_scan t tms)) = map tm_id tms"
  by (induction tms) (auto simp: split_beta)

lemma find_remove_timer_scan:
  "find (\<lambda>tm. tm_id tm = k) (snd (remove_timer_scan t tms)) =
    map_option (\<lambda>tm. if k = t then tm\<lparr>tm_removed := True\<rparr> else tm) (find (\<lambda>tm. tm_id tm = k) tms)"
  by (induction tms) (auto simp: split_beta option.map_ident)

lemma find_remove_timer:
  "find_timer k (snd (loop_remove_timer t L)) =
    map_option (\<lambda>tm. if k = t then tm\<lparr>tm_removed := True\<rparr> else tm) (find_timer k L)"
  by (simp add: find_timer_def loop_remove_timer_def find_remove_timer_scan split_beta)

lemma remove_timer_set:
  "tm \<in> set (snd (remove_timer_scan t tms)) \<Longrightarrow> tm_id tm \<in> tm_id ` set tms"
  by (metis image_eqI list.set_map map_tm_id_remove)

lemma fst_remove_timer_scan: "fst (remove_timer_scan t tms) \<longleftrightarrow> t \<in> tm_id ` set tms"
  by (induction tms) (auto simp: split_beta)

lemma remove_fd_scan_length [simp]: "length (snd (remove_fd_scan fd ps evs)) = length evs"
  by (induction fd ps evs rule: remove_fd_scan.induct) (auto simp: split_beta)

lemma loop_ok_add_fd [preserves]: "loop_ok L \<Longrightarrow> loop_ok (loop_add_fd fd m cb L)"
  by (auto simp: loop_ok_def loop_add_fd_def)

lemma loop_ok_add_timer [preserves]: "loop_ok L \<Longrightarrow> loop_ok (snd (loop_add_timer now ms cb L))"
  by (auto simp: loop_ok_def loop_add_timer_def less_Suc_eq)

lemma loop_ok_remove_fd [preserves]: "loop_ok L \<Longrightarrow> loop_ok (snd (loop_remove_fd fd L))"
  by (auto simp: loop_ok_def loop_remove_fd_def split_beta)

lemma loop_ok_remove_timer [preserves]: "loop_ok L \<Longrightarrow> loop_ok (snd (loop_remove_timer t L))"
  by (auto simp: loop_ok_def loop_remove_timer_def split_beta dest!: remove_timer_set)

lemma loop_ok_free_timer [preserves]: "loop_ok L \<Longrightarrow> loop_ok (free_timer t L)"
  by (auto simp: loop_ok_def free_timer_def distinct_map intro: inj_on_subset)

lemma armed_add_timer:
  "loop_ok L \<Longrightarrow>
   armed (snd (loop_add_timer now ms cb L)) k = (if k = fst (loop_add_timer now ms cb L) then Some cb else armed L k)"
  by (auto simp: armed_def loop_add_timer_def find_timer_def)

lemma armed_remove_timer:
  "armed (snd (loop_remove_timer t L)) k = (if k = t then None else armed L k)"
  by (auto simp: armed_def find_remove_timer split: option.splits)

lemma find_filter_other:
  "find (\<lambda>tm. tm_id tm = k) (filter (\<lambda>tm. tm_id tm \<noteq> t) tms) =
    (if k = t then None else find (\<lambda>tm. tm_id tm = k) tms)"
  by (induction tms) auto

lemma find_free_timer: "find_timer k (free_timer t L) = (if k = t then None else find_timer k L)"
  by (simp add: find_timer_def free_timer_def find_filter_other)

lemma armed_free_timer: "armed (free_timer t L) k = (if k = t then None else armed L k)"
  by (simp add: armed_def find_free_timer)

lemma armed_frame [simp]:
  "armed (loop_add_fd fd m cb L) k = armed L k"
  "armed (snd (loop_remove_fd fd L)) k = armed L k"
  by (simp_all add: armed_def find_timer_def loop_add_fd_def loop_remove_fd_def split_beta)

subsection \<open>The interface of a timer service\<close>

text \<open>
  What the owner of a timer field relies on.  The program keeps each timer in a field of a
  structure (\<open>clear_password_timer\<close>, \<open>client_connect_timer\<close>, \<dots>) that is \<open>NULL\<close> while no
  such timer is armed.  \<open>tracks\<close> says that the field names the only armed timer with its
  callback, \<open>tracks_but\<close> that it does so apart from the timer whose callback is running.
\<close>

locale timer_service =
  fixes alive :: "'l \<Rightarrow> nat \<Rightarrow> 't option"
    and add :: "timespec \<Rightarrow> int \<Rightarrow> 't \<Rightarrow> 'l \<Rightarrow> nat \<times> 'l"
    and rem :: "nat \<Rightarrow> 'l \<Rightarrow> bool \<times> 'l"
    and ok :: "'l \<Rightarrow> bool"
    and fresh :: "'l \<Rightarrow> nat \<Rightarrow> bool"
  assumes add_alive: "ok L \<Longrightarrow> alive (snd (add now ms cb L)) k = (if k = fst (add now ms cb L) then Some cb else alive L k)"
    and rem_alive: "ok L \<Longrightarrow> alive (snd (rem t L)) k = (if k = t then None else alive L k)"
    and add_ok: "ok L \<Longrightarrow> ok (snd (add now ms cb L))"
    and rem_ok: "ok L \<Longrightarrow> ok (snd (rem t L))"
    and add_fresh: "ok L \<Longrightarrow> fresh L (fst (add now ms cb L))"
    and fresh_alive: "ok L \<Longrightarrow> fresh L k \<Longrightarrow> alive L k = None"
begin

definition tracks_but :: "nat set \<Rightarrow> 'l \<Rightarrow> 't \<Rightarrow> nat option \<Rightarrow> bool" where
  "tracks_but X L cb f \<longleftrightarrow> (\<forall>t. t \<notin> X \<longrightarrow> (alive L t = Some cb \<longleftrightarrow> f = Some t))"

text \<open>The three shapes of code on a timer field: arm an empty field, cancel, cancel and arm again.\<close>

definition disarm :: "nat option \<Rightarrow> 'l \<Rightarrow> 'l" where
  "disarm f L = (case f of None \<Rightarrow> L | Some t \<Rightarrow> snd (rem t L))"

lemma disarm_ok: "ok L \<Longrightarrow> ok (disarm f L)"
  by (auto simp: disarm_def rem_ok split: option.split)

lemma disarm_tracks: "ok L \<Longrightarrow> tracks_but X L cb f \<Longrightarrow> tracks_but X (disarm f L) cb None"
  by (auto simp: disarm_def tracks_but_def rem_alive split: option.split)

lemma disarm_other:
  "ok L \<Longrightarrow> tracks_but X L cb' g \<Longrightarrow> (\<And>t. f = Some t \<Longrightarrow> g \<noteq> Some t \<and> t \<notin> X) \<Longrightarrow> tracks_but X (disarm f L) cb' g"
  by (auto simp: disarm_def tracks_but_def rem_alive split: option.split)

lemma add_tracks:
  "ok L \<Longrightarrow> tracks_but X L cb None \<Longrightarrow> tracks_but X (snd (add now ms cb L)) cb (Some (fst (add now ms cb L)))"
  by (auto simp: tracks_but_def add_alive)

lemma add_other:
  "ok L \<Longrightarrow> tracks_but X L cb' g \<Longrightarrow> cb \<noteq> cb' \<Longrightarrow> tracks_but X (snd (add now ms cb L)) cb' g"
  using add_fresh [of L now ms cb] fresh_alive [of L "fst (add now ms cb L)"]
  by (auto simp: tracks_but_def add_alive)

lemma rearm_tracks:
  assumes "ok L" "tracks_but X L cb f"
  shows "tracks_but X (snd (add now ms cb (disarm f L))) cb (Some (fst (add now ms cb (disarm f L))))"
  using assms by (intro add_tracks disarm_ok disarm_tracks)

end

interpretation tmr: timer_service armed loop_add_timer loop_remove_timer loop_ok "\<lambda>L t. t = next_timer L"
proof
  fix L :: "('a, 'b) event_loop" and now ms cb t k
  assume ok: "loop_ok L"
  show "armed (snd (loop_add_timer now ms cb L)) k = (if k = fst (loop_add_timer now ms cb L) then Some cb else armed L k)"
    by (rule armed_add_timer [OF ok])
  show "armed (snd (loop_remove_timer t L)) k = (if k = t then None else armed L k)"
    by (rule armed_remove_timer)
  show "loop_ok (snd (loop_add_timer now ms cb L))" "loop_ok (snd (loop_remove_timer t L))"
    using ok by (rule preserves)+
  show "fst (loop_add_timer now ms cb L) = next_timer L" by (simp add: loop_add_timer_def)
  show "k = next_timer L \<Longrightarrow> armed L k = None"
    using armed_lt_next [OF ok] by (cases "armed L k") auto
qed


subsection \<open>What a callback may do to the loop\<close>

text \<open>A callback changes the loop through the four public operations only, in any number and
  order; it is given by the operations it performs.\<close>

datatype ('t, 'f) loop_call =
    Add_fd int u16 'f
  | Remove_fd int
  | Add_timer timespec int 't
  | Remove_timer nat

fun do_call :: "('t, 'f) loop_call \<Rightarrow> ('t, 'f) event_loop \<Rightarrow> ('t, 'f) event_loop" where
  "do_call (Add_fd fd m cb) L = loop_add_fd fd m cb L"
| "do_call (Remove_fd fd) L = snd (loop_remove_fd fd L)"
| "do_call (Add_timer now ms cb) L = snd (loop_add_timer now ms cb L)"
| "do_call (Remove_timer t) L = snd (loop_remove_timer t L)"

lemma loop_call_ok [preserves]: "loop_ok L \<Longrightarrow> loop_ok (do_call c L)"
  by (cases c) (auto intro: preserves)

lemma loop_calls_ok [preserves]: "loop_ok L \<Longrightarrow> loop_ok (fold do_call cs L)"
  by (induction cs arbitrary: L) (auto intro: preserves)

text \<open>\<open>evolved tm tm'\<close>: the same timer later on, possibly marked removed.\<close>

definition evolved :: "'t loop_timer \<Rightarrow> 't loop_timer \<Rightarrow> bool" where
  "evolved tm tm' \<longleftrightarrow> tm' = tm \<or> tm' = tm\<lparr>tm_removed := True\<rparr>"

lemma evolved_refl [simp]: "evolved tm tm"
  by (simp add: evolved_def)

lemma evolved_trans: "evolved a b \<Longrightarrow> evolved b c \<Longrightarrow> evolved a c"
  by (auto simp: evolved_def)

lemma evolvedD: "evolved tm tm' \<Longrightarrow>
    tm_id tm' = tm_id tm \<and> tm_expiry tm' = tm_expiry tm \<and> tm_callback tm' = tm_callback tm \<and>
    (tm_removed tm \<longrightarrow> tm_removed tm')"
  by (auto simp: evolved_def)

lemma loop_call_find:
  assumes "loop_ok L" "k < next_timer L"
  shows "k < next_timer (do_call c L)"
    and "find_timer k L = None \<Longrightarrow> find_timer k (do_call c L) = None"
    and "find_timer k L = Some tm \<Longrightarrow> \<exists>tm'. find_timer k (do_call c L) = Some tm' \<and> evolved tm tm'"
proof -
  show "k < next_timer (do_call c L)"
    using assms by (cases c) (auto simp: loop_add_fd_def loop_remove_fd_def loop_add_timer_def loop_remove_timer_def split_beta)
  have same: "find_timer k (loop_add_fd fd m cb L) = find_timer k L"
       "find_timer k (snd (loop_remove_fd fd L)) = find_timer k L" for fd m cb
    by (auto simp: find_timer_def loop_add_fd_def loop_remove_fd_def split_beta)
  have added: "find_timer k (snd (loop_add_timer now ms cb L)) = find_timer k L" for now ms cb
    using assms(2) by (simp add: find_timer_def loop_add_timer_def)
  show "find_timer k L = None \<Longrightarrow> find_timer k (do_call c L) = None"
    by (cases c) (simp_all add: same added find_remove_timer)
  show "find_timer k L = Some tm \<Longrightarrow> \<exists>tm'. find_timer k (do_call c L) = Some tm' \<and> evolved tm tm'"
    by (cases c) (auto simp: same added find_remove_timer evolved_def)
qed

lemma loop_calls_find:
  assumes "loop_ok L" "k < next_timer L"
  shows "k < next_timer (fold do_call cs L) \<and>
    (find_timer k L = None \<longrightarrow> find_timer k (fold do_call cs L) = None) \<and>
    (\<forall>tm. find_timer k L = Some tm \<longrightarrow> (\<exists>tm'. find_timer k (fold do_call cs L) = Some tm' \<and> evolved tm tm'))"
  using assms
proof (induction cs arbitrary: L)
  case (Cons c cs)
  note step = loop_call_find [OF Cons.prems, where c = c]
  have IH: "k < next_timer (fold do_call cs (do_call c L)) \<and>
      (find_timer k (do_call c L) = None \<longrightarrow> find_timer k (fold do_call cs (do_call c L)) = None) \<and>
      (\<forall>tm. find_timer k (do_call c L) = Some tm \<longrightarrow>
         (\<exists>tm'. find_timer k (fold do_call cs (do_call c L)) = Some tm' \<and> evolved tm tm'))"
    using Cons.prems step(1) by (intro Cons.IH) (auto intro: preserves)
  then show ?case using step(2,3) by (auto dest!: step(3)) (blast intro: evolved_trans)
qed simp

text \<open>The contract of the program that runs on the loop: the accessors behave like those of a
  field, and the effect of every callback on the loop is a sequence of loop operations.\<close>

locale loop_host =
  fixes get :: "'s \<Rightarrow> ('t, 'f) event_loop"
    and upd :: "(('t, 'f) event_loop \<Rightarrow> ('t, 'f) event_loop) \<Rightarrow> 's \<Rightarrow> 's"
    and stop :: "'s \<Rightarrow> bool"
    and run_timer :: "'t \<Rightarrow> 's \<Rightarrow> 's"
  assumes get_upd: "get (upd f s) = f (get s)"
    and stop_upd: "stop (upd f s) = stop s"
    and run_calls: "\<exists>cs. get (run_timer cb s) = fold do_call cs (get s)"
    and run_stop: "stop s \<Longrightarrow> stop (run_timer cb s)"
begin

abbreviation "dispatch now \<equiv> dispatch_timer run_timer get upd stop now"

lemma dispatch_ok: "loop_ok (get s) \<Longrightarrow> loop_ok (get (dispatch now t s))"
  using run_calls
  by (auto simp: dispatch_timer_def get_upd Let_def loop_ok_free_timer split: option.split)
     (metis loop_calls_ok loop_ok_free_timer)+

lemma dispatch_stop: "stop s \<Longrightarrow> dispatch now t s = s"
  by (simp add: dispatch_timer_def)

lemma fold_dispatch_stop: "stop s \<Longrightarrow> fold (dispatch now) ts s = s"
  by (induction ts) (simp_all add: dispatch_stop)

text \<open>One round leaves every other known timer as it was, up to being marked removed.\<close>

lemma dispatch_find:
  assumes "loop_ok (get s)" "k < next_timer (get s)"
  shows "k < next_timer (get (dispatch now t s))"
    and "find_timer k (get s) = None \<Longrightarrow> find_timer k (get (dispatch now t s)) = None"
    and "find_timer k (get s) = Some tm \<Longrightarrow> k \<noteq> t \<Longrightarrow>
      \<exists>tm'. find_timer k (get (dispatch now t s)) = Some tm' \<and> evolved tm tm'"
proof -
  have free: "next_timer (free_timer t L) = next_timer L" for L :: "('t, 'f) event_loop"
    by (simp add: free_timer_def)
  have calls: "k < next_timer (get (run_timer cb s)) \<and>
      (find_timer k (get s) = None \<longrightarrow> find_timer k (get (run_timer cb s)) = None) \<and>
      (\<forall>tm. find_timer k (get s) = Some tm \<longrightarrow> (\<exists>tm'. find_timer k (get (run_timer cb s)) = Some tm' \<and> evolved tm tm'))" for cb
    using run_calls [of cb s] loop_calls_find [OF assms] by metis
  show "k < next_timer (get (dispatch now t s))"
    using assms(2) calls by (auto simp: dispatch_timer_def get_upd Let_def free split: option.split)
  show "find_timer k (get s) = None \<Longrightarrow> find_timer k (get (dispatch now t s)) = None"
    using calls by (auto simp: dispatch_timer_def get_upd Let_def find_free_timer split: option.split)
  show "find_timer k (get s) = Some tm \<Longrightarrow> k \<noteq> t \<Longrightarrow>
      \<exists>tm'. find_timer k (get (dispatch now t s)) = Some tm' \<and> evolved tm tm'"
    using calls by (auto simp: dispatch_timer_def get_upd Let_def find_free_timer split: option.split)
qed

lemma dispatch_gone:
  assumes "find_timer t (get s) = Some tm" "tm_removed tm \<or> timer_expired now tm" "\<not> stop (dispatch now t s)"
  shows "find_timer t (get (dispatch now t s)) = None"
  using assms by (auto simp: dispatch_timer_def get_upd Let_def find_free_timer split: if_splits)

lemma dispatch_kept:
  assumes "find_timer t (get s) = Some tm" "\<not> tm_removed tm" "\<not> timer_expired now tm"
  shows "dispatch now t s = s"
  using assms by (simp add: dispatch_timer_def)

lemma fold_dispatch_find:
  assumes "loop_ok (get s)" "k < next_timer (get s)" "k \<notin> set ts"
  shows "(find_timer k (get s) = None \<longrightarrow> find_timer k (get (fold (dispatch now) ts s)) = None) \<and>
    (\<forall>tm. find_timer k (get s) = Some tm \<longrightarrow>
      (\<exists>tm'. find_timer k (get (fold (dispatch now) ts s)) = Some tm' \<and> evolved tm tm'))"
  using assms
proof (induction ts arbitrary: s)
  case (Cons t ts)
  note step = dispatch_find [OF Cons.prems(1,2), where now = now and t = t]
  have "loop_ok (get (dispatch now t s))" by (rule dispatch_ok [OF Cons.prems(1)])
  from Cons.IH [OF this step(1)] show ?case
    using step(2,3) Cons.prems(3) by (auto dest!: step(3)) (blast intro: evolved_trans)+
qed simp

lemma pass_decides:
  assumes ok: "loop_ok (get s)" and tm: "find_timer k (get s) = Some tm" and "k \<in> set ts" "distinct ts"
    and run: "\<not> stop (fold (dispatch now) ts s)"
  shows "if tm_removed tm \<or> timer_expired now tm then find_timer k (get (fold (dispatch now) ts s)) = None
    else (case find_timer k (get (fold (dispatch now) ts s)) of None \<Rightarrow> True | Some tm' \<Rightarrow> evolved tm tm')"
  using assms
proof (induction ts arbitrary: s tm)
  case (Cons t ts)
  let ?s = "dispatch now t s"
  have lt: "k < next_timer (get s)"
    using Cons.prems(1,2) by (auto simp: loop_ok_def dest: find_timer_SomeD)
  note step = dispatch_find [OF Cons.prems(1) lt, where now = now and t = t]
  have ok: "loop_ok (get ?s)" by (rule dispatch_ok [OF Cons.prems(1)])
  have live: "\<not> stop ?s" using Cons.prems(5) fold_dispatch_stop [of ?s now ts] by auto
  show ?case
  proof (cases "k = t")
    case True
    have "k \<notin> set ts" using Cons.prems(4) True by simp
    note rest = fold_dispatch_find [OF ok step(1) this, where now = now]
    show ?thesis
    proof (cases "tm_removed tm \<or> timer_expired now tm")
      case True
      then show ?thesis using dispatch_gone [OF _ True, of k s] Cons.prems(2) live \<open>k = t\<close> rest by auto
    next
      case False
      then have "?s = s" using dispatch_kept [of t s tm] Cons.prems(2) \<open>k = t\<close> by auto
      then show ?thesis using rest Cons.prems(2) False by (auto split: option.split)
    qed
  next
    case False
    obtain tm' where tm': "find_timer k (get ?s) = Some tm'" "evolved tm tm'"
      using step(3) [OF Cons.prems(2) False] by auto
    have "k \<in> set ts" "distinct ts" "\<not> stop (fold (dispatch now) ts ?s)" using Cons.prems(3-5) False by auto
    note IH = Cons.IH [OF ok tm'(1) this]
    show ?thesis
      using IH tm'(2) evolvedD [OF tm'(2)]
      by (auto simp: timer_expired_def split: if_splits option.splits intro: evolved_trans)
  qed
qed simp

text \<open>A rule for invariants of the whole program: it is enough that every callback keeps the
  invariant when its timer is armed, the timer being freed afterwards.\<close>

lemma dispatch_invariant:
  assumes fire: "\<And>s t cb. I s \<Longrightarrow> \<not> stop s \<Longrightarrow> armed (get s) t = Some cb \<Longrightarrow>
      (stop (run_timer cb s) \<longrightarrow> I (run_timer cb s)) \<and>
      (\<not> stop (run_timer cb s) \<longrightarrow> I (upd (free_timer t) (run_timer cb s)))"
    and free: "\<And>s t. I s \<Longrightarrow> armed (get s) t = None \<Longrightarrow> I (upd (free_timer t) s)"
    and start: "I s"
  shows "I (dispatch_timers run_timer get upd stop now s)"
proof -
  have "I (dispatch now t s)" if inv: "I s" for s t
  proof (cases "stop s \<or> armed (get s) t = None")
    case True
    then show ?thesis
      using inv free [OF inv, of t] by (auto simp: dispatch_timer_def armed_def split: option.splits if_splits)
  next
    case False
    then obtain tm where tm: "find_timer t (get s) = Some tm" "\<not> tm_removed tm" "\<not> stop s"
      by (auto simp: armed_def split: option.splits if_splits)
    then have "armed (get s) t = Some (tm_callback tm)" by (simp add: armed_def)
    from fire [OF inv tm(3) this] show ?thesis
      using tm inv by (auto simp: dispatch_timer_def Let_def)
  qed
  then have "I (fold (dispatch now) ts s)" if "I s" for ts s
    using that by (induction ts arbitrary: s) auto
  then show ?thesis using start by (simp add: dispatch_timers_def)
qed

end


subsection \<open>The sweep over removed descriptors\<close>

lemma sweep_fds_scan_eq:
  "length ps = length evs \<Longrightarrow>
   length (fst (sweep_fds_scan ps evs)) = length (snd (sweep_fds_scan ps evs)) \<and>
   zip (fst (sweep_fds_scan ps evs)) (snd (sweep_fds_scan ps evs)) = filter (\<lambda>(p, ev). \<not> fe_removed ev) (zip ps evs)"
  by (induction ps evs rule: list_induct2) (auto simp: split_beta)

lemma sweep_fds_length: "length ps = length evs \<Longrightarrow> length (fst (sweep_fds_scan ps evs)) \<le> length ps"
  by (induction ps evs rule: list_induct2) (auto simp: split_beta)

lemma sweep_fds_ok [preserves]: "loop_ok L \<Longrightarrow> loop_ok (sweep_fds L)"
  using sweep_fds_scan_eq [of "fds L" "fd_events L"] sweep_fds_length [of "fds L" "fd_events L"]
  by (auto simp: loop_ok_def sweep_fds_def split_beta)

lemma remove_fd_scan_some:
  "length ps = length evs \<Longrightarrow> fst (remove_fd_scan fd ps evs) \<longleftrightarrow> fd \<in> pfd_fd ` set ps"
  by (induction ps evs rule: list_induct2) (auto simp: split_beta)

text \<open>A descriptor with no second entry is out of the set after removal and the next sweep.\<close>

lemma remove_then_sweep_scan:
  assumes "length ps = length evs" "distinct (map pfd_fd ps)"
  shows "map pfd_fd (fst (sweep_fds_scan ps (snd (remove_fd_scan fd ps evs)))) =
    filter (\<lambda>x. x \<noteq> fd) (map pfd_fd (fst (sweep_fds_scan ps evs)))"
  using assms
proof (induction ps evs rule: list_induct2)
  case (Cons p ps ev evs)
  have keep: "filter (\<lambda>x. x \<noteq> fd) (map pfd_fd (fst (sweep_fds_scan ps evs))) = map pfd_fd (fst (sweep_fds_scan ps evs))"
    if "fd \<notin> pfd_fd ` set ps"
  proof -
    have "pfd_fd ` set (fst (sweep_fds_scan ps evs)) \<subseteq> pfd_fd ` set ps"
      using Cons.hyps by (induction ps evs rule: list_induct2) (auto simp: split_beta split: if_splits)
    then show ?thesis using that by (intro filter_True) auto
  qed
  show ?case using Cons keep by (auto simp: split_beta)
qed simp

text \<open>Removing descriptors while events are dispatched never unpairs the two parallel
  structures: the sweep leaves exactly the entries not marked removed, each poll entry still beside its own callback,
  and the invariant of the loop holds again.\<close>

theorem sweep_keeps_pairs:
  assumes "loop_ok L"
  shows "zip (fds (sweep_fds L)) (fd_events (sweep_fds L)) =
      filter (\<lambda>(p, ev). \<not> fe_removed ev) (zip (fds L) (fd_events L)) \<and> loop_ok (sweep_fds L)"
  using sweep_fds_scan_eq [of "fds L" "fd_events L"] assms sweep_fds_ok [OF assms]
  by (simp add: loop_ok_def sweep_fds_def split_beta)

lemma sweep_keeps_pairs_witness:
  "fds (sweep_fds \<lparr>fds = [\<lparr>pfd_fd = 3, pfd_events = 1, pfd_revents = 0\<rparr>, \<lparr>pfd_fd = 4, pfd_events = 1, pfd_revents = 0\<rparr>],
     fd_capacity = 10, fd_events = [\<lparr>fe_callback = (), fe_removed = True\<rparr>, \<lparr>fe_callback = (), fe_removed = False\<rparr>],
     timers = [] :: unit loop_timer list, next_timer = 0\<rparr>) = [\<lparr>pfd_fd = 4, pfd_events = 1, pfd_revents = 0\<rparr>]"
proof -
  let ?L = "\<lparr>fds = [\<lparr>pfd_fd = 3, pfd_events = 1, pfd_revents = 0\<rparr>, \<lparr>pfd_fd = 4, pfd_events = 1, pfd_revents = 0\<rparr>],
     fd_capacity = 10, fd_events = [\<lparr>fe_callback = (), fe_removed = True\<rparr>, \<lparr>fe_callback = (), fe_removed = False\<rparr>],
     timers = [] :: unit loop_timer list, next_timer = 0\<rparr>"
  have "zip (fds (sweep_fds ?L)) (fd_events (sweep_fds ?L)) =
      [(\<lparr>pfd_fd = 4, pfd_events = 1, pfd_revents = 0\<rparr>, \<lparr>fe_callback = (), fe_removed = False\<rparr>)] \<and> loop_ok (sweep_fds ?L)"
    using sweep_keeps_pairs [of ?L] by (simp add: loop_ok_def)
  then have z: "zip (fds (sweep_fds ?L)) (fd_events (sweep_fds ?L)) =
      [(\<lparr>pfd_fd = 4, pfd_events = 1, pfd_revents = 0\<rparr>, \<lparr>fe_callback = (), fe_removed = False\<rparr>)]"
    and "length (fds (sweep_fds ?L)) = length (fd_events (sweep_fds ?L))" by (auto simp: loop_ok_def)
  then show ?thesis by (metis (no_types, lifting) list.simps(8,9) map_fst_zip fst_conv)
qed

end
