(* ===== verification/Types.thy ===== *)
theory Types
  imports PasswordBuffer EventLoop
begin

section \<open>Data of the locker (swaylock.h, seat.h, pool-buffer.h)\<close>

text \<open>
  The structures of swaylock.h as records.  Heap objects are numbered: a pointer to a
  \<open>swaylock_surface\<close>, a \<open>swaylock_bg_client\<close>, a \<open>swaylock_seat\<close>, a \<open>forward_surface\<close>, a
  \<open>forward_buffer\<close> or a Wayland object is its number, \<open>NULL\<close> is \<open>None\<close>, and a store in the state maps the number
  to the record.  A \<open>wl_list\<close> is the list of the numbers linked into it, head first
  (\<open>wl_list_insert\<close> puts at the head).  \<open>uint32_t\<close> is \<open>u32\<close>; \<open>int\<close> and \<open>int32_t\<close> are
  \<open>int\<close>; \<open>float\<close> settings are rationals.
\<close>

subsection \<open>Indicator states and settings\<close>

datatype auth_state = AUTH_STATE_IDLE | AUTH_STATE_VALIDATING | AUTH_STATE_INVALID

datatype input_state =
  INPUT_STATE_IDLE | INPUT_STATE_CLEAR | INPUT_STATE_LETTER | INPUT_STATE_BACKSPACE | INPUT_STATE_NEUTRAL

datatype background_mode =
    BACKGROUND_MODE_STRETCH | BACKGROUND_MODE_FILL | BACKGROUND_MODE_FIT | BACKGROUND_MODE_CENTER
  | BACKGROUND_MODE_TILE | BACKGROUND_MODE_SOLID_COLOR | BACKGROUND_MODE_INVALID

record swaylock_colorset =
  cs_input :: u32
  cs_cleared :: u32
  cs_caps_lock :: u32
  cs_verifying :: u32
  cs_wrong :: u32

record swaylock_colors =
  c_background :: u32
  c_bs_highlight :: u32
  c_key_highlight :: u32
  c_caps_lock_bs_highlight :: u32
  c_caps_lock_key_highlight :: u32
  c_separator :: u32
  c_layout_background :: u32
  c_layout_border :: u32
  c_layout_text :: u32
  c_inside :: swaylock_colorset
  c_line :: swaylock_colorset
  c_ring :: swaylock_colorset
  c_text :: swaylock_colorset

record swaylock_args =
  a_colors :: swaylock_colors
  a_mode :: background_mode
  a_font :: string
  a_font_size :: u32
  a_radius :: u32
  a_thickness :: u32
  a_indicator_x_position :: u32
  a_indicator_y_position :: u32
  a_override_indicator_x_position :: bool
  a_override_indicator_y_position :: bool
  a_ignore_empty :: bool
  a_show_indicator :: bool
  a_show_caps_lock_text :: bool
  a_show_caps_lock_indicator :: bool
  a_show_keyboard_layout :: bool
  a_hide_keyboard_layout :: bool
  a_show_failed_attempts :: bool
  a_daemonize :: bool
  a_ready_fd :: int
  a_indicator_idle_visible :: bool
  a_plugin_command :: "string option"
  a_plugin_per_output :: bool
  a_pause_when_hidden :: bool
  a_hidden_timeout_ms :: int
  a_grace_time :: rat
  a_grace_pointer_hysteresis :: rat

text \<open>\<open>struct swaylock_xkb\<close>: \<open>x_layouts\<close> is what xkbcommon answers about the current keymap (name
  and whether the layout is active), \<open>None\<close> when there is no keymap.\<close>

record swaylock_xkb =
  x_caps_lock :: bool
  x_control :: bool
  x_layouts :: "(string option \<times> bool) list option"

record swaylock_seat =
  se_pointer :: bool
  se_keyboard :: bool
  se_repeat_period_ms :: int
  se_repeat_delay_ms :: int
  se_repeat_sym :: u32
  se_repeat_codepoint :: u32
  se_repeat_timer :: "nat option"
  se_last_interval :: int
  se_interval_start :: "int \<times> int"
  se_last_mouse :: "int \<times> int"

record pool_buffer =
  pb_buffer :: bool
  pb_width :: u32
  pb_height :: u32
  pb_data :: bool
  pb_size :: u64
  pb_busy :: bool

subsection \<open>Plugin clients and forwarded surfaces\<close>

record swaylock_bg_client =
  bc_serial :: u32
  bc_client :: nat
  bc_unique_output :: "nat option"
  bc_pid :: int
  bc_paused :: bool
  bc_made_a_registry :: bool
  bc_client_connect_timer :: "nat option"
  bc_resource_create_listening :: bool
  bc_destroy_listening :: bool

record serial_pair =
  sp_plugin_serial :: u32
  sp_upstream_serial :: u32
  sp_config_width :: u32
  sp_config_height :: u32
  sp_local_only :: bool

record damage_record =
  dm_x :: int
  dm_y :: int
  dm_w :: int
  dm_h :: int

record forward_buffer =
  fb_resource :: bool
  fb_pending_surfaces :: "nat list"
  fb_committed_surfaces :: "nat list"
  fb_width :: u32
  fb_height :: u32

datatype attachment = No_buffer | Buffer nat | BUFFER_UNREACHABLE | BUFFER_COMMITTED

text \<open>\<open>fd_server_side\<close>: the description is one of the compositor's (\<open>properties\<close> is not
  \<open>NULL\<close>).\<close>

record forward_image_desc =
  fd_resource :: bool
  fd_server_side :: bool
  fd_pending_surfaces :: "nat list"
  fd_committed_surfaces :: "nat list"

text \<open>\<open>pool_identity\<close> is the device and inode, \<open>None\<close> when \<open>fstat\<close> failed and the pool is not shared.\<close>

record forwarded_shm_pool =
  pool_identity :: "(nat \<times> nat) option"
  pool_size :: int
  pool_refcount :: int

record surface_state =
  ss_attachment :: attachment
  ss_offset_x :: int
  ss_offset_y :: int
  ss_buffer_scale :: int
  ss_buffer_transform :: int
  ss_viewport_source_x :: int
  ss_viewport_source_y :: int
  ss_viewport_source_w :: int
  ss_viewport_source_h :: int
  ss_viewport_dest_width :: int
  ss_viewport_dest_height :: int
  ss_has_alpha_mode :: bool
  ss_alpha_mode :: u32
  ss_has_coef_range :: bool
  ss_coefficients :: u32
  ss_range :: u32
  ss_has_chroma_location :: bool
  ss_chroma_location :: u32
  ss_image_desc :: "nat option"
  ss_render_intent :: u32
  ss_subsurfaces_above :: "nat list"
  ss_subsurfaces_below :: "nat list"

record augmented_surface =
  au_surface :: bool
  au_viewport :: bool
  au_color_rep_surface :: bool
  au_color_surface :: bool

record subsurface_entry =
  su_pos_x :: int
  su_pos_y :: int
  su_is_desync :: bool

record forward_surface =
  fs_has_been_configured :: bool
  fs_version :: int
  fs_layer_surface :: "nat option"
  fs_sway_surface :: "nat option"
  fs_inert :: bool
  fs_subsurface_parent :: "nat option"
  fs_subsurface :: "nat option"
  fs_ext_surface :: augmented_surface
  fs_ext_subsurface :: bool
  fs_pending_entry :: subsurface_entry
  fs_committed_entry :: subsurface_entry
  fs_frame_callbacks :: "nat list"
  fs_pending :: surface_state
  fs_committed :: surface_state
  fs_committed_buffer_width :: u32
  fs_committed_buffer_height :: u32
  fs_buffer_damage :: "damage_record list"
  fs_old_damage :: "damage_record list"
  fs_last_used_plugin_serial :: u32
  fs_last_acked_width :: u32
  fs_last_acked_height :: u32
  fs_serial_table :: "serial_pair list"
  fs_viewport :: "nat option"
  fs_fractional_scale :: "nat option"
  fs_color_surface :: "nat option"
  fs_color_representation :: "nat option"

subsection \<open>The nested server\<close>

text \<open>
  A \<open>wl_resource\<close> is a numbered object of a client.  Surfaces, callbacks, buffers and image
  descriptions use the number of their resource as their own; the user data of the other kinds
  is in \<open>fw_user_data\<close> (the pool behind a \<open>wl_shm_pool\<close>, the surface behind the rest).
\<close>

datatype (plugins only: code) resource_kind =
    K_surface | K_callback | K_buffer | K_image_desc | K_shm_pool | K_viewport | K_fractional_scale
  | K_subsurface | K_layer_surface | K_color_surface | K_color_representation
  | K_output | K_xdg_output | K_color_output | K_dmabuf_params | K_region | K_data_source | K_data_device

record wl_resource =
  rs_id :: nat
  rs_client :: nat
  rs_kind :: resource_kind

text \<open>The nested part of \<open>forward_state\<close>: which optional upstream globals were bound, the live resources in order of
  creation, the stores of forwarded objects, the shared pools, the size in each \<open>struct forward_params\<close>, the frame callbacks waiting for an upstream callback
  (\<open>struct frame_callbacks\<close>), and the next number.\<close>

record forward_state =
  fw_viewporter :: bool
  fw_fractional_scale :: bool
  fw_color_management :: bool
  fw_color_representation :: bool
  fw_resources :: "wl_resource list"
  fw_user_data :: "nat \<Rightarrow> nat option"
  fw_surface :: "nat \<Rightarrow> forward_surface"
  fw_buffer :: "nat \<Rightarrow> forward_buffer"
  fw_image_desc :: "nat \<Rightarrow> forward_image_desc"
  fw_shm_pools :: "nat list"
  fw_pool :: "nat \<Rightarrow> forwarded_shm_pool"
  fw_params :: "nat \<Rightarrow> int \<times> int"
  fw_frame_callbacks :: "nat \<Rightarrow> (nat list \<times> nat option) option"
  fw_next :: nat

subsection \<open>Outputs\<close>

text \<open>\<open>struct swaylock_surface\<close>, one per output.  \<open>sw_output_desc\<close> is the state of the colour
  description of the output: not requested, requested, known.\<close>

datatype output_desc = No_color_output | Desc_pending | Desc_current

record swaylock_surface =
  sw_output_global_name :: u32
  sw_surface :: augmented_surface
  sw_child :: bool
  sw_subsurface :: bool
  sw_plugin_surface :: "nat option"
  sw_frame_pending :: bool
  sw_frame_pending_since :: timespec
  sw_frame_last_done :: timespec
  sw_ext_session_lock_surface :: bool
  sw_fractional_scale :: bool
  sw_output_desc :: output_desc
  sw_last_fractional_scale :: u32
  sw_indicator_buffers :: "pool_buffer list"
  sw_image_opaque :: "bool option"
  sw_created :: bool
  sw_dirty :: bool
  sw_width :: u32
  sw_height :: u32
  sw_scale :: int
  sw_has_output_done :: bool
  sw_subpixel :: int
  sw_output_name :: "string option"
  sw_output_description :: "string option"
  sw_physical_width :: int
  sw_physical_height :: int
  sw_output_transform :: int
  sw_mode_width :: int
  sw_mode_height :: int
  sw_frame :: bool
  sw_nested_server_output :: bool
  sw_wl_output_resources :: "nat list"
  sw_xdg_output_resources :: "nat list"
  sw_color_output_resources :: "nat list"
  sw_first_configure_serial :: u32
  sw_used_first_configure :: bool
  sw_has_pending_ack_conf :: bool
  sw_pending_upstream_serial :: u32
  sw_has_newer_serial :: bool
  sw_newest_serial :: u32
  sw_has_buffer :: bool
  sw_client :: "nat option"
  sw_client_submission_timer :: "nat option"

record swaylock_image =
  im_path :: string
  im_output_name :: "string option"
  im_opaque :: bool

subsection \<open>Callbacks of the event loop\<close>

text \<open>Each timer callback with the object its \<open>data\<close> points to.\<close>

datatype (plugins only: code) timer_cb =
    Set_input_idle
  | Set_auth_idle
  | Clear_password
  | Keyboard_repeat nat
  | Client_connection_timeout nat
  | Output_redraw_timeout nat
  | Grace_timeout
  | Hidden_check_timeout

datatype fd_cb = Display_in | Comm_in | Dispatch_nested | Term_in | Lock_in | Sleep_in

subsection \<open>Effects and the outside world\<close>

text \<open>
  What the program does to its surroundings is a trace of \<open>effect\<close>s: requests to the compositor
  (on a surface, \<open>Surf\<close>, or another object, \<open>Up\<close>), actions on the nested server and its
  clients (\<open>Down\<close>), and system calls (\<open>Sys\<close>).  What the surroundings
  answer comes from the \<open>world\<close>: the \<open>n\<close>-th call that returns a value gets \<open>w_ret w n\<close>
  (a number, as the C calls return) or \<open>w_time w n\<close> (a clock reading); a system call that fails answers minus its \<open>errno\<close>.
  \<open>w_text_extents\<close> gives cairo's width and x-bearing of a text at an arc radius,
  \<open>w_font_extents\<close> the font's height and descent.
  \<open>w_fd\<close> gives the descriptor of each source of the event loop, \<open>w_environ\<close> the environment.  The theorems hold for every world.
\<close>

datatype wl_surface_ref = Background nat | Indicator nat | Subsurface nat

datatype upstream_buffer = Indicator_buffer nat nat | Fallback_buffer nat | Plugin_buffer nat

datatype (plugins only: code) surface_request =
    Commit
  | Frame_callback
  | Attach "upstream_buffer option" int int
  | Damage int int int int
  | Damage_buffer int int int int
  | Set_buffer_scale int
  | Set_buffer_transform int
  | Set_offset int int
  | Viewport_destination int int
  | Viewport_source int int int int
  | Reset_color_representation
  | Set_alpha_mode u32
  | Set_chroma_location u32
  | Set_coefficients_and_range u32 u32
  | Set_image_description nat u32
  | Unset_image_description
  | Set_opaque_region
  | Subsurface_position int int
  | Subsurface_set_sync bool
  | Place_above wl_surface_ref
  | Place_below wl_surface_ref
  | Create_surface
  | Get_subsurface wl_surface_ref
  | Destroy_surface
  | Destroy_subsurface
  | Destroy_frame_callback
  | Destroy_viewport
  | Destroy_color_surface
  | Destroy_color_representation

datatype (plugins only: code) upstream_request =
    Get_lock_surface nat
  | Ack_configure nat u32
  | Destroy_lock_surface nat
  | Destroy_fractional_scale nat
  | Release_output nat
  | Lock_session
  | Unlock_and_destroy
  | Create_buffer upstream_buffer int int
  | Destroy_buffer upstream_buffer
  | Create_pool nat int
  | Resize_pool nat int
  | Destroy_pool nat
  | Create_params nat
  | Add_plane nat int u32 u32 u32 u32 u32
  | Request_buffer nat int int u32 u32
  | Destroy_params nat
  | Destroy_image_desc nat
  | Hide_cursor nat

datatype (plugins only: code) nested_event =
    Send_configure nat u32 u32 u32
  | Send_closed nat
  | Send_preferred_scale nat u32
  | Send_output_state nat nat
  | Send_xdg_size nat u32 u32
  | Send_frame_done nat
  | Send_buffer_release nat
  | Send_params_created nat nat
  | Send_params_failed nat
  | Post_error nat string
  | Client_error nat string
  | Create_output_global nat
  | Remove_output_global nat
  | Destroy_display
  | Create_client nat
  | Destroy_client nat

datatype (plugins only: code) system_call =
    Spawn "string option" "string list"
  | Kill int int
  | Close int
  | Send_request "byte list"
  | Write_ready int

text \<open>What is painted into an indicator buffer; angles are in units of \<open>pi/1024\<close>.\<close>

datatype (plugins only: code) paint =
    Clear_all
  | Fill_all u32
  | Fill_circle int int int u32
  | Stroke_circle int int int rat u32
  | Stroke_arc int int int rat rat u32
  | Separator int rat rat rat u32
  | Fill_box rat rat rat rat u32
  | Stroke_box rat rat rat rat u32
  | Show_text string rat rat u32

datatype (plugins only: code) effect =
    Surf wl_surface_ref surface_request
  | Up upstream_request
  | Down nested_event
  | Sys system_call
  | Draw upstream_buffer "paint list"

record world =
  w_calls :: nat
  w_ret :: "nat \<Rightarrow> int"
  w_time :: "nat \<Rightarrow> timespec"
  w_text_extents :: "string \<Rightarrow> int \<Rightarrow> rat \<times> rat"
  w_font_extents :: "int \<Rightarrow> rat \<times> rat"
  w_fd :: "fd_cb \<Rightarrow> int"
  w_environ :: "string list"

text \<open>How the process ended: \<open>exit\<close> with a status, or \<open>abort\<close> by a failed assertion, a loop
  that never returns, or undefined behaviour (a \<open>NULL\<close> or dangling pointer, a division by zero).\<close>

datatype halt = Exit int | Abort | Hang | Undefined

subsection \<open>The state of the program\<close>

record swaylock_bg_server =
  sv_display :: bool
  sv_clients :: "nat list"
  sv_client :: "nat \<Rightarrow> swaylock_bg_client"
  sv_main_client :: "nat option"
  sv_next_client :: nat

record swaylock_state =
  st_eventloop :: "(timer_cb, fd_cb) event_loop"
  st_input_idle_timer :: "nat option"
  st_auth_idle_timer :: "nat option"
  st_clear_password_timer :: "nat option"
  st_hidden_check_timer :: "nat option"
  st_grace_timer :: "nat option"
  st_surfaces :: "nat list"
  st_surface :: "nat \<Rightarrow> swaylock_surface"
  st_seat :: "nat \<Rightarrow> swaylock_seat"
  st_images :: "swaylock_image list"
  st_args :: swaylock_args
  st_password :: swaylock_password
  st_xkb :: swaylock_xkb
  st_auth_state :: auth_state
  st_input_state :: input_state
  st_highlight_start :: u32
  st_failed_attempts :: int
  st_run_display :: bool
  st_locked :: bool
  st_server :: swaylock_bg_server
  st_forward :: forward_state
  st_start_clientless_mode :: bool
  st_sleep_comm_r :: int
  st_sleep_comm_w :: int
  st_stale_wl_output_resources :: "nat list"
  st_stale_xdg_output_resources :: "nat list"
  st_stale_color_output_resources :: "nat list"
  st_world :: world
  st_trace :: "effect list"
  st_halt :: "halt option"

text \<open>The program state without the parts the individual components touch is changed through the
  following accessors only.\<close>

definition emit :: "effect \<Rightarrow> swaylock_state \<Rightarrow> swaylock_state" where
  "emit e s = s\<lparr>st_trace := st_trace s @ [e]\<rparr>"

definition on_surface :: "nat \<Rightarrow> (swaylock_surface \<Rightarrow> swaylock_surface) \<Rightarrow> swaylock_state \<Rightarrow> swaylock_state" where
  "on_surface i f s = s\<lparr>st_surface := (st_surface s)(i := f (st_surface s i))\<rparr>"

definition on_server :: "(swaylock_bg_server \<Rightarrow> swaylock_bg_server) \<Rightarrow> swaylock_state \<Rightarrow> swaylock_state" where
  "on_server f s = s\<lparr>st_server := f (st_server s)\<rparr>"

definition on_client :: "nat \<Rightarrow> (swaylock_bg_client \<Rightarrow> swaylock_bg_client) \<Rightarrow> swaylock_state \<Rightarrow> swaylock_state" where
  "on_client c f = on_server (\<lambda>v. v\<lparr>sv_client := (sv_client v)(c := f (sv_client v c))\<rparr>)"

definition on_forward :: "(forward_state \<Rightarrow> forward_state) \<Rightarrow> swaylock_state \<Rightarrow> swaylock_state" where
  "on_forward f s = s\<lparr>st_forward := f (st_forward s)\<rparr>"

definition on_plugin_surface :: "nat \<Rightarrow> (forward_surface \<Rightarrow> forward_surface) \<Rightarrow> swaylock_state \<Rightarrow> swaylock_state" where
  "on_plugin_surface p f = on_forward (\<lambda>w. w\<lparr>fw_surface := (fw_surface w)(p := f (fw_surface w p))\<rparr>)"

definition on_seat :: "nat \<Rightarrow> (swaylock_seat \<Rightarrow> swaylock_seat) \<Rightarrow> swaylock_state \<Rightarrow> swaylock_state" where
  "on_seat i f s = s\<lparr>st_seat := (st_seat s)(i := f (st_seat s i))\<rparr>"

definition on_loop :: "((timer_cb, fd_cb) event_loop \<Rightarrow> (timer_cb, fd_cb) event_loop) \<Rightarrow> swaylock_state \<Rightarrow> swaylock_state" where
  "on_loop f s = s\<lparr>st_eventloop := f (st_eventloop s)\<rparr>"

abbreviation client :: "swaylock_state \<Rightarrow> nat \<Rightarrow> swaylock_bg_client" where
  "client s c \<equiv> sv_client (st_server s) c"

abbreviation plugin_surface :: "swaylock_state \<Rightarrow> nat \<Rightarrow> forward_surface" where
  "plugin_surface s p \<equiv> fw_surface (st_forward s) p"

definition halt_with :: "halt \<Rightarrow> swaylock_state \<Rightarrow> swaylock_state" where
  "halt_with h s = s\<lparr>st_halt := Some h\<rparr>"

text \<open>The next answer of the world.\<close>

definition next_call :: "swaylock_state \<Rightarrow> swaylock_state" where
  "next_call s = s\<lparr>st_world := (st_world s)\<lparr>w_calls := Suc (w_calls (st_world s))\<rparr>\<rparr>"

definition sys_ret :: "swaylock_state \<Rightarrow> int \<times> swaylock_state" where
  "sys_ret s = (w_ret (st_world s) (w_calls (st_world s)), next_call s)"

definition clock_gettime :: "swaylock_state \<Rightarrow> timespec \<times> swaylock_state" where
  "clock_gettime s = (w_time (st_world s) (w_calls (st_world s)), next_call s)"

definition add_timer :: "int \<Rightarrow> timer_cb \<Rightarrow> swaylock_state \<Rightarrow> nat \<times> swaylock_state" where
  "add_timer ms cb s =
     (let (now, s1) = clock_gettime s; (t, L) = loop_add_timer now ms cb (st_eventloop s1)
      in (t, s1\<lparr>st_eventloop := L\<rparr>))"

definition remove_timer :: "nat \<Rightarrow> swaylock_state \<Rightarrow> swaylock_state" where
  "remove_timer t = on_loop (\<lambda>L. snd (loop_remove_timer t L))"

subsection \<open>Initial values\<close>

text \<open>What \<open>calloc\<close> leaves in each structure.\<close>

definition zero_time :: timespec where "zero_time = \<lparr>tv_sec = 0, tv_nsec = 0\<rparr>"

definition zero_pool_buffer :: pool_buffer where
  "zero_pool_buffer = \<lparr>pb_buffer = False, pb_width = 0, pb_height = 0, pb_data = False, pb_size = 0, pb_busy = False\<rparr>"

definition zero_augmented :: augmented_surface where
  "zero_augmented = \<lparr>au_surface = False, au_viewport = False, au_color_rep_surface = False, au_color_surface = False\<rparr>"

definition zero_surface :: swaylock_surface where
  "zero_surface = \<lparr>sw_output_global_name = 0, sw_surface = zero_augmented, sw_child = False,
     sw_subsurface = False, sw_plugin_surface = None, sw_frame_pending = False,
     sw_frame_pending_since = zero_time, sw_frame_last_done = zero_time,
     sw_ext_session_lock_surface = False, sw_fractional_scale = False, sw_output_desc = No_color_output,
     sw_last_fractional_scale = 0, sw_indicator_buffers = [zero_pool_buffer, zero_pool_buffer],
     sw_image_opaque = None, sw_created = False, sw_dirty = False, sw_width = 0, sw_height = 0,
     sw_scale = 0, sw_has_output_done = False, sw_subpixel = 0, sw_output_name = None,
     sw_output_description = None, sw_physical_width = 0, sw_physical_height = 0,
     sw_output_transform = 0, sw_mode_width = 0, sw_mode_height = 0, sw_frame = False,
     sw_nested_server_output = False, sw_wl_output_resources = [], sw_xdg_output_resources = [],
     sw_color_output_resources = [], sw_first_configure_serial = 0, sw_used_first_configure = False,
     sw_has_pending_ack_conf = False, sw_pending_upstream_serial = 0, sw_has_newer_serial = False,
     sw_newest_serial = 0, sw_has_buffer = False, sw_client = None, sw_client_submission_timer = None\<rparr>"

definition zero_seat :: swaylock_seat where
  "zero_seat = \<lparr>se_pointer = False, se_keyboard = False, se_repeat_period_ms = 0, se_repeat_delay_ms = 0,
     se_repeat_sym = 0, se_repeat_codepoint = 0, se_repeat_timer = None, se_last_interval = 0,
     se_interval_start = (0, 0), se_last_mouse = (0, 0)\<rparr>"

definition zero_client :: swaylock_bg_client where
  "zero_client = \<lparr>bc_serial = 0, bc_client = 0, bc_unique_output = None, bc_pid = 0, bc_paused = False,
     bc_made_a_registry = False, bc_client_connect_timer = None,
     bc_resource_create_listening = False, bc_destroy_listening = False\<rparr>"

definition zero_entry :: subsurface_entry where
  "zero_entry = \<lparr>su_pos_x = 0, su_pos_y = 0, su_is_desync = False\<rparr>"

definition zero_buffer :: forward_buffer where
  "zero_buffer = \<lparr>fb_resource = False, fb_pending_surfaces = [], fb_committed_surfaces = [],
     fb_width = 0, fb_height = 0\<rparr>"

text \<open>\<open>default_surface_state\<close> of forward.c; \<open>wl_fixed_from_int (-1)\<close> is \<open>-256\<close>.\<close>

definition wl_fixed_from_int :: "int \<Rightarrow> int" where
  "wl_fixed_from_int i = i * 256"

definition default_surface_state :: surface_state where
  "default_surface_state = \<lparr>ss_attachment = No_buffer, ss_offset_x = 0, ss_offset_y = 0,
     ss_buffer_scale = 1, ss_buffer_transform = 0,
     ss_viewport_source_x = wl_fixed_from_int (-1), ss_viewport_source_y = wl_fixed_from_int (-1),
     ss_viewport_source_w = wl_fixed_from_int (-1), ss_viewport_source_h = wl_fixed_from_int (-1),
     ss_viewport_dest_width = -1, ss_viewport_dest_height = -1,
     ss_has_alpha_mode = False, ss_alpha_mode = 0, ss_has_coef_range = False, ss_coefficients = 0,
     ss_range = 0, ss_has_chroma_location = False, ss_chroma_location = 0,
     ss_image_desc = None, ss_render_intent = 0, ss_subsurfaces_above = [], ss_subsurfaces_below = []\<rparr>"

definition new_forward_surface :: "int \<Rightarrow> forward_surface" where
  "new_forward_surface version = \<lparr>fs_has_been_configured = False, fs_version = version,
     fs_layer_surface = None, fs_sway_surface = None, fs_inert = False, fs_subsurface_parent = None,
     fs_subsurface = None, fs_ext_surface = zero_augmented, fs_ext_subsurface = False,
     fs_pending_entry = zero_entry, fs_committed_entry = zero_entry, fs_frame_callbacks = [],
     fs_pending = default_surface_state, fs_committed = default_surface_state,
     fs_committed_buffer_width = 0, fs_committed_buffer_height = 0, fs_buffer_damage = [],
     fs_old_damage = [], fs_last_used_plugin_serial = 0, fs_last_acked_width = 0,
     fs_last_acked_height = 0, fs_serial_table = [], fs_viewport = None, fs_fractional_scale = None,
     fs_color_surface = None, fs_color_representation = None\<rparr>"

definition zero_forward :: forward_state where
  "zero_forward = \<lparr>fw_viewporter = False, fw_fractional_scale = False, fw_color_management = False,
     fw_color_representation = False, fw_resources = [], fw_user_data = (\<lambda>_. None),
     fw_surface = (\<lambda>_. new_forward_surface 0),
     fw_buffer = (\<lambda>_. zero_buffer),
     fw_image_desc = (\<lambda>_. \<lparr>fd_resource = False, fd_server_side = False, fd_pending_surfaces = [], fd_committed_surfaces = []\<rparr>),
     fw_shm_pools = [],
     fw_pool = (\<lambda>_. \<lparr>pool_identity = None, pool_size = 0, pool_refcount = 0\<rparr>), fw_params = (\<lambda>_. (0, 0)),
     fw_frame_callbacks = (\<lambda>_. None),
     fw_next = 0\<rparr>"

text \<open>\<open>set_default_colors\<close> and the initial \<open>args\<close> of \<open>main\<close>.\<close>

definition default_colors :: swaylock_colors where
  "default_colors = \<lparr>c_background = 0xA3A3A3FF, c_bs_highlight = 0xDB3300FF, c_key_highlight = 0x33DB00FF,
     c_caps_lock_bs_highlight = 0xDB3300FF, c_caps_lock_key_highlight = 0x33DB00FF,
     c_separator = 0x000000FF, c_layout_background = 0x000000C0, c_layout_border = 0x00000000,
     c_layout_text = 0xFFFFFFFF,
     c_inside = \<lparr>cs_input = 0x000000C0, cs_cleared = 0xE5A445C0, cs_caps_lock = 0x000000C0,
                 cs_verifying = 0x0072FFC0, cs_wrong = 0xFA0000C0\<rparr>,
     c_line = \<lparr>cs_input = 0x000000FF, cs_cleared = 0x000000FF, cs_caps_lock = 0x000000FF,
               cs_verifying = 0x000000FF, cs_wrong = 0x000000FF\<rparr>,
     c_ring = \<lparr>cs_input = 0x337D00FF, cs_cleared = 0xE5A445FF, cs_caps_lock = 0xE5A445FF,
               cs_verifying = 0x3300FFFF, cs_wrong = 0x7D3300FF\<rparr>,
     c_text = \<lparr>cs_input = 0xE5A445FF, cs_cleared = 0x000000FF, cs_caps_lock = 0xE5A445FF,
               cs_verifying = 0x000000FF, cs_wrong = 0x000000FF\<rparr>\<rparr>"

definition default_args :: swaylock_args where
  "default_args = \<lparr>a_colors = default_colors, a_mode = BACKGROUND_MODE_FILL, a_font = ''sans-serif'',
     a_font_size = 0, a_radius = 50, a_thickness = 10, a_indicator_x_position = 0,
     a_indicator_y_position = 0, a_override_indicator_x_position = False,
     a_override_indicator_y_position = False, a_ignore_empty = False, a_show_indicator = True,
     a_show_caps_lock_text = True, a_show_caps_lock_indicator = False, a_show_keyboard_layout = False,
     a_hide_keyboard_layout = False, a_show_failed_attempts = False, a_daemonize = False,
     a_ready_fd = -1, a_indicator_idle_visible = False, a_plugin_command = None,
     a_plugin_per_output = False, a_pause_when_hidden = False, a_hidden_timeout_ms = 5000,
     a_grace_time = 0, a_grace_pointer_hysteresis = 10\<rparr>"

text \<open>The state before the globals are bound: \<open>mem\<close> is the fresh password memory, whose first byte
  \<open>main\<close> clears, and the nested display exists.\<close>

definition initial_password :: "byte list \<Rightarrow> swaylock_password" where
  "initial_password mem = \<lparr>pw_len = 0, pw_buffer_len = 1024, pw_buffer = mem[0 := 0]\<rparr>"

definition initial_state :: "world \<Rightarrow> byte list \<Rightarrow> swaylock_args \<Rightarrow> swaylock_state" where
  "initial_state w mem args = \<lparr>st_eventloop = loop_create, st_input_idle_timer = None,
     st_auth_idle_timer = None, st_clear_password_timer = None, st_hidden_check_timer = None,
     st_grace_timer = None, st_surfaces = [], st_surface = (\<lambda>_. zero_surface), st_seat = (\<lambda>_. zero_seat),
     st_images = [], st_args = args, st_password = initial_password mem,
     st_xkb = \<lparr>x_caps_lock = False, x_control = False, x_layouts = None\<rparr>,
     st_auth_state = AUTH_STATE_IDLE, st_input_state = INPUT_STATE_IDLE, st_highlight_start = 0,
     st_failed_attempts = 0, st_run_display = False, st_locked = False,
     st_server = \<lparr>sv_display = True, sv_clients = [], sv_client = (\<lambda>_. zero_client),
                  sv_main_client = None, sv_next_client = 0\<rparr>,
     st_forward = zero_forward, st_start_clientless_mode = False, st_sleep_comm_r = -1,
     st_sleep_comm_w = -1, st_stale_wl_output_resources = [], st_stale_xdg_output_resources = [],
     st_stale_color_output_resources = [], st_world = w, st_trace = [], st_halt = None\<rparr>"

text \<open>A world in which every call succeeds with 0 at time 0 and all texts are empty.\<close>

definition quiet_world :: world where
  "quiet_world = \<lparr>w_calls = 0, w_ret = (\<lambda>_. 0), w_time = (\<lambda>_. zero_time),
     w_text_extents = (\<lambda>_ _. (0, 0)), w_font_extents = (\<lambda>_. (0, 0)),
     w_fd = (\<lambda>_. 0), w_environ = []\<rparr>"

lemma initial_password_repr: "length mem = 1024 \<Longrightarrow> pw_repr (initial_password mem) []"
  by (simp add: pw_repr_def initial_password_def pw_content_def)

subsection \<open>Operations that only draw\<close>

text \<open>\<open>quiet s s'\<close>: going from \<open>s\<close> to \<open>s'\<close> changed records of outputs, the trace and the count of
  answered calls, and nothing else.\<close>

definition quiet :: "swaylock_state \<Rightarrow> swaylock_state \<Rightarrow> bool" where
  "quiet s s' \<longleftrightarrow>
     (\<exists>f tr w. s' = s\<lparr>st_surface := f, st_trace := tr, st_world := w\<rparr>)"

lemma quiet_refl [simp, intro]: "quiet s s"
proof -
  have "s = s\<lparr>st_surface := st_surface s, st_trace := st_trace s, st_world := st_world s\<rparr>" by simp
  then show ?thesis unfolding quiet_def by blast
qed

lemma quiet_trans: "quiet a b \<Longrightarrow> quiet b c \<Longrightarrow> quiet a c"
  by (auto simp: quiet_def) blast

lemma quietD:
  assumes "quiet s s'"
  shows
    "st_eventloop s' = st_eventloop s"
    "st_input_idle_timer s' = st_input_idle_timer s"
    "st_auth_idle_timer s' = st_auth_idle_timer s"
    "st_clear_password_timer s' = st_clear_password_timer s"
    "st_hidden_check_timer s' = st_hidden_check_timer s"
    "st_grace_timer s' = st_grace_timer s"
    "st_surfaces s' = st_surfaces s"
    "st_seat s' = st_seat s"
    "st_images s' = st_images s"
    "st_args s' = st_args s"
    "st_password s' = st_password s"
    "st_xkb s' = st_xkb s"
    "st_auth_state s' = st_auth_state s"
    "st_input_state s' = st_input_state s"
    "st_highlight_start s' = st_highlight_start s"
    "st_failed_attempts s' = st_failed_attempts s"
    "st_run_display s' = st_run_display s"
    "st_locked s' = st_locked s"
    "st_server s' = st_server s"
    "st_forward s' = st_forward s"
    "st_start_clientless_mode s' = st_start_clientless_mode s"
    "st_sleep_comm_r s' = st_sleep_comm_r s"
    "st_sleep_comm_w s' = st_sleep_comm_w s"
    "st_stale_wl_output_resources s' = st_stale_wl_output_resources s"
    "st_stale_xdg_output_resources s' = st_stale_xdg_output_resources s"
    "st_stale_color_output_resources s' = st_stale_color_output_resources s"
    "st_halt s' = st_halt s"
  using assms by (auto simp: quiet_def)

end
