(* ===== verification/Render.thy ===== *)
theory Render
  imports Types
begin

section \<open>Drawing the indicator (pool-buffer.c, render.c)\<close>

text \<open>
  \<open>create_buffer\<close>, \<open>destroy_buffer\<close> and \<open>get_next_buffer\<close> of pool-buffer.c on the two indicator
  buffers of an output, and \<open>render\<close> and \<open>render_frame\<close> of render.c.  Cairo is a parameter
  (the extents in the world); what is drawn is recorded as a list of \<open>paint\<close> commands with the colours,
  positions and radii the code computes.  The \<open>double\<close> computations are rational.
\<close>

subsection \<open>Shared-memory buffers\<close>

definition EEXIST :: int where "EEXIST = 17"

text \<open>At most 100 attempts at a name; only a name that exists already is retried.\<close>

fun shm_open_loop :: "nat \<Rightarrow> swaylock_state \<Rightarrow> int \<times> swaylock_state" where
  "shm_open_loop 0 s = (-1, s)"
| "shm_open_loop (Suc retries) s =
     (let (ts, s1) = clock_gettime s;
          (fd, s2) = sys_ret s1
      in if fd \<ge> 0 then (fd, s2)
         else if retries > 0 \<and> fd = - EEXIST then shm_open_loop retries s2
         else (-1, s2))"

definition anonymous_shm_open :: "swaylock_state \<Rightarrow> int \<times> swaylock_state" where
  "anonymous_shm_open = shm_open_loop 100"

definition create_buffer ::
  "upstream_buffer \<Rightarrow> pool_buffer \<Rightarrow> u32 \<Rightarrow> u32 \<Rightarrow> swaylock_state \<Rightarrow> pool_buffer option \<times> swaylock_state" where
  "create_buffer ref buf width height s =
     (let stride = width * 4;
          sz = ucast (stride * height) :: u64;
          filled = buf\<lparr>pb_size := sz, pb_width := width, pb_height := height, pb_data := sz > 0\<rparr>
      in if sz > 0 then
           (let (fd, s1) = anonymous_shm_open s
            in if fd = -1 then (None, s1)
               else
                 let (r, s2) = sys_ret s1
                 in if r < 0 then (None, emit (Sys (Close fd)) s2)
                    else (Some (filled\<lparr>pb_buffer := True\<rparr>),
                          emit (Sys (Close fd)) (emit (Up (Create_buffer ref (sint width) (sint height))) s2)))
         else (Some filled, s))"

definition destroy_buffer ::
  "upstream_buffer \<Rightarrow> pool_buffer \<Rightarrow> swaylock_state \<Rightarrow> pool_buffer \<times> swaylock_state" where
  "destroy_buffer ref buf s =
     (zero_pool_buffer, if pb_buffer buf then emit (Up (Destroy_buffer ref)) s else s)"

text \<open>The scan of the pool keeps the last buffer that is not busy.\<close>

definition free_buffer_index :: "pool_buffer list \<Rightarrow> nat option" where
  "free_buffer_index pool =
     fold (\<lambda>i found. if pb_busy (pool ! i) then found else Some i) [0..<2] None"

definition set_indicator_buffer :: "nat \<Rightarrow> nat \<Rightarrow> pool_buffer \<Rightarrow> swaylock_state \<Rightarrow> swaylock_state" where
  "set_indicator_buffer i k buf =
     on_surface i (\<lambda>sf. sf\<lparr>sw_indicator_buffers := (sw_indicator_buffers sf)[k := buf]\<rparr>)"

definition get_next_buffer :: "nat \<Rightarrow> u32 \<Rightarrow> u32 \<Rightarrow> swaylock_state \<Rightarrow> nat option \<times> swaylock_state" where
  "get_next_buffer i width height s =
     (case free_buffer_index (sw_indicator_buffers (st_surface s i)) of
        None \<Rightarrow> (None, s)
      | Some k \<Rightarrow>
          let buf = sw_indicator_buffers (st_surface s i) ! k;
              (buf1, s1) =
                (if pb_width buf \<noteq> width \<or> pb_height buf \<noteq> height
                 then destroy_buffer (Indicator_buffer i k) buf s else (buf, s));
              (made, s2) =
                (if \<not> pb_buffer buf1 then create_buffer (Indicator_buffer i k) buf1 width height s1
                 else (Some buf1, s1))
          in case made of
               None \<Rightarrow> (None, set_indicator_buffer i k buf1 s2)
             | Some buf2 \<Rightarrow> (Some k, set_indicator_buffer i k (buf2\<lparr>pb_busy := True\<rparr>) s2))"

text \<open>The compositor is done with a buffer.\<close>

definition buffer_release :: "nat \<Rightarrow> nat \<Rightarrow> swaylock_state \<Rightarrow> swaylock_state" where
  "buffer_release i k s =
     set_indicator_buffer i k ((sw_indicator_buffers (st_surface s i) ! k)\<lparr>pb_busy := False\<rparr>) s"

subsection \<open>Colours\<close>

text \<open>The argument of \<open>set_color_for_state\<close> points into \<open>args.colors\<close>, and the caps-lock branch
  changes \<open>colors.text.input\<close> while it reads through that pointer: only the text set sees it.\<close>

datatype colorset_ptr = Inside_set | Line_set | Ring_set | Text_set

fun colorset_at :: "swaylock_colors \<Rightarrow> colorset_ptr \<Rightarrow> swaylock_colorset" where
  "colorset_at c Inside_set = c_inside c"
| "colorset_at c Line_set = c_line c"
| "colorset_at c Ring_set = c_ring c"
| "colorset_at c Text_set = c_text c"

definition color_for_state :: "swaylock_state \<Rightarrow> colorset_ptr \<Rightarrow> u32" where
  "color_for_state s p =
     (let args = st_args s; colors = a_colors args; caps = x_caps_lock (st_xkb s) in
      if st_input_state s = INPUT_STATE_CLEAR then cs_cleared (colorset_at colors p)
      else if st_auth_state s = AUTH_STATE_VALIDATING then cs_verifying (colorset_at colors p)
      else if st_auth_state s = AUTH_STATE_INVALID then cs_wrong (colorset_at colors p)
      else if caps \<and> a_show_caps_lock_indicator args then cs_caps_lock (colorset_at colors p)
      else if caps \<and> \<not> a_show_caps_lock_indicator args \<and> a_show_caps_lock_text args then
        cs_input (colorset_at (colors\<lparr>c_text := (c_text colors)\<lparr>cs_input := cs_caps_lock (c_text colors)\<rparr>\<rparr>) p)
      else cs_input (colorset_at colors p))"

subsection \<open>What the indicator says\<close>

fun first_active_layout :: "(string option \<times> bool) list \<Rightarrow> string option" where
  "first_active_layout [] = None"
| "first_active_layout ((name, active) # ls) = (if active then name else first_active_layout ls)"

definition draws_indicator :: "swaylock_state \<Rightarrow> bool" where
  "draws_indicator s \<longleftrightarrow>
     a_show_indicator (st_args s) \<and>
     (st_auth_state s \<noteq> AUTH_STATE_IDLE \<or> st_input_state s \<noteq> INPUT_STATE_IDLE \<or>
      a_indicator_idle_visible (st_args s))"

definition indicator_texts :: "swaylock_state \<Rightarrow> string option \<times> string option" where
  "indicator_texts s =
     (let args = st_args s in
      if \<not> draws_indicator s then (None, None)
      else if st_input_state s = INPUT_STATE_CLEAR then (Some ''Cleared'', None)
      else if st_auth_state s = AUTH_STATE_VALIDATING then (Some ''Verifying'', None)
      else if st_auth_state s = AUTH_STATE_INVALID then (Some ''Wrong'', None)
      else
        (if x_caps_lock (st_xkb s) \<and> a_show_caps_lock_text args then Some ''Caps Lock''
         else if a_show_failed_attempts args \<and> st_failed_attempts s > 0 then
           (if st_failed_attempts s > 999 then Some ''999+'' else Some (decimal (nat (st_failed_attempts s))))
         else None,
         case x_layouts (st_xkb s) of
           None \<Rightarrow> None
         | Some ls \<Rightarrow>
             if \<not> a_hide_keyboard_layout args \<and> (a_show_keyboard_layout args \<or> length ls > 1)
             then first_active_layout ls else None))"

subsection \<open>Geometry\<close>

record geometry =
  g_arc_radius :: int
  g_arc_thickness :: int
  g_diameter :: int
  g_width :: int
  g_height :: int
  g_xpos :: int
  g_ypos :: int

text \<open>A side of the buffer, raised to the next multiple of the scale.\<close>

definition pad_to_scale :: "int \<Rightarrow> int \<Rightarrow> int" where
  "pad_to_scale scale x = x + (scale - x smod scale)"

text \<open>The sides needed for the circle and the texts; a side is raised to a text's extent when it is
  smaller.\<close>

definition grow_to :: "int \<Rightarrow> rat \<Rightarrow> int" where
  "grow_to d r = (if of_int d < r then trunc_rat r else d)"

definition needed_width :: "swaylock_state \<Rightarrow> int \<Rightarrow> int \<Rightarrow> int \<Rightarrow> int" where
  "needed_width s scale arc_radius diameter =
     (let (text, layout_text) = indicator_texts s; w = st_world s;
          width1 = (case text of None \<Rightarrow> diameter
                    | Some t \<Rightarrow> grow_to diameter (fst (w_text_extents w t arc_radius)))
      in case layout_text of None \<Rightarrow> width1
         | Some t \<Rightarrow> grow_to width1 (fst (w_text_extents w t arc_radius) + 2 * (4 * of_int scale)))"

definition needed_height :: "swaylock_state \<Rightarrow> int \<Rightarrow> int \<Rightarrow> int \<Rightarrow> int" where
  "needed_height s scale arc_radius diameter =
     (case snd (indicator_texts s) of None \<Rightarrow> diameter
      | Some t \<Rightarrow> trunc_rat (of_int diameter +
                    (fst (w_font_extents (st_world s) arc_radius) + 2 * (4 * of_int scale))))"

definition frame_geometry :: "swaylock_state \<Rightarrow> nat \<Rightarrow> geometry" where
  "frame_geometry s i =
     (let args = st_args s; sf = st_surface s i; scale = sw_scale sf;
          arc_radius = sint (a_radius args * word_of_int scale);
          arc_thickness = sint (a_thickness args * word_of_int scale);
          diameter = (arc_radius + arc_thickness) * 2;
          height = pad_to_scale scale (needed_height s scale arc_radius diameter);
          width = pad_to_scale scale (needed_width s scale arc_radius diameter);
          xbase = (if a_override_indicator_x_position args then uint (a_indicator_x_position args)
                   else uint (sw_width sf) div 2);
          ybase = (if a_override_indicator_y_position args then a_indicator_y_position args
                   else sw_height sf div 2)
      in \<lparr>g_arc_radius = arc_radius, g_arc_thickness = arc_thickness, g_diameter = diameter,
          g_width = width, g_height = height,
          g_xpos = to_int32 (xbase - width sdiv (2 * scale) + 2 sdiv scale),
          g_ypos = sint (ybase - (a_radius args + a_thickness args))\<rparr>)"

subsection \<open>Painting\<close>

definition highlight_color :: "swaylock_state \<Rightarrow> u32" where
  "highlight_color s =
     (let args = st_args s; colors = a_colors args;
          caps = x_caps_lock (st_xkb s) \<and> a_show_caps_lock_indicator args
      in if st_input_state s = INPUT_STATE_LETTER
         then (if caps then c_caps_lock_key_highlight colors else c_key_highlight colors)
         else (if caps then c_caps_lock_bs_highlight colors else c_bs_highlight colors))"

definition paint_highlight :: "swaylock_state \<Rightarrow> geometry \<Rightarrow> paint list" where
  "paint_highlight s g =
     (if st_input_state s = INPUT_STATE_LETTER \<or> st_input_state s = INPUT_STATE_BACKSPACE then
        let start = of_int (uint (st_highlight_start s)) :: rat;
            range = 1024 / 3;
            cx = g_width g sdiv 2; cy = g_diameter g sdiv 2;
            inner = of_int (g_diameter g) / 2 - of_int (g_arc_thickness g) * 3 / 2;
            outer = of_int (g_diameter g) / 2 - of_int (g_arc_thickness g) / 2;
            sep = c_separator (a_colors (st_args s))
        in [Stroke_arc cx cy (g_arc_radius g) start (start + range) (highlight_color s),
            Separator (g_width g) start inner outer sep,
            Separator (g_width g) (start + range) inner outer sep]
      else [])"

definition paint_text :: "swaylock_state \<Rightarrow> geometry \<Rightarrow> string \<Rightarrow> paint list" where
  "paint_text s g t =
     (let (tw, bearing) = w_text_extents (st_world s) t (g_arc_radius g);
          (fh, descent) = w_font_extents (st_world s) (g_arc_radius g)
      in [Show_text t (of_int (g_width g sdiv 2) - (tw / 2 + bearing))
            (of_int (g_diameter g sdiv 2) + (fh / 2 - descent)) (color_for_state s Text_set)])"

definition paint_layout :: "swaylock_state \<Rightarrow> nat \<Rightarrow> geometry \<Rightarrow> string \<Rightarrow> paint list" where
  "paint_layout s i g t =
     (let (tw, bearing) = w_text_extents (st_world s) t (g_arc_radius g);
          (fh, descent) = w_font_extents (st_world s) (g_arc_radius g);
          box_padding = 4 * of_int (sw_scale (st_surface s i)) :: rat;
          x = of_int (g_width g sdiv 2) - tw / 2 - box_padding;
          y = of_int (g_diameter g);
          colors = a_colors (st_args s)
      in [Fill_box x y (tw + 2 * box_padding) (fh + 2 * box_padding) (c_layout_background colors),
          Stroke_box x y (tw + 2 * box_padding) (fh + 2 * box_padding) (c_layout_border colors),
          Show_text t (x - bearing + box_padding) (y + (fh - descent) + box_padding) (c_layout_text colors)])"

definition paint_frame :: "swaylock_state \<Rightarrow> nat \<Rightarrow> geometry \<Rightarrow> paint list" where
  "paint_frame s i g =
     Clear_all #
     (if \<not> draws_indicator s then []
      else
        let cx = g_width g sdiv 2; cy = g_diameter g sdiv 2;
            line_width = 2 * of_int (sw_scale (st_surface s i)) :: rat;
            (text, layout_text) = indicator_texts s
        in [Fill_circle cx cy (g_arc_radius g - g_arc_thickness g sdiv 2) (color_for_state s Inside_set),
            Stroke_circle cx cy (g_arc_radius g) (of_int (g_arc_thickness g)) (color_for_state s Ring_set)]
           @ (case text of None \<Rightarrow> [] | Some t \<Rightarrow> paint_text s g t)
           @ paint_highlight s g
           @ [Stroke_circle cx cy (g_arc_radius g - g_arc_thickness g sdiv 2) line_width (color_for_state s Line_set),
              Stroke_circle cx cy (g_arc_radius g + g_arc_thickness g sdiv 2) line_width (color_for_state s Line_set)]
           @ (case layout_text of None \<Rightarrow> [] | Some t \<Rightarrow> paint_layout s i g t))"

definition render_frame :: "nat \<Rightarrow> swaylock_state \<Rightarrow> bool \<times> swaylock_state" where
  "render_frame i s =
     (let g = frame_geometry s i;
          scale = sw_scale (st_surface s i);
          (buffer, s1) = get_next_buffer i (word_of_int (g_width g)) (word_of_int (g_height g)) s
      in case buffer of
           None \<Rightarrow> (False, s1)
         | Some k \<Rightarrow>
             (True,
              emit (Surf (Indicator i) Commit)
                (emit (Surf (Indicator i) (Damage_buffer 0 0 (2 ^ 31 - 1) (2 ^ 31 - 1)))
                  (emit (Surf (Indicator i) (Attach (Some (Indicator_buffer i k)) 0 0))
                    (emit (Surf (Indicator i) (Set_buffer_scale scale))
                      (emit (Surf (Indicator i) (Subsurface_position (g_xpos g) (g_ypos g)))
                        (emit (Draw (Indicator_buffer i k) (paint_frame s i g)) s1)))))))"

subsection \<open>The render gate\<close>

definition render :: "nat \<Rightarrow> swaylock_state \<Rightarrow> swaylock_state" where
  "render i s =
     (let sf = st_surface s i in
      if sw_width sf * word_of_int (sw_scale sf) = 0 \<or> sw_height sf * word_of_int (sw_scale sf) = 0 then s
      else if \<not> sw_has_buffer sf then s
      else if \<not> sw_dirty sf \<or> sw_frame sf then s
      else
        let s1 = snd (render_frame i s);
            s2 = on_surface i (\<lambda>sf. sf\<lparr>sw_dirty := False, sw_frame := True\<rparr>) s1
        in emit (Surf (Background i) Commit) (emit (Surf (Background i) Frame_callback) s2))"

definition surface_frame_handle_done :: "nat \<Rightarrow> swaylock_state \<Rightarrow> swaylock_state" where
  "surface_frame_handle_done i s = render i (on_surface i (\<lambda>sf. sf\<lparr>sw_frame := False\<rparr>) s)"

text \<open>\<open>damage_state\<close> of main.c: every output is dirty and gets a chance to render.\<close>

definition damage_surface :: "nat \<Rightarrow> swaylock_state \<Rightarrow> swaylock_state" where
  "damage_surface i s = render i (on_surface i (\<lambda>sf. sf\<lparr>sw_dirty := True\<rparr>) s)"

definition damage_state :: "swaylock_state \<Rightarrow> swaylock_state" where
  "damage_state s = fold damage_surface (st_surfaces s) s"

subsection \<open>What drawing leaves alone\<close>

lemma quiet_update:
  assumes "quiet s s'"
  shows "quiet s (s'\<lparr>st_surface := f\<rparr>)" "quiet s (s'\<lparr>st_trace := tr\<rparr>)" "quiet s (s'\<lparr>st_world := w\<rparr>)"
proof -
  obtain f0 tr0 w0 where s': "s' = s\<lparr>st_surface := f0, st_trace := tr0, st_world := w0\<rparr>"
    using assms by (auto simp: quiet_def)
  have "s'\<lparr>st_surface := f\<rparr> = s\<lparr>st_surface := f, st_trace := tr0, st_world := w0\<rparr>"
    "s'\<lparr>st_trace := tr\<rparr> = s\<lparr>st_surface := f0, st_trace := tr, st_world := w0\<rparr>"
    "s'\<lparr>st_world := w\<rparr> = s\<lparr>st_surface := f0, st_trace := tr0, st_world := w\<rparr>"
    by (simp_all add: s')
  then show "quiet s (s'\<lparr>st_surface := f\<rparr>)" "quiet s (s'\<lparr>st_trace := tr\<rparr>)" "quiet s (s'\<lparr>st_world := w\<rparr>)"
    unfolding quiet_def by blast+
qed

text \<open>\<open>redrawn sf sf'\<close>: the same output up to its indicator buffers, its dirty flag and its
  outstanding frame callback.  \<open>draws I s s'\<close>: only outputs of \<open>I\<close> were redrawn, and the trace grew.\<close>

definition redrawn :: "swaylock_surface \<Rightarrow> swaylock_surface \<Rightarrow> bool" where
  "redrawn sf sf' \<longleftrightarrow> (\<exists>bufs d f. sf' = sf\<lparr>sw_indicator_buffers := bufs, sw_dirty := d, sw_frame := f\<rparr>)"

definition draws :: "nat set \<Rightarrow> swaylock_state \<Rightarrow> swaylock_state \<Rightarrow> bool" where
  "draws I s s' \<longleftrightarrow>
     quiet s s' \<and> (\<exists>xs. st_trace s' = st_trace s @ xs) \<and>
     (\<forall>j. redrawn (st_surface s j) (st_surface s' j)) \<and> (\<forall>j. j \<notin> I \<longrightarrow> st_surface s' j = st_surface s j)"

lemma redrawn_refl [simp]: "redrawn sf sf"
proof -
  have "sf = sf\<lparr>sw_indicator_buffers := sw_indicator_buffers sf, sw_dirty := sw_dirty sf, sw_frame := sw_frame sf\<rparr>" by simp
  then show ?thesis unfolding redrawn_def by blast
qed

lemma redrawn_trans: "redrawn a b \<Longrightarrow> redrawn b c \<Longrightarrow> redrawn a c"
  by (force simp: redrawn_def)

lemma redrawn_update:
  "redrawn sf (sf\<lparr>sw_indicator_buffers := bufs\<rparr>)" "redrawn sf (sf\<lparr>sw_dirty := d\<rparr>)" "redrawn sf (sf\<lparr>sw_frame := f\<rparr>)"
  "redrawn sf (sf\<lparr>sw_dirty := d, sw_frame := f\<rparr>)"
proof -
  have r: "redrawn sf (sf\<lparr>sw_indicator_buffers := b, sw_dirty := d, sw_frame := f\<rparr>)" for b d f
    unfolding redrawn_def by blast
  from r [where b = bufs and d = "sw_dirty sf" and f = "sw_frame sf"]
    r [where b = "sw_indicator_buffers sf" and f = "sw_frame sf"]
    r [where b = "sw_indicator_buffers sf" and d = "sw_dirty sf"] r [where b = "sw_indicator_buffers sf"]
  show "redrawn sf (sf\<lparr>sw_indicator_buffers := bufs\<rparr>)" "redrawn sf (sf\<lparr>sw_dirty := d\<rparr>)"
    "redrawn sf (sf\<lparr>sw_frame := f\<rparr>)" "redrawn sf (sf\<lparr>sw_dirty := d, sw_frame := f\<rparr>)" by simp_all
qed

lemma draws_refl [simp, intro]: "draws I s s"
  by (simp add: draws_def)

lemma draws_trans: "draws I a b \<Longrightarrow> draws I b c \<Longrightarrow> draws I a c"
  unfolding draws_def by (metis append.assoc quiet_trans redrawn_trans)

lemma draws_mono: "draws I s s' \<Longrightarrow> I \<subseteq> J \<Longrightarrow> draws J s s'"
  by (auto simp: draws_def)

lemma draws_emit [intro]: "draws I s s' \<Longrightarrow> draws I s (emit e s')"
  by (auto simp: draws_def emit_def quiet_update)

lemma draws_calls [intro]:
  "draws I s s' \<Longrightarrow> draws I s (snd (sys_ret s'))" "draws I s s' \<Longrightarrow> draws I s (snd (clock_gettime s'))"
  by (auto simp: draws_def sys_ret_def clock_gettime_def next_call_def quiet_update)

lemma draws_on_surface:
  "draws I s s' \<Longrightarrow> i \<in> I \<Longrightarrow> (\<And>sf. redrawn sf (f sf)) \<Longrightarrow> draws I s (on_surface i f s')"
  by (auto simp: draws_def on_surface_def quiet_update intro: redrawn_trans)

lemma draws_set_indicator_buffer [intro]:
  "draws I s s' \<Longrightarrow> i \<in> I \<Longrightarrow> draws I s (set_indicator_buffer i k b s')"
  unfolding set_indicator_buffer_def by (rule draws_on_surface) (auto intro: redrawn_update)

lemma draws_shm_open: "draws I s s' \<Longrightarrow> draws I s (snd (shm_open_loop n s'))"
proof (induction n s' rule: shm_open_loop.induct)
  case (2 n s')
  let ?t = "snd (sys_ret (snd (clock_gettime s')))"
  have t: "draws I s ?t" using 2(2) by (intro draws_calls)
  have "draws I s (snd (shm_open_loop n ?t))" if "0 < n" "fst (sys_ret (snd (clock_gettime s'))) = - EEXIST"
    using that t by (intro 2(1)) (auto simp: EEXIST_def prod_eq_iff)
  with t show ?case by (auto simp: split_beta Let_def)
qed simp

lemma draws_create_buffer: "draws I s s' \<Longrightarrow> draws I s (snd (create_buffer ref buf w h s'))"
  unfolding create_buffer_def anonymous_shm_open_def
  using draws_shm_open [of I s s' 100]
  by (auto simp: Let_def split_beta intro!: draws_emit draws_calls)

lemma draws_destroy_buffer: "draws I s s' \<Longrightarrow> draws I s (snd (destroy_buffer ref buf s'))"
  by (auto simp: destroy_buffer_def)

lemma draws_get_next_buffer: "i \<in> I \<Longrightarrow> draws I s s' \<Longrightarrow> draws I s (snd (get_next_buffer i w h s'))"
  by (auto simp: get_next_buffer_def Let_def split_beta split: option.split if_splits
      intro!: draws_set_indicator_buffer draws_create_buffer draws_destroy_buffer)

lemma draws_render_frame: "i \<in> I \<Longrightarrow> draws I s s' \<Longrightarrow> draws I s (snd (render_frame i s'))"
  using draws_get_next_buffer [of i I s s']
  by (auto simp: render_frame_def Let_def split_beta split: option.split intro!: draws_emit)

lemma draws_render: "i \<in> I \<Longrightarrow> draws I s s' \<Longrightarrow> draws I s (render i s')"
  using draws_render_frame [of i I s s']
  by (auto simp: render_def Let_def intro!: draws_emit draws_on_surface redrawn_update)

lemma draws_damage_surface: "i \<in> I \<Longrightarrow> draws I s s' \<Longrightarrow> draws I s (damage_surface i s')"
  unfolding damage_surface_def by (auto intro!: draws_render draws_on_surface redrawn_update)

lemma draws_damage_state: "set (st_surfaces s) \<subseteq> I \<Longrightarrow> draws I s (damage_state s)"
proof -
  have "draws I s (fold damage_surface is s')" if "set is \<subseteq> I" "draws I s s'" for "is" s'
    using that by (induction "is" arbitrary: s') (auto intro: draws_damage_surface)
  then show "set (st_surfaces s) \<subseteq> I \<Longrightarrow> draws I s (damage_state s)" by (simp add: damage_state_def)
qed

lemma drawsD:
  assumes "draws I s s'"
  shows "quiet s s'" "\<exists>xs. st_trace s' = st_trace s @ xs" "redrawn (st_surface s j) (st_surface s' j)"
    "j \<notin> I \<Longrightarrow> st_surface s' j = st_surface s j"
  using assms by (auto simp: draws_def)

lemma redrawnD:
  assumes "redrawn sf sf'"
  shows "sw_has_buffer sf' = sw_has_buffer sf" "sw_width sf' = sw_width sf" "sw_height sf' = sw_height sf"
    "sw_scale sf' = sw_scale sf" "sw_client sf' = sw_client sf" "sw_plugin_surface sf' = sw_plugin_surface sf"
    "sw_client_submission_timer sf' = sw_client_submission_timer sf" "sw_created sf' = sw_created sf"
    "sw_frame_pending sf' = sw_frame_pending sf" "sw_frame_pending_since sf' = sw_frame_pending_since sf"
    "sw_frame_last_done sf' = sw_frame_last_done sf" "sw_has_newer_serial sf' = sw_has_newer_serial sf"
    "sw_newest_serial sf' = sw_newest_serial sf" "sw_has_pending_ack_conf sf' = sw_has_pending_ack_conf sf"
    "sw_pending_upstream_serial sf' = sw_pending_upstream_serial sf"
    "sw_used_first_configure sf' = sw_used_first_configure sf"
    "sw_first_configure_serial sf' = sw_first_configure_serial sf"
  using assms by (auto simp: redrawn_def)

lemma quiet_render: "quiet s (render i s)"
  by (rule drawsD(1) [OF draws_render [of i UNIV]]) auto

lemma quiet_damage_state: "quiet s (damage_state s)"
  by (rule drawsD(1) [OF draws_damage_state [of _ UNIV]]) auto

lemmas render_simps [simp] = quietD [OF quiet_render]
lemmas damage_state_simps [simp] = quietD [OF quiet_damage_state]

lemma redrawn_render: "redrawn (st_surface s j) (st_surface (render i s) j)"
  by (rule drawsD(3) [OF draws_render [of i UNIV]]) auto

lemma redrawn_damage_state: "redrawn (st_surface s j) (st_surface (damage_state s) j)"
  by (rule drawsD(3) [OF draws_damage_state [of _ UNIV]]) auto

lemmas render_surface_simps [simp] = redrawnD [OF redrawn_render]
lemmas damage_state_surface_simps [simp] = redrawnD [OF redrawn_damage_state]

definition ready_to_render :: "nat \<Rightarrow> swaylock_state \<Rightarrow> bool" where
  "ready_to_render i s \<longleftrightarrow>
     (let sf = st_surface s i in
      sw_width sf * word_of_int (sw_scale sf) \<noteq> 0 \<and> sw_height sf * word_of_int (sw_scale sf) \<noteq> 0 \<and>
      sw_has_buffer sf \<and> sw_dirty sf \<and> \<not> sw_frame sf)"

lemma render_cases:
  "render i s =
    (if ready_to_render i s
     then emit (Surf (Background i) Commit) (emit (Surf (Background i) Frame_callback)
            (on_surface i (\<lambda>sf. sf\<lparr>sw_dirty := False, sw_frame := True\<rparr>) (snd (render_frame i s))))
     else s)"
  by (auto simp: render_def ready_to_render_def Let_def)

subsection \<open>Geometry of the buffer\<close>

lemma pad_to_scale_dvd: "scale dvd pad_to_scale scale x"
proof -
  have "pad_to_scale scale x = scale * (x sdiv scale + 1)"
    using sdiv_mult_smod_eq [of x scale] by (simp add: pad_to_scale_def algebra_simps)
  then show ?thesis by simp
qed

lemma smod_less: "0 < y \<Longrightarrow> x smod y < (y :: int)"
proof -
  assume y: "0 < y"
  have "0 \<le> - x mod y" "x mod y < y" using y by simp_all
  then have "- (- x mod y) < y" "x mod y < y" using y by linarith+
  then show ?thesis using y by (auto simp: signed_modulo_int_def sgn_if)
qed

lemma pad_to_scale_gt: "0 < scale \<Longrightarrow> x < pad_to_scale scale x"
  using smod_less [of scale x] by (simp add: pad_to_scale_def)

lemma pad_fits:
  assumes "0 < scale" and "0 \<le> r" and "trunc_rat r \<le> x"
  shows "r \<le> of_int (pad_to_scale scale x)"
proof -
  have "trunc_rat r + 1 \<le> pad_to_scale scale x" using pad_to_scale_gt [OF assms(1), of x] assms(3) by simp
  then have "of_int (trunc_rat r) + 1 \<le> (of_int (pad_to_scale scale x) :: rat)"
    by (metis of_int_1 of_int_add of_int_le_iff)
  then show ?thesis using trunc_rat_bounds [OF assms(2)] by linarith
qed

lemma trunc_rat_int: "0 \<le> x \<Longrightarrow> of_int x \<le> r \<Longrightarrow> x \<le> trunc_rat r"
proof -
  assume x: "0 \<le> x" "of_int x \<le> r"
  then have "0 \<le> r" by (meson of_int_0_le_iff order_trans)
  then show ?thesis using x by (simp add: trunc_rat_def le_floor_iff)
qed

lemma trunc_rat_le: "0 \<le> r \<Longrightarrow> r \<le> of_int x \<Longrightarrow> trunc_rat r \<le> x"
  by (simp add: trunc_rat_def floor_le_iff)

lemma needed_height_ge:
  assumes "0 \<le> diameter" "0 \<le> scale" "0 \<le> fst (w_font_extents (st_world s) r)"
  shows "diameter \<le> needed_height s scale r diameter"
  using assms by (auto simp: needed_height_def intro!: trunc_rat_int split: option.split)

lemma grow_to_ge: "0 \<le> d \<Longrightarrow> d \<le> grow_to d r" "0 \<le> r \<Longrightarrow> trunc_rat r \<le> grow_to d r"
  by (auto simp: grow_to_def intro: trunc_rat_int trunc_rat_le)

lemma needed_width_ge:
  assumes "0 \<le> diameter" "0 \<le> scale" "\<And>t. 0 \<le> fst (w_text_extents (st_world s) t r)"
  shows "diameter \<le> needed_width s scale r diameter"
    and "fst (indicator_texts s) = Some t \<Longrightarrow>
      trunc_rat (fst (w_text_extents (st_world s) t r)) \<le> needed_width s scale r diameter"
    and "snd (indicator_texts s) = Some t \<Longrightarrow>
      trunc_rat (fst (w_text_extents (st_world s) t r) + 8 * of_int scale) \<le> needed_width s scale r diameter"
proof -
  let ?tw = "\<lambda>t. fst (w_text_extents (st_world s) t r)"
  have tx: "diameter \<le> grow_to diameter (?tw t)" "trunc_rat (?tw t) \<le> grow_to diameter (?tw t)" for t
    using assms(1,3) by (auto intro: grow_to_ge)
  have pos: "0 \<le> grow_to diameter (?tw t)" for t using tx(1) [of t] assms(1) by simp
  have layout: "d \<le> grow_to d (?tw t + 8 * of_int scale)" if "0 \<le> d" for d t
    using that by (rule grow_to_ge)
  show "diameter \<le> needed_width s scale r diameter"
    using order_trans [OF tx(1) layout [OF pos]] layout [OF assms(1)] tx(1)
    by (auto simp: needed_width_def Let_def split_beta split: option.split)
  show "fst (indicator_texts s) = Some t \<Longrightarrow> trunc_rat (?tw t) \<le> needed_width s scale r diameter"
    using order_trans [OF tx(2) layout [OF pos]] tx(2)
    by (auto simp: needed_width_def Let_def split_beta split: option.split)
  have "0 \<le> ?tw t + 8 * of_int scale" using assms(2,3) by simp
  then show "snd (indicator_texts s) = Some t \<Longrightarrow> trunc_rat (?tw t + 8 * of_int scale) \<le> needed_width s scale r diameter"
    using grow_to_ge(2) by (auto simp: needed_width_def Let_def split_beta split: option.split)
qed

text \<open>The indicator buffer: for any settings, texts and font metrics both sides of the buffer are
  multiples of the buffer scale (which the protocol requires of the attached buffer), the circle fits
  into it, and so do the message and the padded layout name.\<close>

theorem indicator_buffer_size:
  assumes "0 < sw_scale (st_surface s i)"
    and "0 \<le> g_diameter (frame_geometry s i)"
    and "\<And>t r. 0 \<le> fst (w_text_extents (st_world s) t r)" and "\<And>r. 0 \<le> fst (w_font_extents (st_world s) r)"
  shows "(let g = frame_geometry s i; scale = sw_scale (st_surface s i) in
    scale dvd g_width g \<and> scale dvd g_height g \<and> g_diameter g < g_width g \<and> g_diameter g < g_height g \<and>
    (\<forall>t. fst (indicator_texts s) = Some t \<longrightarrow>
       fst (w_text_extents (st_world s) t (g_arc_radius g)) \<le> of_int (g_width g)) \<and>
    (\<forall>t. snd (indicator_texts s) = Some t \<longrightarrow>
       fst (w_text_extents (st_world s) t (g_arc_radius g)) + 8 * of_int scale \<le> of_int (g_width g)))"
proof -
  let ?g = "frame_geometry s i" and ?k = "sw_scale (st_surface s i)"
  have w: "g_width ?g = pad_to_scale ?k (needed_width s ?k (g_arc_radius ?g) (g_diameter ?g))"
    and h: "g_height ?g = pad_to_scale ?k (needed_height s ?k (g_arc_radius ?g) (g_diameter ?g))"
    by (simp_all add: frame_geometry_def Let_def)
  have k: "0 \<le> ?k" using assms(1) by simp
  note width = needed_width_ge [OF assms(2) k assms(3)]
  have "g_diameter ?g < g_width ?g" "g_diameter ?g < g_height ?g"
    unfolding w h
    using width(1) needed_height_ge [OF assms(2) k assms(4)] pad_to_scale_gt [OF assms(1)]
    by (meson le_less_trans)+
  moreover have "?k dvd g_width ?g" "?k dvd g_height ?g" by (simp_all add: w h pad_to_scale_dvd)
  moreover have "fst (w_text_extents (st_world s) t (g_arc_radius ?g)) \<le> of_int (g_width ?g)"
    if "fst (indicator_texts s) = Some t" for t
    unfolding w by (rule pad_fits [OF assms(1) assms(3) width(2) [OF that]])
  moreover have "fst (w_text_extents (st_world s) t (g_arc_radius ?g)) + 8 * of_int ?k \<le> of_int (g_width ?g)"
    if "snd (indicator_texts s) = Some t" for t
    unfolding w using assms(1,3) by (intro pad_fits [OF assms(1) _ width(3) [OF that]]) simp
  ultimately show ?thesis by (simp add: Let_def)
qed

lemma indicator_buffer_size_witness: 
  "2 dvd g_width (frame_geometry ((initial_state quiet_world [] default_args)
     \<lparr>st_surface := (\<lambda>_. zero_surface\<lparr>sw_scale := 2\<rparr>)\<rparr>) 0)"
proof -
  let ?s = "(initial_state quiet_world [] default_args)\<lparr>st_surface := (\<lambda>_. zero_surface\<lparr>sw_scale := 2\<rparr>)\<rparr>"
  have "0 \<le> g_diameter (frame_geometry ?s 0)"
    by (simp add: frame_geometry_def Let_def initial_state_def default_args_def)
  then show ?thesis using indicator_buffer_size [of ?s 0]
    by (simp add: Let_def initial_state_def quiet_world_def)
qed

subsection \<open>The other properties of drawing\<close>

lemma decimal_length: "n < 10 ^ k \<Longrightarrow> 0 < k \<Longrightarrow> length (decimal n) \<le> k"
proof (induction n arbitrary: k rule: decimal.induct)
  case (1 n)
  show ?case
  proof (cases "n < 10")
    case True
    then show ?thesis using 1(3) by (subst decimal.simps) simp
  next
    case False
    then obtain k' where k: "k = Suc k'" "0 < k'" using 1(2,3) by (cases k; cases "k - 1") auto
    have "n div 10 < 10 ^ k'" using 1(2) k(1) by (simp add: less_mult_imp_div_less)
    from 1(1) [OF False this k(2)] show ?thesis using False k by (subst decimal.simps) simp
  qed
qed

text \<open>The message about failed attempts never overruns its four-byte buffer: whatever the state,
  a text shown by the indicator is one of the fixed messages, or the decimal number of attempts in at most three
  characters (and a terminator), and it shows a number only for 1 to 999 attempts.\<close>

theorem attempts_text_fits:
  "case fst (indicator_texts s) of
     None \<Rightarrow> True
   | Some t \<Rightarrow> t \<in> {''Cleared'', ''Verifying'', ''Wrong'', ''Caps Lock'', ''999+''} \<or>
       (0 < st_failed_attempts s \<and> st_failed_attempts s \<le> 999 \<and>
        t = decimal (nat (st_failed_attempts s)) \<and> length t \<le> 3)"
proof -
  have "length (decimal (nat (st_failed_attempts s))) \<le> 3" if "st_failed_attempts s \<le> 999"
    using that by (intro decimal_length) auto
  then show ?thesis by (auto simp: indicator_texts_def Let_def)
qed

text \<open>C36. The render gate: rendering an output does nothing unless it is configured, has a background, is dirty
  and has no frame callback outstanding; when it renders, the output is clean and waits for one
  callback, the requests end with that callback's and the commit, and rendering once more before the
  callback does nothing.\<close>

theorem render_gate:
  "if ready_to_render i s
   then \<not> sw_dirty (st_surface (render i s) i) \<and> sw_frame (st_surface (render i s) i) \<and>
     (\<exists>drawing. st_trace (render i s) = st_trace s @ drawing @
        [Surf (Background i) Frame_callback, Surf (Background i) Commit]) \<and>
     render i (render i s) = render i s
   else render i s = s"
proof -
  have idle: "render i t = t" if "sw_frame (st_surface t i)" for t
    using that by (simp add: render_cases ready_to_render_def Let_def)
  have "\<exists>xs. st_trace (snd (render_frame i s)) = st_trace s @ xs"
    by (rule drawsD(2) [OF draws_render_frame [of i UNIV]]) auto
  then show ?thesis
    using idle [of "render i s"] by (auto simp: render_cases emit_def on_surface_def)
qed

end
