(* ===== verification/Timers.thy ===== *)
theory Timers
  imports Render
begin

section \<open>The timers of the program and their owners\<close>

text \<open>
  Every timer of the program is kept in one field of one structure.  \<open>owner cb s\<close> is the field that
  holds the timer with callback \<open>cb\<close> (\<open>None\<close> when the structure is gone), and \<open>timers_ok X s\<close> says
  that the event loop and the fields agree: the armed timers, apart from those of \<open>X\<close>, are exactly the ones in
  the fields.  \<open>X\<close> is empty between callbacks and holds the running timer during one.  So no timer
  is lost, armed twice, or left armed for a structure that was freed.
\<close>

fun owner :: "timer_cb \<Rightarrow> swaylock_state \<Rightarrow> nat option" where
  "owner Set_input_idle s = st_input_idle_timer s"
| "owner Set_auth_idle s = st_auth_idle_timer s"
| "owner Clear_password s = st_clear_password_timer s"
| "owner (Keyboard_repeat i) s = se_repeat_timer (st_seat s i)"
| "owner (Client_connection_timeout c) s =
     (if c \<in> set (sv_clients (st_server s)) then bc_client_connect_timer (client s c) else None)"
| "owner (Output_redraw_timeout i) s =
     (if i \<in> set (st_surfaces s) then sw_client_submission_timer (st_surface s i) else None)"
| "owner Grace_timeout s = st_grace_timer s"
| "owner Hidden_check_timeout s = st_hidden_check_timer s"

definition timers_ok :: "nat set \<Rightarrow> swaylock_state \<Rightarrow> bool" where
  "timers_ok X s \<longleftrightarrow>
     loop_ok (st_eventloop s) \<and> (\<forall>x \<in> X. x < next_timer (st_eventloop s)) \<and>
     (\<forall>cb. tmr.tracks_but X (st_eventloop s) cb (owner cb s)) \<and>
     (\<forall>cb t. owner cb s = Some t \<longrightarrow> t \<notin> X)"

text \<open>\<open>same_owners s s'\<close>: loop and fields are untouched.\<close>

definition same_owners :: "swaylock_state \<Rightarrow> swaylock_state \<Rightarrow> bool" where
  "same_owners s s' \<longleftrightarrow> st_eventloop s' = st_eventloop s \<and> (\<forall>cb. owner cb s' = owner cb s)"

lemma timers_ok_same: "same_owners s s' \<Longrightarrow> timers_ok X s \<Longrightarrow> timers_ok X s'"
  by (simp add: timers_ok_def same_owners_def)

lemma same_owners_refl [simp, intro]: "same_owners s s"
  by (simp add: same_owners_def)

lemma same_owners_trans: "same_owners a b \<Longrightarrow> same_owners b c \<Longrightarrow> same_owners a c"
  by (simp add: same_owners_def)

lemma draws_same_owners: "draws I s s' \<Longrightarrow> same_owners s s'"
proof -
  assume d: "draws I s s'"
  note q = quietD [OF drawsD(1) [OF d]]
  have "owner cb s' = owner cb s" for cb
    by (cases cb) (simp_all add: q redrawnD [OF drawsD(3) [OF d]])
  then show ?thesis by (simp add: same_owners_def q)
qed

lemma armed_next_None: "loop_ok L \<Longrightarrow> armed L (next_timer L) = None"
  using armed_lt_next [of L "next_timer L"] by (cases "armed L (next_timer L)") auto

subsection \<open>Arming, cancelling, firing\<close>

lemma timers_ok_arm:
  assumes ok: "timers_ok X s"
    and loop: "st_eventloop s' = snd (loop_add_timer now ms cb (st_eventloop s))"
    and mine: "owner cb s' = Some (next_timer (st_eventloop s))"
    and others: "\<And>cb'. cb' \<noteq> cb \<Longrightarrow> owner cb' s' = owner cb' s"
    and none: "owner cb s = None"
  shows "timers_ok X s'"
proof -
  let ?L = "st_eventloop s" and ?n = "next_timer (st_eventloop s)"
  have l: "loop_ok ?L" and x: "\<And>x. x \<in> X \<Longrightarrow> x < ?n"
    and tr: "\<And>cb. tmr.tracks_but X ?L cb (owner cb s)" and nx: "\<And>cb t. owner cb s = Some t \<Longrightarrow> t \<notin> X"
    using ok by (auto simp: timers_ok_def)
  have id: "fst (loop_add_timer now ms cb ?L) = ?n" "next_timer (snd (loop_add_timer now ms cb ?L)) = Suc ?n"
    by (simp_all add: loop_add_timer_def)
  have "tmr.tracks_but X (st_eventloop s') cb (owner cb s')"
    using tmr.add_tracks [OF l, of X cb now ms] tr [of cb] none id by (simp add: loop mine)
  moreover have "tmr.tracks_but X (st_eventloop s') cb' (owner cb' s')" if "cb' \<noteq> cb" for cb'
    using tmr.add_other [OF l tr [of cb'], of cb now ms] that others by (simp add: loop)
  ultimately have "tmr.tracks_but X (st_eventloop s') cb' (owner cb' s')" for cb'
    by (cases "cb' = cb") auto
  moreover have "t \<notin> X" if "owner cb' s' = Some t" for cb' t
    using that nx [of cb' t] others [of cb'] mine x [of ?n] by (cases "cb' = cb") auto
  moreover have "x < next_timer (st_eventloop s')" if "x \<in> X" for x
    using x [OF that] id by (simp add: loop)
  moreover have "loop_ok (st_eventloop s')" using l by (simp add: loop preserves)
  ultimately show ?thesis by (auto simp: timers_ok_def)
qed

lemma timers_ok_disarm:
  assumes ok: "timers_ok X s"
    and loop: "st_eventloop s' = snd (loop_remove_timer t (st_eventloop s))"
    and mine: "owner cb s = Some t" "owner cb s' = None"
    and others: "\<And>cb'. cb' \<noteq> cb \<Longrightarrow> owner cb' s' = owner cb' s"
  shows "timers_ok X s'"
proof -
  let ?L = "st_eventloop s"
  have l: "loop_ok ?L" and x: "\<And>x. x \<in> X \<Longrightarrow> x < next_timer ?L"
    and tr: "\<And>cb. tmr.tracks_but X ?L cb (owner cb s)" and nx: "\<And>cb t. owner cb s = Some t \<Longrightarrow> t \<notin> X"
    using ok by (auto simp: timers_ok_def)
  have tX: "t \<notin> X" using nx mine(1) by blast
  have armed_t: "armed ?L t = Some cb" using tr [of cb] tX mine(1) by (simp add: tmr.tracks_but_def)
  have at: "(armed ?L k = Some c) = (owner c s = Some k)" if "k \<notin> X" for c k
    using tr [of c] that by (simp add: tmr.tracks_but_def)
  have apart: "owner cb' s \<noteq> Some t" if "cb' \<noteq> cb" for cb'
    using at [OF tX, of cb'] armed_t that by simp
  have "tmr.tracks_but X (st_eventloop s') cb' (owner cb' s')" for cb'
    using mine apart [of cb'] others [of cb']
    by (cases "cb' = cb") (auto simp: tmr.tracks_but_def loop armed_remove_timer at)
  moreover have "t' \<notin> X" if "owner cb' s' = Some t'" for cb' t'
    using that nx [of cb' t'] others [of cb'] mine by (cases "cb' = cb") auto
  moreover have "next_timer (st_eventloop s') = next_timer ?L"
    by (simp add: loop loop_remove_timer_def split_beta)
  moreover have "loop_ok (st_eventloop s')" using l by (simp add: loop preserves)
  ultimately show ?thesis using x by (auto simp: timers_ok_def)
qed

text \<open>A callback starts: its own field no longer names the timer.\<close>

lemma timers_ok_fire:
  assumes ok: "timers_ok X s" and armed: "armed (st_eventloop s) t = Some cb" "t \<notin> X"
    and loop: "st_eventloop s' = st_eventloop s" and mine: "owner cb s' = None"
    and others: "\<And>cb'. cb' \<noteq> cb \<Longrightarrow> owner cb' s' = owner cb' s"
  shows "timers_ok (insert t X) s'"
proof -
  let ?L = "st_eventloop s"
  have l: "loop_ok ?L" and x: "\<And>x. x \<in> X \<Longrightarrow> x < next_timer ?L"
    and tr: "\<And>cb. tmr.tracks_but X ?L cb (owner cb s)" and nx: "\<And>cb t. owner cb s = Some t \<Longrightarrow> t \<notin> X"
    using ok by (auto simp: timers_ok_def)
  have at: "(armed ?L k = Some c) = (owner c s = Some k)" if "k \<notin> X" for c k
    using tr [of c] that by (simp add: tmr.tracks_but_def)
  have none: "owner cb' s' \<noteq> Some k" if "k \<in> insert t X" for cb' k
    using that others [of cb'] mine nx [of cb' k] at [OF armed(2), of cb'] armed(1) by (cases "cb' = cb") auto
  moreover have "tmr.tracks_but (insert t X) (st_eventloop s') cb' (owner cb' s')" for cb'
  proof (cases "cb' = cb")
    case True
    have "owner cb s = Some t" using at [OF armed(2), of cb] armed(1) by simp
    then show ?thesis using True at [of _ cb] mine by (auto simp: tmr.tracks_but_def loop)
  qed (use at others in \<open>auto simp: tmr.tracks_but_def loop\<close>)
  moreover have "t < next_timer ?L" using armed_lt_next [OF l armed(1)] .
  ultimately show ?thesis using l x by (auto simp: timers_ok_def loop)
qed

lemma owner_on_loop [simp]: "owner cb (on_loop f s) = owner cb s"
  by (cases cb) (simp_all add: on_loop_def)

lemma st_eventloop_on_loop [simp]: "st_eventloop (on_loop f s) = f (st_eventloop s)"
  by (simp add: on_loop_def)

text \<open>A change of the loop that concerns no timer outside \<open>X\<close>.\<close>

lemma timers_ok_on_loop:
  assumes "timers_ok X s" and "loop_ok (st_eventloop s) \<Longrightarrow> loop_ok (f (st_eventloop s))"
    and "next_timer (f (st_eventloop s)) = next_timer (st_eventloop s)"
    and "\<And>t. t \<notin> X \<Longrightarrow> armed (f (st_eventloop s)) t = armed (st_eventloop s) t"
  shows "timers_ok X (on_loop f s)"
  using assms by (auto simp: timers_ok_def tmr.tracks_but_def)

lemma timers_ok_free:
  assumes "timers_ok X s" and "t \<in> X \<or> armed (st_eventloop s) t = None"
  shows "timers_ok X (on_loop (free_timer t) s)"
proof (rule timers_ok_on_loop [OF assms(1) loop_ok_free_timer])
  show "armed (free_timer t (st_eventloop s)) k = armed (st_eventloop s) k" if "k \<notin> X" for k
    using assms(2) that by (auto simp: armed_free_timer)
qed (simp_all add: free_timer_def)

subsection \<open>The operations of the code on a timer field\<close>

lemma add_timer_loop:
  "st_eventloop (snd (add_timer ms cb s)) =
     snd (loop_add_timer (w_time (st_world s) (w_calls (st_world s))) ms cb (st_eventloop s))"
  "fst (add_timer ms cb s) = next_timer (st_eventloop s)"
  by (simp_all add: add_timer_def clock_gettime_def next_call_def loop_add_timer_def)

lemma add_timer_frame [simp]:
  "st_input_idle_timer (snd (add_timer ms cb s)) = st_input_idle_timer s"
  "st_auth_idle_timer (snd (add_timer ms cb s)) = st_auth_idle_timer s"
  "st_clear_password_timer (snd (add_timer ms cb s)) = st_clear_password_timer s"
  "st_hidden_check_timer (snd (add_timer ms cb s)) = st_hidden_check_timer s"
  "st_grace_timer (snd (add_timer ms cb s)) = st_grace_timer s"
  "st_surfaces (snd (add_timer ms cb s)) = st_surfaces s"
  "st_surface (snd (add_timer ms cb s)) = st_surface s"
  "st_seat (snd (add_timer ms cb s)) = st_seat s"
  "st_images (snd (add_timer ms cb s)) = st_images s"
  "st_args (snd (add_timer ms cb s)) = st_args s"
  "st_password (snd (add_timer ms cb s)) = st_password s"
  "st_xkb (snd (add_timer ms cb s)) = st_xkb s"
  "st_auth_state (snd (add_timer ms cb s)) = st_auth_state s"
  "st_input_state (snd (add_timer ms cb s)) = st_input_state s"
  "st_highlight_start (snd (add_timer ms cb s)) = st_highlight_start s"
  "st_failed_attempts (snd (add_timer ms cb s)) = st_failed_attempts s"
  "st_run_display (snd (add_timer ms cb s)) = st_run_display s"
  "st_locked (snd (add_timer ms cb s)) = st_locked s"
  "st_server (snd (add_timer ms cb s)) = st_server s"
  "st_forward (snd (add_timer ms cb s)) = st_forward s"
  "st_start_clientless_mode (snd (add_timer ms cb s)) = st_start_clientless_mode s"
  "st_sleep_comm_r (snd (add_timer ms cb s)) = st_sleep_comm_r s"
  "st_sleep_comm_w (snd (add_timer ms cb s)) = st_sleep_comm_w s"
  "st_stale_wl_output_resources (snd (add_timer ms cb s)) = st_stale_wl_output_resources s"
  "st_stale_xdg_output_resources (snd (add_timer ms cb s)) = st_stale_xdg_output_resources s"
  "st_stale_color_output_resources (snd (add_timer ms cb s)) = st_stale_color_output_resources s"
  "st_trace (snd (add_timer ms cb s)) = st_trace s"
  "st_halt (snd (add_timer ms cb s)) = st_halt s"
  by (simp_all add: add_timer_def clock_gettime_def next_call_def loop_add_timer_def)

lemma remove_timer_frame [simp]:
  "st_input_idle_timer (remove_timer t s) = st_input_idle_timer s"
  "st_auth_idle_timer (remove_timer t s) = st_auth_idle_timer s"
  "st_clear_password_timer (remove_timer t s) = st_clear_password_timer s"
  "st_hidden_check_timer (remove_timer t s) = st_hidden_check_timer s"
  "st_grace_timer (remove_timer t s) = st_grace_timer s"
  "st_surfaces (remove_timer t s) = st_surfaces s"
  "st_surface (remove_timer t s) = st_surface s"
  "st_seat (remove_timer t s) = st_seat s"
  "st_images (remove_timer t s) = st_images s"
  "st_args (remove_timer t s) = st_args s"
  "st_password (remove_timer t s) = st_password s"
  "st_xkb (remove_timer t s) = st_xkb s"
  "st_auth_state (remove_timer t s) = st_auth_state s"
  "st_input_state (remove_timer t s) = st_input_state s"
  "st_highlight_start (remove_timer t s) = st_highlight_start s"
  "st_failed_attempts (remove_timer t s) = st_failed_attempts s"
  "st_run_display (remove_timer t s) = st_run_display s"
  "st_locked (remove_timer t s) = st_locked s"
  "st_server (remove_timer t s) = st_server s"
  "st_forward (remove_timer t s) = st_forward s"
  "st_start_clientless_mode (remove_timer t s) = st_start_clientless_mode s"
  "st_sleep_comm_r (remove_timer t s) = st_sleep_comm_r s"
  "st_sleep_comm_w (remove_timer t s) = st_sleep_comm_w s"
  "st_stale_wl_output_resources (remove_timer t s) = st_stale_wl_output_resources s"
  "st_stale_xdg_output_resources (remove_timer t s) = st_stale_xdg_output_resources s"
  "st_stale_color_output_resources (remove_timer t s) = st_stale_color_output_resources s"
  "st_world (remove_timer t s) = st_world s"
  "st_trace (remove_timer t s) = st_trace s"
  "st_halt (remove_timer t s) = st_halt s"
  by (simp_all add: remove_timer_def on_loop_def)

lemma remove_timer_loop: "st_eventloop (remove_timer t s) = snd (loop_remove_timer t (st_eventloop s))"
  by (simp add: remove_timer_def)

lemma owner_add_timer [simp]: "owner cb' (snd (add_timer ms cb s)) = owner cb' s"
  by (cases cb') simp_all

lemma owner_remove_timer [simp]: "owner cb' (remove_timer t s) = owner cb' s"
  by (cases cb') simp_all

text \<open>Cancelling whatever the field holds and arming again.\<close>

lemma timers_ok_rearm:
  assumes ok: "timers_ok X s"
    and loop: "st_eventloop s' = snd (loop_add_timer now ms cb (tmr.disarm (owner cb s) (st_eventloop s)))"
    and mine: "owner cb s' = Some (next_timer (st_eventloop s))"
    and others: "\<And>cb'. cb' \<noteq> cb \<Longrightarrow> owner cb' s' = owner cb' s"
  shows "timers_ok X s'"
proof -
  let ?L = "st_eventloop s" and ?n = "next_timer (st_eventloop s)"
  let ?M = "tmr.disarm (owner cb s) ?L"
  have l: "loop_ok ?L" and x: "\<And>x. x \<in> X \<Longrightarrow> x < ?n"
    and tr: "\<And>cb. tmr.tracks_but X ?L cb (owner cb s)" and nx: "\<And>cb t. owner cb s = Some t \<Longrightarrow> t \<notin> X"
    using ok by (auto simp: timers_ok_def)
  have at: "(armed ?L k = Some c) = (owner c s = Some k)" if "k \<notin> X" for c k
    using tr [of c] that by (simp add: tmr.tracks_but_def)
  have m: "next_timer ?M = ?n"
    by (auto simp: tmr.disarm_def loop_remove_timer_def split_beta split: option.split)
  have id: "fst (loop_add_timer now ms cb ?M) = ?n" "next_timer (snd (loop_add_timer now ms cb ?M)) = Suc ?n"
    by (simp_all add: loop_add_timer_def m)
  have okM: "loop_ok ?M" by (rule tmr.disarm_ok [OF l])
  have "tmr.tracks_but X (st_eventloop s') cb (owner cb s')"
    using tmr.rearm_tracks [OF l tr [of cb], of now ms] id by (simp add: loop mine)
  moreover have "tmr.tracks_but X (st_eventloop s') cb' (owner cb' s')" if neq: "cb' \<noteq> cb" for cb'
  proof -
    have "owner cb' s \<noteq> Some t \<and> t \<notin> X" if "owner cb s = Some t" for t
      using nx [OF that] at [of t cb] at [of t cb'] that neq by auto
    then have "tmr.tracks_but X ?M cb' (owner cb' s)" by (intro tmr.disarm_other [OF l tr]) auto
    from tmr.add_other [OF okM this, of cb now ms] neq show ?thesis by (simp add: loop others)
  qed
  ultimately have "tmr.tracks_but X (st_eventloop s') cb' (owner cb' s')" for cb'
    by (cases "cb' = cb") auto
  moreover have "t \<notin> X" if "owner cb' s' = Some t" for cb' t
    using that nx [of cb' t] others [of cb'] mine x [of ?n] by (cases "cb' = cb") auto
  moreover have "x < next_timer (st_eventloop s')" if "x \<in> X" for x
    using x [OF that] id by (simp add: loop)
  moreover have "loop_ok (st_eventloop s')" using okM by (simp add: loop preserves)
  ultimately show ?thesis by (auto simp: timers_ok_def)
qed

lemma same_owners_sym: "same_owners a b \<Longrightarrow> same_owners b a"
  by (simp add: same_owners_def)

lemma timers_ok_draws: "draws I s s' \<Longrightarrow> timers_ok X s' = timers_ok X s"
  using timers_ok_same draws_same_owners same_owners_sym by blast

lemma timers_ok_damage [simp]: "timers_ok X (damage_state s) = timers_ok X s"
  by (rule timers_ok_draws [OF draws_damage_state [of s UNIV]]) simp

lemma timers_ok_render [simp]: "timers_ok X (render i s) = timers_ok X s"
  by (rule timers_ok_draws [OF draws_render [of i UNIV]]) auto

lemma timers_ok_initial: "timers_ok {} (initial_state w mem args)"
proof -
  have "owner cb (initial_state w mem args) = None" for cb by (cases cb) (simp_all add: initial_state_def zero_seat_def zero_client_def zero_surface_def)
  then show ?thesis by (simp add: timers_ok_def tmr.tracks_but_def loop_ok_def initial_state_def loop_create_def armed_def find_timer_def)
qed

end
