(* ===== verification/Pause.thy ===== *)
theory Pause
  imports Timers
begin

section \<open>Stopping plugin clients of dark outputs (main.c)\<close>

text \<open>
  The \<open>--pause-when-hidden\<close> machinery of main.c: \<open>set_client_paused\<close>, \<open>resume_all_clients\<close>,
  \<open>client_for_surface\<close>, \<open>resume_client_for_surface\<close>, \<open>client_is_hidden\<close> and the periodic check.
\<close>

definition SIGSTOP :: int where "SIGSTOP = 19"
definition SIGCONT :: int where "SIGCONT = 18"

definition ms_since :: "timespec \<Rightarrow> timespec \<Rightarrow> int" where
  "ms_since now since = (tv_sec now - tv_sec since) * 1000 + (tv_nsec now - tv_nsec since) sdiv 1000000"

definition set_client_paused :: "nat option \<Rightarrow> bool \<Rightarrow> swaylock_state \<Rightarrow> swaylock_state" where
  "set_client_paused bg_client paused s =
     (case bg_client of
        None \<Rightarrow> s
      | Some c \<Rightarrow>
          if bc_pid (client s c) \<le> 0 \<or> bc_paused (client s c) = paused then s
          else
            let (r, s1) = sys_ret s;
                s2 = emit (Sys (Kill (- bc_pid (client s c)) (if paused then SIGSTOP else SIGCONT))) s1
            in if r \<noteq> 0 then s2 else on_client c (\<lambda>b. b\<lparr>bc_paused := paused\<rparr>) s2)"

definition resume_all_clients :: "swaylock_state \<Rightarrow> swaylock_state" where
  "resume_all_clients s = fold (\<lambda>c. set_client_paused (Some c) False) (sv_clients (st_server s)) s"

definition client_for_surface :: "swaylock_state \<Rightarrow> nat option \<Rightarrow> nat option" where
  "client_for_surface s surface =
     (case surface of
        None \<Rightarrow> None
      | Some i \<Rightarrow>
          (case sw_client (st_surface s i) of
             Some c \<Rightarrow> Some c
           | None \<Rightarrow> sv_main_client (st_server s)))"

definition resume_client_for_surface :: "nat \<Rightarrow> swaylock_state \<Rightarrow> swaylock_state" where
  "resume_client_for_surface i s =
     (case client_for_surface s (Some i) of
        None \<Rightarrow> s
      | Some c \<Rightarrow> if bc_paused (client s c) then set_client_paused (Some c) False s else s)"

text \<open>The scan over the outputs, which stops at the first output that is presented or not late enough.  Each age is
  taken at its own clock reading.\<close>

fun hidden_scan :: "nat list \<Rightarrow> nat \<Rightarrow> bool \<Rightarrow> swaylock_state \<Rightarrow> bool \<times> swaylock_state" where
  "hidden_scan [] c any_stale s = (any_stale, s)"
| "hidden_scan (i # is) c any_stale s =
     (let sf = st_surface s i; timeout = a_hidden_timeout_ms (st_args s) in
      if client_for_surface s (Some i) \<noteq> Some c then hidden_scan is c any_stale s
      else if sw_frame_pending sf then
        (let (now, s1) = clock_gettime s in
         if ms_since now (sw_frame_pending_since sf) \<ge> timeout then hidden_scan is c True s1 else (False, s1))
      else if tv_sec (sw_frame_last_done sf) \<noteq> 0 then
        (let (now, s1) = clock_gettime s in
         if ms_since now (sw_frame_last_done sf) < timeout then (False, s1) else hidden_scan is c any_stale s1)
      else hidden_scan is c any_stale s)"

definition client_is_hidden :: "nat \<Rightarrow> swaylock_state \<Rightarrow> bool \<times> swaylock_state" where
  "client_is_hidden c s = hidden_scan (st_surfaces s) c False s"

definition arm_hidden_check :: "swaylock_state \<Rightarrow> swaylock_state" where
  "arm_hidden_check s =
     (if \<not> a_pause_when_hidden (st_args s) then s
      else let (t, s1) = add_timer 1000 Hidden_check_timeout s
           in s1\<lparr>st_hidden_check_timer := Some t\<rparr>)"

definition check_client :: "nat \<Rightarrow> swaylock_state \<Rightarrow> swaylock_state" where
  "check_client c s = (let (hidden, s1) = client_is_hidden c s in set_client_paused (Some c) hidden s1)"

definition hidden_check_timeout :: "swaylock_state \<Rightarrow> swaylock_state" where
  "hidden_check_timeout s =
     (let s1 = s\<lparr>st_hidden_check_timer := None\<rparr>
      in arm_hidden_check (fold check_client (sv_clients (st_server s1)) s1))"

subsection \<open>Frames\<close>

lemma set_client_paused_frame [simp]:
  "st_eventloop (set_client_paused c p s) = st_eventloop s"
  "st_input_idle_timer (set_client_paused c p s) = st_input_idle_timer s"
  "st_auth_idle_timer (set_client_paused c p s) = st_auth_idle_timer s"
  "st_clear_password_timer (set_client_paused c p s) = st_clear_password_timer s"
  "st_hidden_check_timer (set_client_paused c p s) = st_hidden_check_timer s"
  "st_grace_timer (set_client_paused c p s) = st_grace_timer s"
  "st_surfaces (set_client_paused c p s) = st_surfaces s"
  "st_surface (set_client_paused c p s) = st_surface s"
  "st_seat (set_client_paused c p s) = st_seat s"
  "st_images (set_client_paused c p s) = st_images s"
  "st_args (set_client_paused c p s) = st_args s"
  "st_password (set_client_paused c p s) = st_password s"
  "st_xkb (set_client_paused c p s) = st_xkb s"
  "st_auth_state (set_client_paused c p s) = st_auth_state s"
  "st_input_state (set_client_paused c p s) = st_input_state s"
  "st_highlight_start (set_client_paused c p s) = st_highlight_start s"
  "st_failed_attempts (set_client_paused c p s) = st_failed_attempts s"
  "st_run_display (set_client_paused c p s) = st_run_display s"
  "st_locked (set_client_paused c p s) = st_locked s"
  "st_forward (set_client_paused c p s) = st_forward s"
  "st_start_clientless_mode (set_client_paused c p s) = st_start_clientless_mode s"
  "st_sleep_comm_r (set_client_paused c p s) = st_sleep_comm_r s"
  "st_sleep_comm_w (set_client_paused c p s) = st_sleep_comm_w s"
  "st_stale_wl_output_resources (set_client_paused c p s) = st_stale_wl_output_resources s"
  "st_stale_xdg_output_resources (set_client_paused c p s) = st_stale_xdg_output_resources s"
  "st_stale_color_output_resources (set_client_paused c p s) = st_stale_color_output_resources s"
  "st_halt (set_client_paused c p s) = st_halt s"
  by (simp_all add: set_client_paused_def sys_ret_def next_call_def emit_def on_client_def on_server_def Let_def split: option.split)

lemma set_client_paused_server [simp]:
  "sv_display (st_server (set_client_paused c p s)) = sv_display (st_server s)"
  "sv_clients (st_server (set_client_paused c p s)) = sv_clients (st_server s)"
  "sv_main_client (st_server (set_client_paused c p s)) = sv_main_client (st_server s)"
  "sv_next_client (st_server (set_client_paused c p s)) = sv_next_client (st_server s)"
  "bc_serial (client (set_client_paused c p s) d) = bc_serial (client s d)"
  "bc_client (client (set_client_paused c p s) d) = bc_client (client s d)"
  "bc_unique_output (client (set_client_paused c p s) d) = bc_unique_output (client s d)"
  "bc_pid (client (set_client_paused c p s) d) = bc_pid (client s d)"
  "bc_made_a_registry (client (set_client_paused c p s) d) = bc_made_a_registry (client s d)"
  "bc_client_connect_timer (client (set_client_paused c p s) d) = bc_client_connect_timer (client s d)"
  "bc_resource_create_listening (client (set_client_paused c p s) d) = bc_resource_create_listening (client s d)"
  "bc_destroy_listening (client (set_client_paused c p s) d) = bc_destroy_listening (client s d)"
  by (simp_all add: set_client_paused_def sys_ret_def next_call_def emit_def on_client_def on_server_def Let_def split: option.split)

lemma set_client_paused_paused:
  "bc_paused (client (set_client_paused (Some c) p s) d) =
    (if d = c \<and> 0 < bc_pid (client s c) \<and> w_ret (st_world s) (w_calls (st_world s)) = 0 then p
     else bc_paused (client s d))"
  by (auto simp: set_client_paused_def sys_ret_def next_call_def emit_def on_client_def on_server_def Let_def)

lemma set_client_paused_ret [simp]: "w_ret (st_world (set_client_paused c p s)) = w_ret (st_world s)"
  "w_time (st_world (set_client_paused c p s)) = w_time (st_world s)"
  by (simp_all add: set_client_paused_def sys_ret_def next_call_def emit_def on_client_def on_server_def Let_def
      split: option.split)

lemma set_client_paused_owners [simp]: "timers_ok X (set_client_paused c p s) = timers_ok X s"
proof -
  have "owner cb (set_client_paused c p s) = owner cb s" for cb by (cases cb) simp_all
  then show ?thesis by (simp add: timers_ok_def)
qed

lemma client_for_surface_frame [simp]:
  "client_for_surface (set_client_paused c p s) i = client_for_surface s i"
  by (simp add: client_for_surface_def split: option.split)

subsection \<open>Deciding that a client is hidden\<close>

text \<open>The verdict in one clock reading: some output of the client has waited too long for its frame callback,
  and none was presented recently or waits only for a short time.\<close>

definition frame_age_small :: "swaylock_state \<Rightarrow> timespec \<Rightarrow> timespec \<Rightarrow> bool" where
  "frame_age_small s now since \<longleftrightarrow> ms_since now since < a_hidden_timeout_ms (st_args s)"

definition output_dark :: "swaylock_state \<Rightarrow> timespec \<Rightarrow> nat \<Rightarrow> bool" where
  "output_dark s now i \<longleftrightarrow>
     sw_frame_pending (st_surface s i) \<and> \<not> frame_age_small s now (sw_frame_pending_since (st_surface s i))"

definition output_visible :: "swaylock_state \<Rightarrow> timespec \<Rightarrow> nat \<Rightarrow> bool" where
  "output_visible s now i \<longleftrightarrow>
     (if sw_frame_pending (st_surface s i) then frame_age_small s now (sw_frame_pending_since (st_surface s i))
      else tv_sec (sw_frame_last_done (st_surface s i)) \<noteq> 0 \<and>
           frame_age_small s now (sw_frame_last_done (st_surface s i)))"

definition outputs_of :: "swaylock_state \<Rightarrow> nat \<Rightarrow> nat list" where
  "outputs_of s c = filter (\<lambda>i. client_for_surface s (Some i) = Some c) (st_surfaces s)"

lemma next_call_view [simp]:
  "st_surface (next_call s) = st_surface s" "st_args (next_call s) = st_args s"
  "client_for_surface (next_call s) i = client_for_surface s i"
  "w_time (st_world (next_call s)) = w_time (st_world s)" "w_ret (st_world (next_call s)) = w_ret (st_world s)"
  by (simp_all add: next_call_def client_for_surface_def split: option.split)

lemma hidden_scan_spec:
  assumes "w_time (st_world s) = (\<lambda>_. now)"
  shows "fst (hidden_scan is c stale s) \<longleftrightarrow>
    (stale \<or> (\<exists>i \<in> set is. client_for_surface s (Some i) = Some c \<and> output_dark s now i)) \<and>
    (\<forall>i \<in> set is. client_for_surface s (Some i) = Some c \<longrightarrow> \<not> output_visible s now i)"
  using assms
proof (induction "is" arbitrary: stale s)
  case (Cons i "is")
  have same: "output_dark (next_call s) now j = output_dark s now j"
      "output_visible (next_call s) now j = output_visible s now j" for j
    by (simp_all add: output_dark_def output_visible_def frame_age_small_def)
  note here = Cons.IH [OF Cons.prems] and later = Cons.IH [of "next_call s"]
  show ?case
    using Cons.prems here later
    by (cases "client_for_surface s (Some i) = Some c"; cases "sw_frame_pending (st_surface s i)")
       (auto simp: clock_gettime_def Let_def same output_dark_def output_visible_def frame_age_small_def not_less
         simp del: ball_simps bex_simps)
qed simp

text \<open>C13. When a client counts as hidden: reading the clock once, exactly when one of its outputs has been waiting for a
  frame callback for at least the configured time and none of its outputs was presented, or started waiting, more recently than
  that; in particular a client with no output waiting (an idle one) is never hidden.\<close>

theorem client_is_hidden_iff:
  assumes "w_time (st_world s) = (\<lambda>_. now)"
  shows "fst (client_is_hidden c s) \<longleftrightarrow>
    (\<exists>i \<in> set (outputs_of s c). output_dark s now i) \<and>
    (\<forall>i \<in> set (outputs_of s c). \<not> output_visible s now i)"
  by (auto simp: client_is_hidden_def outputs_of_def hidden_scan_spec [OF assms])

lemma client_is_hidden_iff_witness:
  "fst (client_is_hidden 0 ((initial_state (quiet_world\<lparr>w_time := (\<lambda>_. \<lparr>tv_sec = 10, tv_nsec = 0\<rparr>)\<rparr>) [] default_args)
     \<lparr>st_surfaces := [0], st_surface := (\<lambda>_. zero_surface\<lparr>sw_frame_pending := True, sw_client := Some 0\<rparr>)\<rparr>))"
  by (subst client_is_hidden_iff [where now = "\<lparr>tv_sec = 10, tv_nsec = 0\<rparr>"])
     (simp_all add: initial_state_def quiet_world_def outputs_of_def client_for_surface_def zero_surface_def
       output_dark_def output_visible_def frame_age_small_def ms_since_def default_args_def zero_time_def)

subsection \<open>Sequences of pausing steps\<close>

text \<open>\<open>repaused s s'\<close>: only the paused marks of clients, the trace and the call count differ.\<close>

definition pausing_core :: "swaylock_state \<Rightarrow> swaylock_state" where
  "pausing_core s = s\<lparr>
     st_server := (st_server s)\<lparr>sv_client := (\<lambda>c. (client s c)\<lparr>bc_paused := False\<rparr>)\<rparr>,
     st_world := (st_world s)\<lparr>w_calls := 0\<rparr>, st_trace := []\<rparr>"

definition repaused :: "swaylock_state \<Rightarrow> swaylock_state \<Rightarrow> bool" where
  "repaused s s' \<longleftrightarrow> pausing_core s' = pausing_core s"

lemma repaused_refl [simp, intro]: "repaused s s"
  by (simp add: repaused_def)

lemma repaused_trans: "repaused a b \<Longrightarrow> repaused b c \<Longrightarrow> repaused a c"
  by (simp add: repaused_def)

lemma repaused_next_call: "repaused s (next_call s)"
  by (simp add: repaused_def pausing_core_def next_call_def)

lemma repaused_set: "repaused s (set_client_paused c p s)"
  by (auto simp: repaused_def pausing_core_def set_client_paused_def sys_ret_def Let_def on_client_def
      on_server_def emit_def next_call_def fun_eq_iff split: option.split)

lemma repausedD:
  assumes "repaused s s'"
  shows
    "st_eventloop s' = st_eventloop s"
    "st_input_idle_timer s' = st_input_idle_timer s"
    "st_auth_idle_timer s' = st_auth_idle_timer s"
    "st_clear_password_timer s' = st_clear_password_timer s"
    "st_hidden_check_timer s' = st_hidden_check_timer s"
    "st_grace_timer s' = st_grace_timer s"
    "st_surfaces s' = st_surfaces s"
    "st_surface s' = st_surface s"
    "st_seat s' = st_seat s"
    "st_images s' = st_images s"
    "st_args s' = st_args s"
    "st_password s' = st_password s"
    "st_xkb s' = st_xkb s"
    "st_auth_state s' = st_auth_state s"
    "st_input_state s' = st_input_state s"
    "st_highlight_start s' = st_highlight_start s"
    "st_failed_attempts s' = st_failed_attempts s"
    "st_run_display s' = st_run_display s"
    "st_locked s' = st_locked s"
    "st_forward s' = st_forward s"
    "st_start_clientless_mode s' = st_start_clientless_mode s"
    "st_sleep_comm_r s' = st_sleep_comm_r s"
    "st_sleep_comm_w s' = st_sleep_comm_w s"
    "st_stale_wl_output_resources s' = st_stale_wl_output_resources s"
    "st_stale_xdg_output_resources s' = st_stale_xdg_output_resources s"
    "st_stale_color_output_resources s' = st_stale_color_output_resources s"
    "st_halt s' = st_halt s"
    "w_ret (st_world s') = w_ret (st_world s)" "w_time (st_world s') = w_time (st_world s)"
    "sv_display (st_server s') = sv_display (st_server s)"
    "sv_clients (st_server s') = sv_clients (st_server s)"
    "sv_main_client (st_server s') = sv_main_client (st_server s)"
    "sv_next_client (st_server s') = sv_next_client (st_server s)"
    "bc_serial (client s' d) = bc_serial (client s d)"
    "bc_client (client s' d) = bc_client (client s d)"
    "bc_unique_output (client s' d) = bc_unique_output (client s d)"
    "bc_pid (client s' d) = bc_pid (client s d)"
    "bc_made_a_registry (client s' d) = bc_made_a_registry (client s d)"
    "bc_client_connect_timer (client s' d) = bc_client_connect_timer (client s d)"
    "bc_resource_create_listening (client s' d) = bc_resource_create_listening (client s d)"
    "bc_destroy_listening (client s' d) = bc_destroy_listening (client s d)"
    "timers_ok X s' = timers_ok X s"
    "client_for_surface s' i = client_for_surface s i"
proof -
  note eq = assms [unfolded repaused_def]
  show st:
    "st_eventloop s' = st_eventloop s"
    "st_input_idle_timer s' = st_input_idle_timer s"
    "st_auth_idle_timer s' = st_auth_idle_timer s"
    "st_clear_password_timer s' = st_clear_password_timer s"
    "st_hidden_check_timer s' = st_hidden_check_timer s"
    "st_grace_timer s' = st_grace_timer s"
    "st_surfaces s' = st_surfaces s"
    "st_surface s' = st_surface s"
    "st_seat s' = st_seat s"
    "st_images s' = st_images s"
    "st_args s' = st_args s"
    "st_password s' = st_password s"
    "st_xkb s' = st_xkb s"
    "st_auth_state s' = st_auth_state s"
    "st_input_state s' = st_input_state s"
    "st_highlight_start s' = st_highlight_start s"
    "st_failed_attempts s' = st_failed_attempts s"
    "st_run_display s' = st_run_display s"
    "st_locked s' = st_locked s"
    "st_forward s' = st_forward s"
    "st_start_clientless_mode s' = st_start_clientless_mode s"
    "st_sleep_comm_r s' = st_sleep_comm_r s"
    "st_sleep_comm_w s' = st_sleep_comm_w s"
    "st_stale_wl_output_resources s' = st_stale_wl_output_resources s"
    "st_stale_xdg_output_resources s' = st_stale_xdg_output_resources s"
    "st_stale_color_output_resources s' = st_stale_color_output_resources s"
    "st_halt s' = st_halt s"
    and "w_ret (st_world s') = w_ret (st_world s)" "w_time (st_world s') = w_time (st_world s)"
    using arg_cong [OF eq, of st_eventloop]
      arg_cong [OF eq, of st_input_idle_timer]
      arg_cong [OF eq, of st_auth_idle_timer]
      arg_cong [OF eq, of st_clear_password_timer]
      arg_cong [OF eq, of st_hidden_check_timer]
      arg_cong [OF eq, of st_grace_timer]
      arg_cong [OF eq, of st_surfaces]
      arg_cong [OF eq, of st_surface]
      arg_cong [OF eq, of st_seat]
      arg_cong [OF eq, of st_images]
      arg_cong [OF eq, of st_args]
      arg_cong [OF eq, of st_password]
      arg_cong [OF eq, of st_xkb]
      arg_cong [OF eq, of st_auth_state]
      arg_cong [OF eq, of st_input_state]
      arg_cong [OF eq, of st_highlight_start]
      arg_cong [OF eq, of st_failed_attempts]
      arg_cong [OF eq, of st_run_display]
      arg_cong [OF eq, of st_locked]
      arg_cong [OF eq, of st_forward]
      arg_cong [OF eq, of st_start_clientless_mode]
      arg_cong [OF eq, of st_sleep_comm_r]
      arg_cong [OF eq, of st_sleep_comm_w]
      arg_cong [OF eq, of st_stale_wl_output_resources]
      arg_cong [OF eq, of st_stale_xdg_output_resources]
      arg_cong [OF eq, of st_stale_color_output_resources]
      arg_cong [OF eq, of st_halt]
      arg_cong [OF eq, of "w_ret \<circ> st_world"] arg_cong [OF eq, of "w_time \<circ> st_world"]
    by (simp_all add: pausing_core_def)
  show sv:
    "sv_display (st_server s') = sv_display (st_server s)"
    "sv_clients (st_server s') = sv_clients (st_server s)"
    "sv_main_client (st_server s') = sv_main_client (st_server s)"
    "sv_next_client (st_server s') = sv_next_client (st_server s)"
    using arg_cong [OF eq, of "sv_display \<circ> st_server"]
      arg_cong [OF eq, of "sv_clients \<circ> st_server"]
      arg_cong [OF eq, of "sv_main_client \<circ> st_server"]
      arg_cong [OF eq, of "sv_next_client \<circ> st_server"]
    by (simp_all add: pausing_core_def)
  show cl:
    "bc_serial (client s' d) = bc_serial (client s d)"
    "bc_client (client s' d) = bc_client (client s d)"
    "bc_unique_output (client s' d) = bc_unique_output (client s d)"
    "bc_pid (client s' d) = bc_pid (client s d)"
    "bc_made_a_registry (client s' d) = bc_made_a_registry (client s d)"
    "bc_client_connect_timer (client s' d) = bc_client_connect_timer (client s d)"
    "bc_resource_create_listening (client s' d) = bc_resource_create_listening (client s d)"
    "bc_destroy_listening (client s' d) = bc_destroy_listening (client s d)"
    using arg_cong [OF eq, of "\<lambda>s. bc_serial (client s d)"]
      arg_cong [OF eq, of "\<lambda>s. bc_client (client s d)"]
      arg_cong [OF eq, of "\<lambda>s. bc_unique_output (client s d)"]
      arg_cong [OF eq, of "\<lambda>s. bc_pid (client s d)"]
      arg_cong [OF eq, of "\<lambda>s. bc_made_a_registry (client s d)"]
      arg_cong [OF eq, of "\<lambda>s. bc_client_connect_timer (client s d)"]
      arg_cong [OF eq, of "\<lambda>s. bc_resource_create_listening (client s d)"]
      arg_cong [OF eq, of "\<lambda>s. bc_destroy_listening (client s d)"]
    by (simp_all add: pausing_core_def)
  show "client_for_surface s' i = client_for_surface s i"
    by (simp add: client_for_surface_def sv st split: option.split)
  have "bc_client_connect_timer (client s' c) = bc_client_connect_timer (client s c)" for c
    using arg_cong [OF eq, of "\<lambda>s. bc_client_connect_timer (client s c)"] by (simp add: pausing_core_def)
  then have "owner cb s' = owner cb s" for cb by (cases cb) (simp_all add: st sv)
  then show "timers_ok X s' = timers_ok X s" by (simp add: timers_ok_def st)
qed

lemma repaused_fold: "(\<And>c s. repaused s (f c s)) \<Longrightarrow> repaused s (fold f cs s)"
  by (induction cs arbitrary: s) (auto intro: repaused_trans)

lemma repaused_clock_gettime: "repaused s (snd (clock_gettime s))"
  by (simp add: clock_gettime_def repaused_next_call)

lemma repaused_hidden_scan: "repaused s (snd (hidden_scan is c b s))"
proof (induction "is" arbitrary: b s)
  case (Cons i "is")
  have "repaused s (snd (hidden_scan is c b' (snd (clock_gettime s))))" for b'
    by (rule repaused_trans [OF repaused_clock_gettime Cons.IH])
  then show ?case using Cons.IH repaused_clock_gettime [of s] by (simp add: Let_def split_beta)
qed simp

lemma repaused_check_client: "repaused s (check_client c s)"
  unfolding check_client_def client_is_hidden_def Let_def split_beta
  by (rule repaused_trans [OF repaused_hidden_scan repaused_set])

lemma repaused_resume_all: "repaused s (resume_all_clients s)"
  unfolding resume_all_clients_def by (rule repaused_fold) (rule repaused_set)

lemma repaused_resume_client: "repaused s (resume_client_for_surface i s)"
  by (auto simp: resume_client_for_surface_def split: option.split intro: repaused_set)

lemmas resume_all_simps [simp] = repausedD [OF repaused_resume_all]
lemmas resume_client_simps [simp] = repausedD [OF repaused_resume_client]

subsection \<open>Nothing stays stopped\<close>

text \<open>Only clients with a process are ever marked stopped.\<close>

definition pause_inv :: "swaylock_state \<Rightarrow> bool" where
  "pause_inv s \<longleftrightarrow> (\<forall>c. bc_paused (client s c) \<longrightarrow> 0 < bc_pid (client s c))"

lemma pause_inv_set [preserves]: "pause_inv s \<Longrightarrow> pause_inv (set_client_paused c p s)"
  by (cases c) (auto simp: pause_inv_def set_client_paused_paused, simp add: set_client_paused_def)

lemma pause_inv_fold: "(\<And>c s. pause_inv s \<Longrightarrow> pause_inv (f c s)) \<Longrightarrow> pause_inv s \<Longrightarrow> pause_inv (fold f cs s)"
  by (induction cs arbitrary: s) auto

lemma resume_fold:
  assumes "\<forall>n. w_ret (st_world s) n = 0" "pause_inv s"
  shows "bc_paused (client (fold (\<lambda>c. set_client_paused (Some c) False) cs s) d) \<longleftrightarrow>
    bc_paused (client s d) \<and> d \<notin> set cs"
  using assms
proof (induction cs arbitrary: s)
  case (Cons c cs)
  let ?s = "set_client_paused (Some c) False s"
  have "pause_inv ?s" using Cons.prems(2) by (rule preserves)
  moreover have "\<forall>n. w_ret (st_world ?s) n = 0" using Cons.prems(1) by simp
  ultimately have "bc_paused (client (fold (\<lambda>c. set_client_paused (Some c) False) cs ?s) d) \<longleftrightarrow>
      bc_paused (client ?s d) \<and> d \<notin> set cs" by (rule Cons.IH [rotated])
  moreover have "bc_paused (client ?s d) \<longleftrightarrow> bc_paused (client s d) \<and> d \<noteq> c"
    using Cons.prems by (cases "d = c") (auto simp: set_client_paused_paused pause_inv_def)
  ultimately show ?case by auto
qed simp

lemma resume_fold_trace:
  "\<exists>tr. st_trace (fold (\<lambda>c. set_client_paused (Some c) False) cs s) = st_trace s @ tr \<and>
    (\<forall>e \<in> set tr. \<exists>c \<in> set cs. 0 < bc_pid (client s c) \<and> e = Sys (Kill (- bc_pid (client s c)) SIGCONT))"
proof (induction cs arbitrary: s)
  case (Cons c cs)
  let ?s = "set_client_paused (Some c) False s"
  obtain tr where tr: "st_trace (fold (\<lambda>c. set_client_paused (Some c) False) cs ?s) = st_trace ?s @ tr"
      "\<forall>e \<in> set tr. \<exists>c \<in> set cs. 0 < bc_pid (client s c) \<and> e = Sys (Kill (- bc_pid (client s c)) SIGCONT)"
    using Cons.IH [of ?s] by auto
  have "st_trace ?s = st_trace s \<or>
      0 < bc_pid (client s c) \<and> st_trace ?s = st_trace s @ [Sys (Kill (- bc_pid (client s c)) SIGCONT)]"
    by (auto simp: set_client_paused_def sys_ret_def next_call_def emit_def on_client_def on_server_def Let_def)
  then show ?case
  proof
    assume "st_trace ?s = st_trace s"
    then show ?thesis using tr by auto
  next
    assume "0 < bc_pid (client s c) \<and> st_trace ?s = st_trace s @ [Sys (Kill (- bc_pid (client s c)) SIGCONT)]"
    then show ?thesis using tr
      by (intro exI [of _ "Sys (Kill (- bc_pid (client s c)) SIGCONT) # tr"]) auto
  qed
qed simp

text \<open>C31. On the way out no client stays frozen: resuming all clients leaves no client of the server
  stopped when the signals can be delivered, and every signal it sends is SIGCONT to the process group
  of a client's own positive pid.\<close>

theorem resume_all_wakes:
  assumes "pause_inv s" and "\<forall>n. w_ret (st_world s) n = 0"
  shows "(\<forall>c \<in> set (sv_clients (st_server s)). \<not> bc_paused (client (resume_all_clients s) c)) \<and>
    (\<exists>tr. st_trace (resume_all_clients s) = st_trace s @ tr \<and>
      (\<forall>e \<in> set tr. \<exists>c \<in> set (sv_clients (st_server s)).
        0 < bc_pid (client s c) \<and> e = Sys (Kill (- bc_pid (client s c)) SIGCONT)))"
  using resume_fold [OF assms(2,1)] resume_fold_trace [of "sv_clients (st_server s)" s]
  by (simp add: resume_all_clients_def)

lemma resume_all_wakes_witness:
  "\<not> bc_paused (client (resume_all_clients ((initial_state quiet_world [] default_args)
     \<lparr>st_server := \<lparr>sv_display = True, sv_clients = [0], sv_client = (\<lambda>_. zero_client\<lparr>bc_pid := 42, bc_paused := True\<rparr>),
        sv_main_client = None, sv_next_client = 1\<rparr>\<rparr>)) 0)"
  using resume_all_wakes [of "(initial_state quiet_world [] default_args)
     \<lparr>st_server := \<lparr>sv_display = True, sv_clients = [0], sv_client = (\<lambda>_. zero_client\<lparr>bc_pid := 42, bc_paused := True\<rparr>),
        sv_main_client = None, sv_next_client = 1\<rparr>\<rparr>"]
  by (simp add: pause_inv_def initial_state_def quiet_world_def)

end
