(* ===== verification/ForwardSurface.thy ===== *)
theory ForwardSurface
  imports Pause
begin

section \<open>Surfaces of the plugin (forward.c)\<close>

text \<open>
  The requests of a plugin client on its \<open>wl_surface\<close>s: attaching, damaging, frame callbacks and the commit, which copies
  the pending state to the output's background surface upstream, and what happens when the upstream
  callback fires.  A handler gets the number of a live surface; allocation never fails.  A failed
  \<open>assert\<close> halts with \<open>Abort\<close>; a \<open>NULL\<close> or dangling pointer or a division by zero with \<open>Undefined\<close>.
\<close>

subsection \<open>Plumbing\<close>

text \<open>Statements in sequence; nothing runs after the process has ended.\<close>

fun run :: "(swaylock_state \<Rightarrow> swaylock_state) list \<Rightarrow> swaylock_state \<Rightarrow> swaylock_state" where
  "run [] s = s"
| "run (f # fs) s = (if st_halt s \<noteq> None then s else run fs (f s))"

definition c_assert :: "bool \<Rightarrow> swaylock_state \<Rightarrow> swaylock_state" where
  "c_assert b s = (if b then s else halt_with Abort s)"

text \<open>A resource is live until its destruction.\<close>

definition alive :: "swaylock_state \<Rightarrow> nat \<Rightarrow> bool" where
  "alive s r \<longleftrightarrow> r \<in> rs_id ` set (fw_resources (st_forward s))"

definition new_resource :: "nat \<Rightarrow> resource_kind \<Rightarrow> swaylock_state \<Rightarrow> nat \<times> swaylock_state" where
  "new_resource c kind s =
     (let r = fw_next (st_forward s)
      in (r, on_forward (\<lambda>w. w\<lparr>fw_resources := fw_resources w @ [\<lparr>rs_id = r, rs_client = c, rs_kind = kind\<rparr>],
                               fw_next := Suc r\<rparr>) s))"

definition on_buffer :: "nat \<Rightarrow> (forward_buffer \<Rightarrow> forward_buffer) \<Rightarrow> swaylock_state \<Rightarrow> swaylock_state" where
  "on_buffer b f = on_forward (\<lambda>w. w\<lparr>fw_buffer := (fw_buffer w)(b := f (fw_buffer w b))\<rparr>)"

definition on_image_desc :: "nat \<Rightarrow> (forward_image_desc \<Rightarrow> forward_image_desc) \<Rightarrow> swaylock_state \<Rightarrow> swaylock_state" where
  "on_image_desc d f = on_forward (\<lambda>w. w\<lparr>fw_image_desc := (fw_image_desc w)(d := f (fw_image_desc w d))\<rparr>)"

abbreviation plugin_buffer :: "swaylock_state \<Rightarrow> nat \<Rightarrow> forward_buffer" where
  "plugin_buffer s b \<equiv> fw_buffer (st_forward s) b"

abbreviation image_desc :: "swaylock_state \<Rightarrow> nat \<Rightarrow> forward_image_desc" where
  "image_desc s d \<equiv> fw_image_desc (st_forward s) d"

abbreviation pending :: "swaylock_state \<Rightarrow> nat \<Rightarrow> surface_state" where
  "pending s p \<equiv> fs_pending (plugin_surface s p)"

abbreviation committed :: "swaylock_state \<Rightarrow> nat \<Rightarrow> surface_state" where
  "committed s p \<equiv> fs_committed (plugin_surface s p)"

definition on_pending :: "nat \<Rightarrow> (surface_state \<Rightarrow> surface_state) \<Rightarrow> swaylock_state \<Rightarrow> swaylock_state" where
  "on_pending p f = on_plugin_surface p (\<lambda>u. u\<lparr>fs_pending := f (fs_pending u)\<rparr>)"

definition on_committed :: "nat \<Rightarrow> (surface_state \<Rightarrow> surface_state) \<Rightarrow> swaylock_state \<Rightarrow> swaylock_state" where
  "on_committed p f = on_plugin_surface p (\<lambda>u. u\<lparr>fs_committed := f (fs_committed u)\<rparr>)"

text \<open>The upstream surface a plugin surface is copied to.\<close>

fun augmented :: "swaylock_state \<Rightarrow> wl_surface_ref \<Rightarrow> augmented_surface" where
  "augmented s (Background i) = sw_surface (st_surface s i)"
| "augmented s (Subsurface p) = fs_ext_surface (plugin_surface s p)"
| "augmented s (Indicator i) = zero_augmented"

subsection \<open>Attaching, damage and frame callbacks\<close>

definition free_plugin_buffer :: "nat \<Rightarrow> swaylock_state \<Rightarrow> swaylock_state" where
  "free_plugin_buffer b = emit (Up (Destroy_buffer (Plugin_buffer b)))"

definition drop_pending_buffer :: "nat \<Rightarrow> nat \<Rightarrow> swaylock_state \<Rightarrow> swaylock_state" where
  "drop_pending_buffer p old s =
     (let s1 = on_buffer old (\<lambda>b. b\<lparr>fb_pending_surfaces := remove1 p (fb_pending_surfaces b)\<rparr>) s
      in if \<not> fb_resource (plugin_buffer s1 old) \<and> fb_pending_surfaces (plugin_buffer s1 old) = [] then
           run [c_assert (fb_committed_surfaces (plugin_buffer s1 old) = []), free_plugin_buffer old] s1
         else s1)"

definition nested_surface_attach :: "nat \<Rightarrow> nat option \<Rightarrow> int \<Rightarrow> int \<Rightarrow> swaylock_state \<Rightarrow> swaylock_state" where
  "nested_surface_attach p buffer x y s =
     (let f_buffer = (case buffer of None \<Rightarrow> No_buffer | Some b \<Rightarrow> Buffer b) in
      if ss_attachment (pending s p) = f_buffer then s
      else run
        [(\<lambda>s. case ss_attachment (pending s p) of
                Buffer old \<Rightarrow> drop_pending_buffer p old s
              | BUFFER_UNREACHABLE \<Rightarrow> halt_with Undefined s
              | _ \<Rightarrow> s),
         (\<lambda>s. case buffer of
                None \<Rightarrow> halt_with Undefined s
              | Some b \<Rightarrow>
                  on_pending p (\<lambda>st. st\<lparr>ss_attachment := Buffer b\<rparr>)
                    (on_buffer b (\<lambda>fb. fb\<lparr>fb_pending_surfaces := p # fb_pending_surfaces fb\<rparr>) s))] s)"

definition nested_surface_damage :: "nat \<Rightarrow> int \<Rightarrow> int \<Rightarrow> int \<Rightarrow> int \<Rightarrow> swaylock_state \<Rightarrow> swaylock_state" where
  "nested_surface_damage p x y width height =
     on_plugin_surface p (\<lambda>u. u\<lparr>fs_old_damage := fs_old_damage u @ [\<lparr>dm_x = x, dm_y = y, dm_w = width, dm_h = height\<rparr>]\<rparr>)"

definition nested_surface_damage_buffer :: "nat \<Rightarrow> int \<Rightarrow> int \<Rightarrow> int \<Rightarrow> int \<Rightarrow> swaylock_state \<Rightarrow> swaylock_state" where
  "nested_surface_damage_buffer p x y width height =
     on_plugin_surface p (\<lambda>u. u\<lparr>fs_buffer_damage := fs_buffer_damage u @ [\<lparr>dm_x = x, dm_y = y, dm_w = width, dm_h = height\<rparr>]\<rparr>)"

definition nested_surface_frame :: "nat \<Rightarrow> nat \<Rightarrow> swaylock_state \<Rightarrow> swaylock_state" where
  "nested_surface_frame c p s =
     (let (cb, s1) = new_resource c K_callback s
      in on_plugin_surface p (\<lambda>u. u\<lparr>fs_frame_callbacks := cb # fs_frame_callbacks u\<rparr>) s1)"

definition nested_surface_set_buffer_transform :: "nat \<Rightarrow> int \<Rightarrow> swaylock_state \<Rightarrow> swaylock_state" where
  "nested_surface_set_buffer_transform p transform = on_pending p (\<lambda>st. st\<lparr>ss_buffer_transform := transform\<rparr>)"

definition nested_surface_set_buffer_scale :: "nat \<Rightarrow> int \<Rightarrow> swaylock_state \<Rightarrow> swaylock_state" where
  "nested_surface_set_buffer_scale p scale = on_pending p (\<lambda>st. st\<lparr>ss_buffer_scale := scale\<rparr>)"

definition add_serial_pair :: "nat \<Rightarrow> u32 \<Rightarrow> u32 \<Rightarrow> u32 \<Rightarrow> u32 \<Rightarrow> bool \<Rightarrow> swaylock_state \<Rightarrow> swaylock_state" where
  "add_serial_pair p upstream_serial downstream_serial width height local_only =
     on_plugin_surface p (\<lambda>u. u\<lparr>fs_serial_table := fs_serial_table u @
       [\<lparr>sp_plugin_serial = downstream_serial, sp_upstream_serial = upstream_serial,
         sp_config_width = width, sp_config_height = height, sp_local_only = local_only\<rparr>]\<rparr>)"

subsection \<open>Image descriptions\<close>

text \<open>\<open>delete_image_desc_if_unreferenced\<close>: the upstream object of a client's own description is destroyed; a
  server-side one only loses a reference.\<close>

definition delete_image_desc_if_unreferenced :: "nat \<Rightarrow> swaylock_state \<Rightarrow> swaylock_state" where
  "delete_image_desc_if_unreferenced d s =
     (let desc = image_desc s d in
      if fd_resource desc then s
      else if fd_committed_surfaces desc \<noteq> [] \<or> fd_pending_surfaces desc \<noteq> [] then s
      else if fd_server_side desc then s
      else emit (Up (Destroy_image_desc d)) s)"

definition unlink_pending_desc :: "nat \<Rightarrow> nat \<Rightarrow> swaylock_state \<Rightarrow> swaylock_state" where
  "unlink_pending_desc p d s =
     delete_image_desc_if_unreferenced d
       (on_image_desc d (\<lambda>i. i\<lparr>fd_pending_surfaces := remove1 p (fd_pending_surfaces i)\<rparr>) s)"

definition unlink_committed_desc :: "nat \<Rightarrow> nat \<Rightarrow> swaylock_state \<Rightarrow> swaylock_state" where
  "unlink_committed_desc p d s =
     delete_image_desc_if_unreferenced d
       (on_image_desc d (\<lambda>i. i\<lparr>fd_committed_surfaces := remove1 p (fd_committed_surfaces i)\<rparr>) s)"

subsection \<open>\<open>apply_pending_surface_updates\<close>, statement by statement\<close>

definition apply_scale :: "nat \<Rightarrow> wl_surface_ref \<Rightarrow> swaylock_state \<Rightarrow> swaylock_state" where
  "apply_scale p bg s =
     (let v = ss_buffer_scale (pending s p) in
      if ss_buffer_scale (committed s p) = v then s
      else on_committed p (\<lambda>st. st\<lparr>ss_buffer_scale := v\<rparr>) (emit (Surf bg (Set_buffer_scale v)) s))"

definition apply_transform :: "nat \<Rightarrow> wl_surface_ref \<Rightarrow> swaylock_state \<Rightarrow> swaylock_state" where
  "apply_transform p bg s =
     (let v = ss_buffer_transform (pending s p) in
      if ss_buffer_transform (committed s p) = v then s
      else on_committed p (\<lambda>st. st\<lparr>ss_buffer_transform := v\<rparr>) (emit (Surf bg (Set_buffer_transform v)) s))"

definition apply_viewport_dest :: "nat \<Rightarrow> wl_surface_ref \<Rightarrow> swaylock_state \<Rightarrow> swaylock_state" where
  "apply_viewport_dest p bg s =
     (let q = pending s p; c = committed s p in
      if ss_viewport_dest_width c = ss_viewport_dest_width q \<and> ss_viewport_dest_height c = ss_viewport_dest_height q
      then s
      else run
        [c_assert (au_viewport (augmented s bg)),
         emit (Surf bg (Viewport_destination (ss_viewport_dest_width q) (ss_viewport_dest_height q))),
         on_committed p (\<lambda>st. st\<lparr>ss_viewport_dest_width := ss_viewport_dest_width q,
                                  ss_viewport_dest_height := ss_viewport_dest_height q\<rparr>)] s)"

definition same_source :: "surface_state \<Rightarrow> surface_state \<Rightarrow> bool" where
  "same_source c q \<longleftrightarrow>
     ss_viewport_source_x c = ss_viewport_source_x q \<and> ss_viewport_source_y c = ss_viewport_source_y q \<and>
     ss_viewport_source_w c = ss_viewport_source_w q \<and> ss_viewport_source_h c = ss_viewport_source_h q"

text \<open>The rectangle sent upstream is the committed one, before it is updated.\<close>

definition apply_viewport_source :: "nat \<Rightarrow> wl_surface_ref \<Rightarrow> swaylock_state \<Rightarrow> swaylock_state" where
  "apply_viewport_source p bg s =
     (let q = pending s p; c = committed s p in
      if same_source c q then s
      else run
        [c_assert (au_viewport (augmented s bg)),
         emit (Surf bg (Viewport_source (ss_viewport_source_x c) (ss_viewport_source_y c)
                                        (ss_viewport_source_w c) (ss_viewport_source_h c))),
         on_committed p (\<lambda>st. st\<lparr>ss_viewport_source_x := ss_viewport_source_x q,
                                  ss_viewport_source_y := ss_viewport_source_y q,
                                  ss_viewport_source_w := ss_viewport_source_w q,
                                  ss_viewport_source_h := ss_viewport_source_h q\<rparr>)] s)"

definition same_color_rep :: "surface_state \<Rightarrow> surface_state \<Rightarrow> bool" where
  "same_color_rep c q \<longleftrightarrow>
     ss_has_alpha_mode c = ss_has_alpha_mode q \<and> ss_alpha_mode c = ss_alpha_mode q \<and>
     ss_has_chroma_location c = ss_has_chroma_location q \<and> ss_chroma_location c = ss_chroma_location q \<and>
     ss_has_coef_range c = ss_has_coef_range q \<and> ss_coefficients c = ss_coefficients q \<and> ss_range c = ss_range q"

definition apply_color_rep :: "nat \<Rightarrow> wl_surface_ref \<Rightarrow> swaylock_state \<Rightarrow> swaylock_state" where
  "apply_color_rep p bg s =
     (let q = pending s p; c = committed s p in
      if same_color_rep c q then s
      else run
        [c_assert (au_color_rep_surface (augmented s bg)),
         emit (Surf bg Reset_color_representation),
         (\<lambda>s. if ss_has_alpha_mode q then emit (Surf bg (Set_alpha_mode (ss_alpha_mode q))) s else s),
         (\<lambda>s. if ss_has_chroma_location q then emit (Surf bg (Set_chroma_location (ss_chroma_location q))) s else s),
         (\<lambda>s. if ss_has_coef_range q
               then emit (Surf bg (Set_coefficients_and_range (ss_coefficients q) (ss_range q))) s else s),
         on_committed p (\<lambda>st. st\<lparr>ss_has_alpha_mode := ss_has_alpha_mode q, ss_alpha_mode := ss_alpha_mode q,
            ss_has_chroma_location := ss_has_chroma_location q, ss_chroma_location := ss_chroma_location q,
            ss_has_coef_range := ss_has_coef_range q, ss_coefficients := ss_coefficients q, ss_range := ss_range q\<rparr>)] s)"

definition swap_committed_desc :: "nat \<Rightarrow> nat option \<Rightarrow> nat option \<Rightarrow> swaylock_state \<Rightarrow> swaylock_state" where
  "swap_committed_desc p old new s =
     (let s1 = (case old of None \<Rightarrow> s | Some d \<Rightarrow> unlink_committed_desc p d s);
          s2 = on_committed p (\<lambda>st. st\<lparr>ss_image_desc := new\<rparr>) s1
      in case new of
           None \<Rightarrow> s2
         | Some d \<Rightarrow> on_image_desc d (\<lambda>i. i\<lparr>fd_committed_surfaces := p # fd_committed_surfaces i\<rparr>) s2)"

definition apply_image_desc :: "nat \<Rightarrow> wl_surface_ref \<Rightarrow> swaylock_state \<Rightarrow> swaylock_state" where
  "apply_image_desc p bg s =
     (let q = pending s p; c = committed s p in
      if ss_image_desc c = ss_image_desc q \<and> ss_render_intent c = ss_render_intent q then s
      else run
        [c_assert (au_color_surface (augmented s bg)),
         (\<lambda>s. case ss_image_desc q of
                None \<Rightarrow> emit (Surf bg Unset_image_description) s
              | Some d \<Rightarrow> emit (Surf bg (Set_image_description d (ss_render_intent q))) s),
         (\<lambda>s. if ss_image_desc c = ss_image_desc q then s
               else swap_committed_desc p (ss_image_desc c) (ss_image_desc q) s),
         on_committed p (\<lambda>st. st\<lparr>ss_render_intent := ss_render_intent q\<rparr>)] s)"

text \<open>The buffer is attached again at every commit, unless it was destroyed after the last one
  (\<open>BUFFER_COMMITTED\<close>).\<close>

definition unlink_committed_buffer :: "nat \<Rightarrow> swaylock_state \<Rightarrow> swaylock_state" where
  "unlink_committed_buffer p s =
     (case ss_attachment (committed s p) of
        Buffer b \<Rightarrow> run
          [c_assert (fb_resource (plugin_buffer s b)),
           on_buffer b (\<lambda>fb. fb\<lparr>fb_committed_surfaces := remove1 p (fb_committed_surfaces fb)\<rparr>)] s
      | No_buffer \<Rightarrow> s
      | BUFFER_UNREACHABLE \<Rightarrow> s
      | BUFFER_COMMITTED \<Rightarrow> halt_with Undefined s)"

definition attach_pending_buffer :: "nat \<Rightarrow> wl_surface_ref \<Rightarrow> nat \<Rightarrow> swaylock_state \<Rightarrow> swaylock_state" where
  "attach_pending_buffer p bg b s =
     (let q = pending s p; version = fs_version (plugin_surface s p);
          s1 = emit (Surf bg (Attach (Some (Plugin_buffer b)) (if version \<ge> 5 then 0 else ss_offset_x q)
                                                             (if version \<ge> 5 then 0 else ss_offset_y q))) s;
          s2 = (if version < 5
                then on_committed p (\<lambda>st. st\<lparr>ss_offset_x := ss_offset_x q, ss_offset_y := ss_offset_y q\<rparr>) s1 else s1);
          s3 = on_committed p (\<lambda>st. st\<lparr>ss_attachment := Buffer b\<rparr>) s2;
          s4 = on_plugin_surface p (\<lambda>u. u\<lparr>fs_committed_buffer_width := fb_width (plugin_buffer s3 b),
                                           fs_committed_buffer_height := fb_height (plugin_buffer s3 b)\<rparr>) s3
      in on_buffer b (\<lambda>fb. fb\<lparr>fb_committed_surfaces := p # fb_committed_surfaces fb\<rparr>) s4)"

definition apply_attachment :: "nat \<Rightarrow> wl_surface_ref \<Rightarrow> swaylock_state \<Rightarrow> swaylock_state" where
  "apply_attachment p bg s =
     (if ss_attachment (pending s p) = BUFFER_COMMITTED then s
      else run
        [unlink_committed_buffer p,
         (\<lambda>s. case ss_attachment (pending s p) of
                Buffer b \<Rightarrow> attach_pending_buffer p bg b s
              | No_buffer \<Rightarrow> run
                  [c_assert (fs_layer_surface (plugin_surface s p) = None),
                   on_committed p (\<lambda>st. st\<lparr>ss_attachment := No_buffer\<rparr>)] s
              | _ \<Rightarrow> halt_with Undefined s)] s)"

definition apply_offset :: "nat \<Rightarrow> wl_surface_ref \<Rightarrow> swaylock_state \<Rightarrow> swaylock_state" where
  "apply_offset p bg s =
     (let q = pending s p; c = committed s p in
      if (ss_offset_x c \<noteq> ss_offset_x q \<or> ss_offset_y c \<noteq> ss_offset_y q) \<and> fs_version (plugin_surface s p) \<ge> 5
      then on_committed p (\<lambda>st. st\<lparr>ss_offset_x := ss_offset_x q, ss_offset_y := ss_offset_y q\<rparr>)
             (emit (Surf bg (Set_offset (ss_offset_x q) (ss_offset_y q))) s)
      else s)"

definition apply_damage :: "nat \<Rightarrow> wl_surface_ref \<Rightarrow> swaylock_state \<Rightarrow> swaylock_state" where
  "apply_damage p bg s =
     (let u = plugin_surface s p;
          s1 = fold (\<lambda>d. emit (Surf bg (Damage_buffer (dm_x d) (dm_y d) (dm_w d) (dm_h d)))) (fs_buffer_damage u) s;
          s2 = fold (\<lambda>d. emit (Surf bg (Damage (dm_x d) (dm_y d) (dm_w d) (dm_h d)))) (fs_old_damage u) s1
      in on_plugin_surface p (\<lambda>u. u\<lparr>fs_buffer_damage := [], fs_old_damage := []\<rparr>) s2)"

text \<open>The subsurfaces of the surface, from the closest one outwards.  A subsurface whose parent has no output
  dereferences the missing \<open>sway_surface\<close>; a destroyed surface in the list is a dangling pointer.\<close>

definition apply_pending_subsurf_entry :: "nat \<Rightarrow> nat \<Rightarrow> swaylock_state \<Rightarrow> swaylock_state" where
  "apply_pending_subsurf_entry e p s =
     (if \<not> alive s e then halt_with Undefined s
      else run
        [(\<lambda>s. if fs_ext_subsurface (plugin_surface s e) then s
               else case fs_sway_surface (plugin_surface s p) of
                      None \<Rightarrow> halt_with Undefined s
                    | Some i \<Rightarrow> on_plugin_surface e (\<lambda>u. u\<lparr>fs_ext_subsurface := True\<rparr>)
                                  (emit (Surf (Subsurface e) (Get_subsurface (Background i))) s)),
         (\<lambda>s. let entry = fs_pending_entry (plugin_surface s e)
               in on_plugin_surface e (\<lambda>u. u\<lparr>fs_committed_entry := entry\<rparr>)
                    (emit (Surf (Subsurface e) (Subsurface_position (su_pos_x entry) (su_pos_y entry)))
                      (emit (Surf (Subsurface e) (Subsurface_set_sync (\<not> su_is_desync entry))) s)))] s)"

fun apply_stack ::
  "(wl_surface_ref \<Rightarrow> surface_request) \<Rightarrow> (nat \<Rightarrow> surface_state \<Rightarrow> surface_state) \<Rightarrow>
   nat \<Rightarrow> nat list \<Rightarrow> wl_surface_ref \<Rightarrow> swaylock_state \<Rightarrow> swaylock_state" where
  "apply_stack place record_entry p [] sibling s = s"
| "apply_stack place record_entry p (e # es) sibling s =
     (let s1 = run [apply_pending_subsurf_entry e p, emit (Surf (Subsurface e) (place sibling)),
                    on_committed p (record_entry e)] s
      in if st_halt s1 \<noteq> None then s1 else apply_stack place record_entry p es (Subsurface e) s1)"

definition apply_subsurfaces :: "nat \<Rightarrow> wl_surface_ref \<Rightarrow> swaylock_state \<Rightarrow> swaylock_state" where
  "apply_subsurfaces p bg =
     run [on_committed p (\<lambda>st. st\<lparr>ss_subsurfaces_above := [], ss_subsurfaces_below := []\<rparr>),
          (\<lambda>s. apply_stack Place_above (\<lambda>e st. st\<lparr>ss_subsurfaces_above := ss_subsurfaces_above st @ [e]\<rparr>) p
                 (ss_subsurfaces_above (pending s p)) bg s),
          (\<lambda>s. apply_stack Place_below (\<lambda>e st. st\<lparr>ss_subsurfaces_below := e # ss_subsurfaces_below st\<rparr>) p
                 (rev (ss_subsurfaces_below (pending s p))) bg s)]"

text \<open>The callbacks requested so far move to a group of their own (\<open>struct frame_callbacks\<close>), which waits
  for the upstream callback.\<close>

definition start_presentation_clock :: "nat option \<Rightarrow> swaylock_state \<Rightarrow> swaylock_state" where
  "start_presentation_clock output s =
     (case output of
        None \<Rightarrow> s
      | Some i \<Rightarrow>
          if sw_frame_pending (st_surface s i) then s
          else let (now, s1) = clock_gettime (on_surface i (\<lambda>sf. sf\<lparr>sw_frame_pending := True\<rparr>) s)
               in on_surface i (\<lambda>sf. sf\<lparr>sw_frame_pending_since := now\<rparr>) s1)"

definition apply_frame_callbacks :: "nat \<Rightarrow> wl_surface_ref \<Rightarrow> swaylock_state \<Rightarrow> swaylock_state" where
  "apply_frame_callbacks p bg s =
     (let cbs = fs_frame_callbacks (plugin_surface s p); output = fs_sway_surface (plugin_surface s p) in
      if cbs = [] then s
      else
        let s1 = start_presentation_clock output (emit (Surf bg Frame_callback) s);
            g = fw_next (st_forward s1)
        in on_plugin_surface p (\<lambda>u. u\<lparr>fs_frame_callbacks := []\<rparr>)
             (on_forward (\<lambda>w. w\<lparr>fw_frame_callbacks := (fw_frame_callbacks w)(g \<mapsto> (cbs, output)), fw_next := Suc g\<rparr>) s1))"

definition apply_pending_surface_updates :: "nat \<Rightarrow> wl_surface_ref \<Rightarrow> swaylock_state \<Rightarrow> swaylock_state" where
  "apply_pending_surface_updates p bg =
     run [apply_scale p bg, apply_transform p bg, apply_viewport_dest p bg, apply_viewport_source p bg,
          apply_color_rep p bg, apply_image_desc p bg, apply_attachment p bg, apply_offset p bg,
          apply_damage p bg, apply_subsurfaces p bg, apply_frame_callbacks p bg]"

subsection \<open>The commit\<close>

definition wl_fixed_to_int :: "int \<Rightarrow> int" where
  "wl_fixed_to_int f = f sdiv 256"

definition does_transform_transpose_size :: "int \<Rightarrow> bool" where
  "does_transform_transpose_size transform =
     (if transform \<in> {1, 3, 5, 7} then False else False)"

text \<open>The size of the surface in surface coordinates, or why there is none.\<close>

datatype surface_size = Size u32 u32 | Viewport_not_integral | Not_divisible_by_scale | Division_by_zero

definition committed_size :: "forward_surface \<Rightarrow> surface_size" where
  "committed_size u =
     (let c = fs_committed u; scale = word_of_int (ss_buffer_scale c) :: u32 in
      if ss_viewport_dest_width c \<noteq> -1 then
        Size (word_of_int (ss_viewport_dest_width c)) (word_of_int (ss_viewport_dest_height c))
      else if ss_viewport_source_w c \<noteq> wl_fixed_from_int (-1) then
        let w = word_of_int (wl_fixed_to_int (ss_viewport_source_w c)) :: u32;
            h = word_of_int (wl_fixed_to_int (ss_viewport_source_h c)) :: u32
        in if wl_fixed_from_int (sint w) \<noteq> ss_viewport_source_w c \<or> wl_fixed_from_int (sint h) \<noteq> ss_viewport_source_h c
           then Viewport_not_integral else Size w h
      else if scale = 0 then Division_by_zero
      else if fs_committed_buffer_width u mod scale \<noteq> 0 \<or> fs_committed_buffer_height u mod scale \<noteq> 0
      then Not_divisible_by_scale
      else
        let w = fs_committed_buffer_width u div scale; h = fs_committed_buffer_height u div scale
        in if does_transform_transpose_size (ss_buffer_transform c) then Size h w else Size w h)"

definition initial_configure :: "nat \<Rightarrow> nat \<Rightarrow> swaylock_state \<Rightarrow> swaylock_state" where
  "initial_configure p i s =
     (case (case sw_client (st_surface s i) of Some c \<Rightarrow> Some c | None \<Rightarrow> sv_main_client (st_server s)) of
        None \<Rightarrow> halt_with Undefined s
      | Some c \<Rightarrow>
          let serial = bc_serial (client s c); sf = st_surface s i;
              s1 = on_client c (\<lambda>b. b\<lparr>bc_serial := serial + 1\<rparr>) s;
              s2 = (if \<not> sw_used_first_configure sf
                    then on_surface i (\<lambda>sf. sf\<lparr>sw_used_first_configure := True\<rparr>)
                           (add_serial_pair p (sw_first_configure_serial sf) serial (sw_width sf) (sw_height sf) False s1)
                    else if sw_has_newer_serial sf
                    then add_serial_pair p (sw_newest_serial sf) serial (sw_width sf) (sw_height sf) False s1
                    else add_serial_pair p 0 serial (sw_width sf) (sw_height sf) True s1)
          in run
               [(\<lambda>s. case fs_layer_surface (plugin_surface s p) of
                       None \<Rightarrow> halt_with Undefined s
                     | Some l \<Rightarrow> emit (Down (Send_configure l serial (sw_width sf) (sw_height sf))) s),
                on_plugin_surface p (\<lambda>u. u\<lparr>fs_has_been_configured := True\<rparr>),
                (\<lambda>s. c_assert (ss_attachment (pending s p) = No_buffer) s)] s2)"

definition ack_pending_configure :: "nat \<Rightarrow> swaylock_state \<Rightarrow> swaylock_state" where
  "ack_pending_configure i s =
     (let sf = st_surface s i in
      if sw_has_pending_ack_conf sf then
        on_surface i (\<lambda>sf. sf\<lparr>sw_has_pending_ack_conf := False,
            sw_has_newer_serial := (if sw_pending_upstream_serial sf = sw_newest_serial sf then False
                                    else sw_has_newer_serial sf)\<rparr>)
          (emit (Up (Ack_configure i (sw_pending_upstream_serial sf))) s)
      else s)"

definition disarm_submission_timer :: "nat \<Rightarrow> swaylock_state \<Rightarrow> swaylock_state" where
  "disarm_submission_timer i s =
     (case sw_client_submission_timer (st_surface s i) of
        None \<Rightarrow> s
      | Some t \<Rightarrow> on_surface i (\<lambda>sf. sf\<lparr>sw_client_submission_timer := None\<rparr>) (remove_timer t s))"

text \<open>What follows once the size is the acknowledged one.\<close>

definition forward_commit :: "nat \<Rightarrow> nat \<Rightarrow> swaylock_state \<Rightarrow> swaylock_state" where
  "forward_commit p i s =
     (let s1 = (if ss_attachment (committed s p) \<noteq> No_buffer
                then on_surface i (\<lambda>sf. sf\<lparr>sw_has_buffer := True\<rparr>) s else s)
      in emit (Surf (Background i) Commit) (disarm_submission_timer i (ack_pending_configure i s1)))"

definition check_size_and_commit :: "nat \<Rightarrow> nat \<Rightarrow> swaylock_state \<Rightarrow> swaylock_state" where
  "check_size_and_commit p i s =
     (case committed_size (plugin_surface s p) of
        Division_by_zero \<Rightarrow> halt_with Undefined s
      | Viewport_not_integral \<Rightarrow>
          (case fs_viewport (plugin_surface s p) of
             None \<Rightarrow> halt_with Undefined s
           | Some v \<Rightarrow> emit (Down (Post_error v ''width/height not integral'')) s)
      | Not_divisible_by_scale \<Rightarrow> emit (Down (Post_error p ''buffer dimensions not divisible by scale'')) s
      | Size w h \<Rightarrow>
          if w \<noteq> fs_last_acked_width (plugin_surface s p) \<or> h \<noteq> fs_last_acked_height (plugin_surface s p)
          then emit (Down (Post_error p ''The wallpaper program should exactly match the configure width/height'')) s
          else forward_commit p i s)"

definition commit_layer_surface :: "nat \<Rightarrow> nat \<Rightarrow> swaylock_state \<Rightarrow> swaylock_state" where
  "commit_layer_surface p i s =
     (if \<not> fs_has_been_configured (plugin_surface s p) then initial_configure p i s
      else if ss_attachment (committed s p) = No_buffer \<and> ss_attachment (pending s p) = No_buffer then s
      else if ss_attachment (pending s p) = No_buffer
      then emit (Down (Post_error p ''The wallpaper program should not unmap any layer shell surface'')) s
      else run [apply_pending_surface_updates p (Background i), check_size_and_commit p i] s)"

definition nested_surface_commit :: "nat \<Rightarrow> swaylock_state \<Rightarrow> swaylock_state" where
  "nested_surface_commit p s =
     (if fs_inert (plugin_surface s p) then s
      else run
        [(\<lambda>s. if fs_subsurface_parent (plugin_surface s p) \<noteq> None
               then run [apply_pending_surface_updates p (Subsurface p), emit (Surf (Subsurface p) Commit)] s else s),
         (\<lambda>s. case fs_sway_surface (plugin_surface s p) of
                None \<Rightarrow> s
              | Some i \<Rightarrow> commit_layer_surface p i s)] s)"

subsection \<open>The upstream frame callback\<close>

definition remove_resource :: "nat \<Rightarrow> swaylock_state \<Rightarrow> swaylock_state" where
  "remove_resource r = on_forward (\<lambda>w. w\<lparr>fw_resources := filter (\<lambda>x. rs_id x \<noteq> r) (fw_resources w)\<rparr>)"

definition frame_done :: "nat \<Rightarrow> swaylock_state \<Rightarrow> swaylock_state" where
  "frame_done cb s = remove_resource cb (emit (Down (Send_frame_done cb)) s)"

definition bg_frame_handle_done :: "nat \<Rightarrow> swaylock_state \<Rightarrow> swaylock_state" where
  "bg_frame_handle_done g s =
     (case fw_frame_callbacks (st_forward s) g of
        None \<Rightarrow> halt_with Undefined s
      | Some (cbs, output) \<Rightarrow>
          run
            [(\<lambda>s. case output of
                    None \<Rightarrow> s
                  | Some i \<Rightarrow>
                      if i \<notin> set (st_surfaces s) then halt_with Undefined s
                      else
                        let (now, s1) = clock_gettime (on_surface i (\<lambda>sf. sf\<lparr>sw_frame_pending := False\<rparr>) s)
                        in resume_client_for_surface i (on_surface i (\<lambda>sf. sf\<lparr>sw_frame_last_done := now\<rparr>) s1)),
             fold frame_done cbs,
             on_forward (\<lambda>w. w\<lparr>fw_frame_callbacks := (fw_frame_callbacks w)(g := None)\<rparr>)] s)"

end
