(* ===== verification/ForwardObjects.thy ===== *)
theory ForwardObjects
  imports ForwardSurface
begin

section \<open>The other forwarded objects and their life cycle (forward.c)\<close>

text \<open>
  Creation of surfaces, buffers, memory pools, subsurfaces, viewports, fractional scales, colour surfaces and image
  descriptions for a client, the requests on them, and the destruction of a resource, alone or with all
  others when its client goes away.  User data of a resource that is no longer set is \<open>None\<close>; a
  resource whose user data names a destroyed surface holds a dangling pointer, and using it is
  \<open>Undefined\<close>.
\<close>

subsection \<open>Surfaces\<close>

definition compositor_create_surface :: "nat \<Rightarrow> int \<Rightarrow> swaylock_state \<Rightarrow> swaylock_state" where
  "compositor_create_surface c version s =
     (let (p, s1) = new_resource c K_surface s
      in on_plugin_surface p (\<lambda>_. new_forward_surface version) s1)"

definition set_user_data :: "nat \<Rightarrow> nat option \<Rightarrow> swaylock_state \<Rightarrow> swaylock_state" where
  "set_user_data r v = on_forward (\<lambda>w. w\<lparr>fw_user_data := (fw_user_data w)(r := v)\<rparr>)"

definition unset_user_data :: "nat option \<Rightarrow> swaylock_state \<Rightarrow> swaylock_state" where
  "unset_user_data r s = 
     (case r of
        None \<Rightarrow> s
      | Some r \<Rightarrow> if alive s r then set_user_data r None s else halt_with Undefined s)"

text \<open>The entries of the subsurfaces of a surface are linked to each other and, at both ends, to the list heads inside the
  surface.  Once the surface is destroyed, unlinking or inserting an entry at an end writes to freed memory.\<close>

definition listed :: "nat \<Rightarrow> surface_state \<Rightarrow> bool" where
  "listed p st \<longleftrightarrow> p \<in> set (ss_subsurfaces_above st) \<union> set (ss_subsurfaces_below st)"

definition unlist :: "nat \<Rightarrow> surface_state \<Rightarrow> surface_state" where
  "unlist p st = st\<lparr>ss_subsurfaces_above := removeAll p (ss_subsurfaces_above st),
                    ss_subsurfaces_below := removeAll p (ss_subsurfaces_below st)\<rparr>"

definition at_end :: "nat \<Rightarrow> nat list \<Rightarrow> bool" where
  "at_end p xs \<longleftrightarrow> xs \<noteq> [] \<and> (hd xs = p \<or> last xs = p)"

definition beside_head :: "nat \<Rightarrow> surface_state \<Rightarrow> bool" where
  "beside_head p st \<longleftrightarrow> at_end p (ss_subsurfaces_above st) \<or> at_end p (ss_subsurfaces_below st)"

definition unlink_subsurface :: "nat \<Rightarrow> swaylock_state \<Rightarrow> swaylock_state" where
  "unlink_subsurface p s =
     (case fs_subsurface_parent (plugin_surface s p) of
        None \<Rightarrow> s
      | Some q \<Rightarrow>
          if \<not> alive s q \<and> (beside_head p (pending s q) \<or> beside_head p (committed s q)) then halt_with Undefined s
          else on_committed q (unlist p) (on_pending q (unlist p) s))"

definition destroy_subsurface_parts :: "nat \<Rightarrow> swaylock_state \<Rightarrow> swaylock_state" where
  "destroy_subsurface_parts p =
     run [(\<lambda>s. if fs_ext_subsurface (plugin_surface s p) then emit (Surf (Subsurface p) Destroy_subsurface) s else s),
          (\<lambda>s. if au_surface (fs_ext_surface (plugin_surface s p)) then emit (Surf (Subsurface p) Destroy_surface) s else s),
          on_plugin_surface p (\<lambda>u. u\<lparr>fs_ext_subsurface := False, fs_ext_surface := zero_augmented\<rparr>),
          unlink_subsurface p,
          on_plugin_surface p (\<lambda>u. u\<lparr>fs_subsurface_parent := None, fs_inert := True\<rparr>)]"

text \<open>\<open>surface_handle_resource_destroy\<close>: the buffer it holds must still have their resource.\<close>

definition unlink_buffers :: "nat \<Rightarrow> swaylock_state \<Rightarrow> swaylock_state" where
  "unlink_buffers p =
     run [(\<lambda>s. case ss_attachment (pending s p) of
                 Buffer b \<Rightarrow> run [c_assert (fb_resource (plugin_buffer s b)),
                   on_buffer b (\<lambda>fb. fb\<lparr>fb_pending_surfaces := remove1 p (fb_pending_surfaces fb)\<rparr>)] s
               | _ \<Rightarrow> s),
          (\<lambda>s. case ss_attachment (committed s p) of
                 Buffer b \<Rightarrow> run [c_assert (fb_resource (plugin_buffer s b)),
                   on_buffer b (\<lambda>fb. fb\<lparr>fb_committed_surfaces := remove1 p (fb_committed_surfaces fb)\<rparr>)] s
               | _ \<Rightarrow> s)]"

definition surface_handle_resource_destroy :: "nat \<Rightarrow> swaylock_state \<Rightarrow> swaylock_state" where
  "surface_handle_resource_destroy p =
     run [(\<lambda>s. case fs_sway_surface (plugin_surface s p) of
                 None \<Rightarrow> s
               | Some i \<Rightarrow> on_surface i (\<lambda>sf. sf\<lparr>sw_plugin_surface := None\<rparr>) s),
          on_plugin_surface p (\<lambda>u. u\<lparr>fs_frame_callbacks := []\<rparr>),
          unlink_buffers p,
          (\<lambda>s. case ss_image_desc (pending s p) of None \<Rightarrow> s | Some d \<Rightarrow> unlink_pending_desc p d s),
          (\<lambda>s. case ss_image_desc (committed s p) of None \<Rightarrow> s | Some d \<Rightarrow> unlink_committed_desc p d s),
          (\<lambda>s. unset_user_data (fs_viewport (plugin_surface s p)) s),
          (\<lambda>s. unset_user_data (fs_fractional_scale (plugin_surface s p)) s),
          (\<lambda>s. unset_user_data (fs_color_surface (plugin_surface s p)) s),
          (\<lambda>s. unset_user_data (fs_color_representation (plugin_surface s p)) s),
          (\<lambda>s. unset_user_data (fs_subsurface (plugin_surface s p)) s),
          destroy_subsurface_parts p]"

subsection \<open>Subsurfaces\<close>

partial_function (option) ancestor_of :: "swaylock_state \<Rightarrow> nat \<Rightarrow> nat option" where
  "ancestor_of s p =
     (case fs_subsurface_parent (plugin_surface s p) of
        None \<Rightarrow> Some p
      | Some q \<Rightarrow> if alive s q then ancestor_of s q else None)"

declare ancestor_of.simps [code]

text \<open>\<open>resource\<close> is the subcompositor on which errors are reported.\<close>

definition subcompositor_get_subsurface :: "nat \<Rightarrow> nat \<Rightarrow> nat \<Rightarrow> nat \<Rightarrow> swaylock_state \<Rightarrow> swaylock_state" where
  "subcompositor_get_subsurface c resource child parent s =
     (if fs_layer_surface (plugin_surface s child) \<noteq> None
      then emit (Down (Post_error resource ''child surface already has a role (layer surface)'')) s
      else if fs_subsurface_parent (plugin_surface s child) \<noteq> None
      then emit (Down (Post_error resource ''child surface already has a subsurface'')) s
      else
        (case ancestor_of s parent of
           None \<Rightarrow> halt_with Undefined s
         | Some a \<Rightarrow>
             if a = child then emit (Down (Post_error resource ''parent surface descends from child'')) s
             else
               let w = st_forward s;
                   ext = \<lparr>au_surface = True, au_viewport = fw_viewporter w,
                          au_color_rep_surface = fw_color_representation w, au_color_surface = fw_color_management w\<rparr>;
                   (r, s1) = new_resource c K_subsurface (emit (Surf (Subsurface child) Create_surface) s)
               in set_user_data r (Some child)
                    (on_plugin_surface child (\<lambda>u. u\<lparr>fs_subsurface := Some r, fs_subsurface_parent := Some parent,
                                                     fs_ext_surface := ext\<rparr>)
                      (on_pending parent (\<lambda>st. st\<lparr>ss_subsurfaces_above := ss_subsurfaces_above st @ [child]\<rparr>) s1))))"

text \<open>A request on a subsurface: nothing happens without a parent; otherwise the entry must be listed.  (The lists of a
  destroyed parent are not touched by a request that only changes the entry.)\<close>

definition on_subsurface :: "nat \<Rightarrow> (nat \<Rightarrow> nat \<Rightarrow> swaylock_state \<Rightarrow> swaylock_state) \<Rightarrow> swaylock_state \<Rightarrow> swaylock_state" where
  "on_subsurface r f s =
     (case fw_user_data (st_forward s) r of
        None \<Rightarrow> halt_with Undefined s
      | Some p \<Rightarrow>
          if \<not> alive s p then halt_with Undefined s
          else case fs_subsurface_parent (plugin_surface s p) of
            None \<Rightarrow> s
          | Some q \<Rightarrow>
              if fs_inert (plugin_surface s p) then s
              else run [c_assert (listed p (pending s q)), f p q] s)"

definition nested_subsurface_set_position :: "nat \<Rightarrow> int \<Rightarrow> int \<Rightarrow> swaylock_state \<Rightarrow> swaylock_state" where
  "nested_subsurface_set_position r x y =
     on_subsurface r (\<lambda>p q. on_plugin_surface p (\<lambda>u. u\<lparr>fs_pending_entry := (fs_pending_entry u)\<lparr>su_pos_x := x, su_pos_y := y\<rparr>\<rparr>))"

definition nested_subsurface_set_sync :: "nat \<Rightarrow> swaylock_state \<Rightarrow> swaylock_state" where
  "nested_subsurface_set_sync r =
     on_subsurface r (\<lambda>p q. on_plugin_surface p (\<lambda>u. u\<lparr>fs_pending_entry := (fs_pending_entry u)\<lparr>su_is_desync := False\<rparr>\<rparr>))"

definition nested_subsurface_set_desync :: "nat \<Rightarrow> swaylock_state \<Rightarrow> swaylock_state" where
  "nested_subsurface_set_desync r =
     on_subsurface r (\<lambda>p q. on_plugin_surface p (\<lambda>u. u\<lparr>fs_pending_entry := (fs_pending_entry u)\<lparr>su_is_desync := True\<rparr>\<rparr>))"

text \<open>Inserting next to a sibling, in whichever of the two stacks it is.\<close>

fun insert_after :: "nat \<Rightarrow> nat \<Rightarrow> nat list \<Rightarrow> nat list" where
  "insert_after sib p [] = []"
| "insert_after sib p (x # xs) = (if x = sib then x # p # xs else x # insert_after sib p xs)"

fun insert_before :: "nat \<Rightarrow> nat \<Rightarrow> nat list \<Rightarrow> nat list" where
  "insert_before sib p [] = []"
| "insert_before sib p (x # xs) = (if x = sib then p # x # xs else x # insert_before sib p xs)"

definition place_beside ::
  "(surface_state \<Rightarrow> surface_state) \<Rightarrow> (nat list \<Rightarrow> nat list) \<Rightarrow> nat \<Rightarrow> nat \<Rightarrow> nat \<Rightarrow> nat \<Rightarrow> swaylock_state \<Rightarrow> swaylock_state" where
  "place_beside next_to_parent next_to_sibling r sib p q s =
     (if q = sib then on_pending q (\<lambda>st. next_to_parent (unlist p st)) s
      else if fs_subsurface_parent (plugin_surface s sib) = Some q then
        let old = pending s q; u = unlist p old;
            new = u\<lparr>ss_subsurfaces_above := next_to_sibling (ss_subsurfaces_above u),
                    ss_subsurfaces_below := next_to_sibling (ss_subsurfaces_below u)\<rparr>
        in if \<not> alive s q \<and> (beside_head p old \<or> beside_head p new) then halt_with Undefined s
           else on_pending q (\<lambda>_. new) s
      else emit (Down (Post_error r ''surface neither sibling nor parent'')) s)"

text \<open>The assertion that a surface is not placed beside itself comes before everything else.\<close>

definition nested_subsurface_place_above :: "nat \<Rightarrow> nat \<Rightarrow> swaylock_state \<Rightarrow> swaylock_state" where
  "nested_subsurface_place_above r sib s =
     run [c_assert (fw_user_data (st_forward s) r \<noteq> Some sib),
          on_subsurface r (\<lambda>p. place_beside (\<lambda>st. st\<lparr>ss_subsurfaces_above := p # ss_subsurfaces_above st\<rparr>)
                                 (insert_after sib p) r sib p)] s"

definition nested_subsurface_place_below :: "nat \<Rightarrow> nat \<Rightarrow> swaylock_state \<Rightarrow> swaylock_state" where
  "nested_subsurface_place_below r sib s =
     run [c_assert (fw_user_data (st_forward s) r \<noteq> Some sib),
          on_subsurface r (\<lambda>p. place_beside (\<lambda>st. st\<lparr>ss_subsurfaces_below := ss_subsurfaces_below st @ [p]\<rparr>)
                                 (insert_before sib p) r sib p)] s"

definition subsurface_handle_resource_destroy :: "nat \<Rightarrow> swaylock_state \<Rightarrow> swaylock_state" where
  "subsurface_handle_resource_destroy r s =
     (case fw_user_data (st_forward s) r of
        None \<Rightarrow> s
      | Some p \<Rightarrow> if alive s p then destroy_subsurface_parts p s else halt_with Undefined s)"

subsection \<open>Buffers\<close>

text \<open>\<open>handle_buffer_release\<close>, and the destruction of the client's handle: every surface that shows the buffer forgets
  it, and the upstream buffer goes unless a surface still has it pending.\<close>

definition handle_buffer_release :: "nat \<Rightarrow> swaylock_state \<Rightarrow> swaylock_state" where
  "handle_buffer_release b s =
     (if fb_resource (plugin_buffer s b) then emit (Down (Send_buffer_release b)) s else s)"

definition forget_buffer :: "nat \<Rightarrow> nat \<Rightarrow> swaylock_state \<Rightarrow> swaylock_state" where
  "forget_buffer b p s =
     (let s1 = (if ss_attachment (pending s p) = ss_attachment (committed s p)
                then on_buffer b (\<lambda>fb. fb\<lparr>fb_pending_surfaces := remove1 p (fb_pending_surfaces fb)\<rparr>)
                       (on_pending p (\<lambda>st. st\<lparr>ss_attachment := BUFFER_COMMITTED\<rparr>) s)
                else s)
      in on_buffer b (\<lambda>fb. fb\<lparr>fb_committed_surfaces := remove1 p (fb_committed_surfaces fb)\<rparr>)
           (on_committed p (\<lambda>st. st\<lparr>ss_attachment := BUFFER_UNREACHABLE\<rparr>) s1))"

definition buffer_handle_resource_destroy :: "nat \<Rightarrow> swaylock_state \<Rightarrow> swaylock_state" where
  "buffer_handle_resource_destroy b s =
     (let s1 = fold (forget_buffer b) (fb_committed_surfaces (plugin_buffer s b)) s
      in if fb_pending_surfaces (plugin_buffer s1 b) = [] then free_plugin_buffer b s1
         else on_buffer b (\<lambda>fb. fb\<lparr>fb_resource := False\<rparr>) s1)"

definition make_buffer :: "nat \<Rightarrow> int \<Rightarrow> int \<Rightarrow> swaylock_state \<Rightarrow> nat \<times> swaylock_state" where
  "make_buffer c width height s =
     (let (b, s1) = new_resource c K_buffer s
      in (b, on_buffer b (\<lambda>_. \<lparr>fb_resource = True, fb_pending_surfaces = [], fb_committed_surfaces = [],
                               fb_width = word_of_int width, fb_height = word_of_int height\<rparr>) s1))"

text \<open>A buffer that exists at once: the locker asks for the upstream buffer itself.\<close>

definition create_plugin_buffer :: "nat \<Rightarrow> int \<Rightarrow> int \<Rightarrow> swaylock_state \<Rightarrow> swaylock_state" where
  "create_plugin_buffer c width height s =
     (let (b, s1) = make_buffer c width height s in emit (Up (Create_buffer (Plugin_buffer b) width height)) s1)"

definition nested_shm_pool_create_buffer :: "nat \<Rightarrow> nat \<Rightarrow> int \<Rightarrow> int \<Rightarrow> swaylock_state \<Rightarrow> swaylock_state" where
  "nested_shm_pool_create_buffer c pool width height s =
     (case fw_user_data (st_forward s) pool of
        None \<Rightarrow> halt_with Undefined s
      | Some _ \<Rightarrow> create_plugin_buffer c width height s)"

subsection \<open>Buffers of linux-dmabuf\<close>

text \<open>
  The parameters of a buffer are forwarded as they come, and the planes' descriptors closed.  \<open>fw_params\<close> keeps the size for a
  buffer that the compositor makes later, or refuses; the upstream buffer is then the one of the event.
\<close>

definition nested_linux_dmabuf_create_params :: "nat \<Rightarrow> swaylock_state \<Rightarrow> swaylock_state" where
  "nested_linux_dmabuf_create_params c s =
     (let (r, s1) = new_resource c K_dmabuf_params s
      in on_forward (\<lambda>w. w\<lparr>fw_params := (fw_params w)(r := (0, 0))\<rparr>) (emit (Up (Create_params r)) s1))"

definition nested_dmabuf_params_add ::
  "nat \<Rightarrow> int \<Rightarrow> u32 \<Rightarrow> u32 \<Rightarrow> u32 \<Rightarrow> u32 \<Rightarrow> u32 \<Rightarrow> swaylock_state \<Rightarrow> swaylock_state" where
  "nested_dmabuf_params_add r fd plane_idx offset stride modifier_hi modifier_lo s =
     emit (Sys (Close fd)) (emit (Up (Add_plane r fd plane_idx offset stride modifier_hi modifier_lo)) s)"

definition nested_dmabuf_params_create :: "nat \<Rightarrow> int \<Rightarrow> int \<Rightarrow> u32 \<Rightarrow> u32 \<Rightarrow> swaylock_state \<Rightarrow> swaylock_state" where
  "nested_dmabuf_params_create r width height format flags s =
     emit (Up (Request_buffer r width height format flags))
       (on_forward (\<lambda>w. w\<lparr>fw_params := (fw_params w)(r := (width, height))\<rparr>) s)"

definition nested_dmabuf_params_create_immed :: "nat \<Rightarrow> int \<Rightarrow> int \<Rightarrow> swaylock_state \<Rightarrow> swaylock_state" where
  "nested_dmabuf_params_create_immed c width height = create_plugin_buffer c width height"

definition linux_dmabuf_params_handle_resource_destroy :: "nat \<Rightarrow> swaylock_state \<Rightarrow> swaylock_state" where
  "linux_dmabuf_params_handle_resource_destroy r = emit (Up (Destroy_params r))"

definition handle_dmabuf_params_created :: "nat \<Rightarrow> nat \<Rightarrow> swaylock_state \<Rightarrow> swaylock_state" where
  "handle_dmabuf_params_created c r s =
     (let (width, height) = fw_params (st_forward s) r; (b, s1) = make_buffer c width height s
      in emit (Down (Send_params_created r b)) s1)"

definition handle_dmabuf_params_failed :: "nat \<Rightarrow> swaylock_state \<Rightarrow> swaylock_state" where
  "handle_dmabuf_params_failed r = emit (Down (Send_params_failed r))"

subsection \<open>Regions and data devices\<close>

text \<open>These objects exist, and ignore every request but the one that destroys them.\<close>

definition compositor_create_region :: "nat \<Rightarrow> swaylock_state \<Rightarrow> swaylock_state" where
  "compositor_create_region c s = snd (new_resource c K_region s)"

definition nested_ddm_create_data_source :: "nat \<Rightarrow> swaylock_state \<Rightarrow> swaylock_state" where
  "nested_ddm_create_data_source c s = snd (new_resource c K_data_source s)"

definition nested_ddm_get_data_device :: "nat \<Rightarrow> swaylock_state \<Rightarrow> swaylock_state" where
  "nested_ddm_get_data_device c s = snd (new_resource c K_data_device s)"

subsection \<open>Shared memory pools\<close>

definition on_pool :: "nat \<Rightarrow> (forwarded_shm_pool \<Rightarrow> forwarded_shm_pool) \<Rightarrow> swaylock_state \<Rightarrow> swaylock_state" where
  "on_pool e f = on_forward (\<lambda>w. w\<lparr>fw_pool := (fw_pool w)(e := f (fw_pool w e))\<rparr>)"

abbreviation shm_pool :: "swaylock_state \<Rightarrow> nat \<Rightarrow> forwarded_shm_pool" where
  "shm_pool s e \<equiv> fw_pool (st_forward s) e"

definition grow_pool :: "nat \<Rightarrow> int \<Rightarrow> swaylock_state \<Rightarrow> swaylock_state" where
  "grow_pool e sz s =
     (if sz > pool_size (shm_pool s e)
      then on_pool e (\<lambda>q. q\<lparr>pool_size := sz\<rparr>) (emit (Up (Resize_pool e sz)) s) else s)"

text \<open>\<open>identity\<close>: device and inode of the file, \<open>None\<close> when \<open>fstat\<close> fails.\<close>

definition shm_create_pool :: "nat \<Rightarrow> (nat \<times> nat) option \<Rightarrow> int \<Rightarrow> swaylock_state \<Rightarrow> swaylock_state" where
  "shm_create_pool c identity sz s =
     (let (r, s1) = new_resource c K_shm_pool s in
      case (if identity = None then None
            else find (\<lambda>e. pool_identity (shm_pool s1 e) = identity) (fw_shm_pools (st_forward s1))) of
        Some e \<Rightarrow>
          set_user_data r (Some e) (on_pool e (\<lambda>q. q\<lparr>pool_refcount := pool_refcount q + 1\<rparr>) (grow_pool e sz s1))
      | None \<Rightarrow>
          let e = fw_next (st_forward s1);
              s2 = on_forward (\<lambda>w. w\<lparr>fw_next := Suc e,
                     fw_pool := (fw_pool w)(e := \<lparr>pool_identity = identity, pool_size = sz, pool_refcount = 1\<rparr>),
                     fw_shm_pools := (if identity = None then fw_shm_pools w else e # fw_shm_pools w)\<rparr>) s1
          in set_user_data r (Some e) (emit (Up (Create_pool e sz)) s2))"

definition nested_shm_pool_resize :: "nat \<Rightarrow> int \<Rightarrow> swaylock_state \<Rightarrow> swaylock_state" where
  "nested_shm_pool_resize r sz s =
     (case fw_user_data (st_forward s) r of
        None \<Rightarrow> halt_with Undefined s
      | Some e \<Rightarrow> grow_pool e sz s)"

definition shm_pool_handle_resource_destroy :: "nat \<Rightarrow> swaylock_state \<Rightarrow> swaylock_state" where
  "shm_pool_handle_resource_destroy r s =
     (case fw_user_data (st_forward s) r of
        None \<Rightarrow> halt_with Undefined s
      | Some e \<Rightarrow>
          let s1 = on_pool e (\<lambda>q. q\<lparr>pool_refcount := pool_refcount q - 1\<rparr>) s
          in if pool_refcount (shm_pool s1 e) > 0 then s1
             else on_forward (\<lambda>w. w\<lparr>fw_shm_pools := removeAll e (fw_shm_pools w)\<rparr>)
                    (emit (Up (Destroy_pool e)) s1))"

subsection \<open>Viewports and fractional scales\<close>

text \<open>The surface behind a viewport, a fractional scale or a colour object.\<close>

definition with_surface :: "nat \<Rightarrow> (nat \<Rightarrow> swaylock_state \<Rightarrow> swaylock_state) \<Rightarrow> (swaylock_state \<Rightarrow> swaylock_state) \<Rightarrow> swaylock_state \<Rightarrow> swaylock_state" where
  "with_surface r f g s =
     (case fw_user_data (st_forward s) r of
        None \<Rightarrow> g s
      | Some p \<Rightarrow> if alive s p then f p s else halt_with Undefined s)"

definition nested_viewport_set_source :: "nat \<Rightarrow> int \<Rightarrow> int \<Rightarrow> int \<Rightarrow> int \<Rightarrow> swaylock_state \<Rightarrow> swaylock_state" where
  "nested_viewport_set_source r x y width height s =
     (let n = wl_fixed_from_int (-1);
          no_source = (x = n \<and> y = n \<and> width = n \<and> height = n)
      in if (x < 0 \<or> y < 0 \<or> width \<le> 0 \<or> height \<le> 0) \<and> \<not> no_source
         then emit (Down (Post_error r ''invalid x/y/width/height for set_source'')) s
         else with_surface r (\<lambda>p. on_pending p (\<lambda>st. st\<lparr>ss_viewport_source_x := x, ss_viewport_source_y := y,
                 ss_viewport_source_w := width, ss_viewport_source_h := height\<rparr>)) (halt_with Undefined) s)"

definition nested_viewport_set_destination :: "nat \<Rightarrow> int \<Rightarrow> int \<Rightarrow> swaylock_state \<Rightarrow> swaylock_state" where
  "nested_viewport_set_destination r width height s =
     (if (width \<le> 0 \<or> height \<le> 0) \<and> \<not> (width = -1 \<and> height = -1)
      then emit (Down (Post_error r ''invalid width/height pair for set_destination'')) s
      else with_surface r (\<lambda>p. on_pending p (\<lambda>st. st\<lparr>ss_viewport_dest_width := width, ss_viewport_dest_height := height\<rparr>))
             (halt_with Undefined) s)"

text \<open>An error for a second object is posted, but the object is created all the same.\<close>

definition already_exists :: "nat \<Rightarrow> string \<Rightarrow> nat option \<Rightarrow> swaylock_state \<Rightarrow> swaylock_state" where
  "already_exists resource msg old s = (if old \<noteq> None then emit (Down (Post_error resource msg)) s else s)"

definition nested_viewporter_get_viewport :: "nat \<Rightarrow> nat \<Rightarrow> nat \<Rightarrow> swaylock_state \<Rightarrow> swaylock_state" where
  "nested_viewporter_get_viewport c resource p s =
     (let (r, s1) = new_resource c K_viewport
            (already_exists resource ''viewport already exists'' (fs_viewport (plugin_surface s p)) s)
      in set_user_data r (Some p) (on_plugin_surface p (\<lambda>u. u\<lparr>fs_viewport := Some r\<rparr>) s1))"

definition viewport_handle_resource_destroy :: "nat \<Rightarrow> swaylock_state \<Rightarrow> swaylock_state" where
  "viewport_handle_resource_destroy r = with_surface r (\<lambda>p. on_plugin_surface p (\<lambda>u. u\<lparr>fs_viewport := None\<rparr>)) (\<lambda>s. s)"

definition nested_get_fractional_scale :: "nat \<Rightarrow> nat \<Rightarrow> nat \<Rightarrow> swaylock_state \<Rightarrow> swaylock_state" where
  "nested_get_fractional_scale c resource p s =
     (let (r, s1) = new_resource c K_fractional_scale
            (already_exists resource ''fractional scale already exists'' (fs_fractional_scale (plugin_surface s p)) s);
          s2 = on_plugin_surface p (\<lambda>u. u\<lparr>fs_fractional_scale := Some r\<rparr>) s1;
          s3 = (case fs_sway_surface (plugin_surface s2 p) of
                  None \<Rightarrow> s2
                | Some i \<Rightarrow>
                    if sw_last_fractional_scale (st_surface s2 i) > 0
                    then emit (Down (Send_preferred_scale r (sw_last_fractional_scale (st_surface s2 i)))) s2 else s2)
      in set_user_data r (Some p) s3)"

definition fractional_scale_handle_resource_destroy :: "nat \<Rightarrow> swaylock_state \<Rightarrow> swaylock_state" where
  "fractional_scale_handle_resource_destroy r =
     with_surface r (\<lambda>p. on_plugin_surface p (\<lambda>u. u\<lparr>fs_fractional_scale := None\<rparr>)) (\<lambda>s. s)"

subsection \<open>Colour\<close>

definition nested_color_surface_set_image_desc :: "nat \<Rightarrow> nat \<Rightarrow> u32 \<Rightarrow> swaylock_state \<Rightarrow> swaylock_state" where
  "nested_color_surface_set_image_desc r d render_intent =
     with_surface r
       (\<lambda>p. run
          [(\<lambda>s. case ss_image_desc (pending s p) of None \<Rightarrow> s | Some old \<Rightarrow> unlink_pending_desc p old s),
           on_pending p (\<lambda>st. st\<lparr>ss_render_intent := render_intent, ss_image_desc := Some d\<rparr>),
           on_image_desc d (\<lambda>i. i\<lparr>fd_pending_surfaces := p # fd_pending_surfaces i\<rparr>)])
       (\<lambda>s. s)"

definition nested_color_surface_unset_image_desc :: "nat \<Rightarrow> swaylock_state \<Rightarrow> swaylock_state" where
  "nested_color_surface_unset_image_desc r =
     with_surface r
       (\<lambda>p. run
          [(\<lambda>s. case ss_image_desc (pending s p) of None \<Rightarrow> s | Some old \<Rightarrow> unlink_pending_desc p old s),
           on_pending p (\<lambda>st. st\<lparr>ss_render_intent := 0, ss_image_desc := None\<rparr>)])
       (\<lambda>s. s)"

definition color_surface_handle_resource_destroy :: "nat \<Rightarrow> swaylock_state \<Rightarrow> swaylock_state" where
  "color_surface_handle_resource_destroy r =
     with_surface r
       (\<lambda>p. run [(\<lambda>s. c_assert (fs_color_surface (plugin_surface s p) = Some r) s),
                 on_plugin_surface p (\<lambda>u. u\<lparr>fs_color_surface := None\<rparr>)])
       (\<lambda>s. s)"

definition nested_color_get_surface :: "nat \<Rightarrow> nat \<Rightarrow> nat \<Rightarrow> swaylock_state \<Rightarrow> swaylock_state" where
  "nested_color_get_surface c resource p s =
     (let (r, s1) = new_resource c K_color_surface
            (already_exists resource ''color management surface already exists'' (fs_color_surface (plugin_surface s p)) s)
      in set_user_data r (Some p) (on_plugin_surface p (\<lambda>u. u\<lparr>fs_color_surface := Some r\<rparr>) s1))"

text \<open>\<open>create_forward_image_desc\<close> and \<open>create_output_image_desc\<close>.\<close>

definition create_image_desc :: "nat \<Rightarrow> bool \<Rightarrow> swaylock_state \<Rightarrow> swaylock_state" where
  "create_image_desc c server_side s =
     (let (d, s1) = new_resource c K_image_desc s
      in on_image_desc d (\<lambda>_. \<lparr>fd_resource = True, fd_server_side = server_side, fd_pending_surfaces = [],
                               fd_committed_surfaces = []\<rparr>) s1)"

definition image_desc_handle_resource_destroy :: "nat \<Rightarrow> swaylock_state \<Rightarrow> swaylock_state" where
  "image_desc_handle_resource_destroy d s =
     delete_image_desc_if_unreferenced d (on_image_desc d (\<lambda>i. i\<lparr>fd_resource := False\<rparr>) s)"

definition nested_color_rep_surface_set_alpha_mode :: "nat \<Rightarrow> u32 \<Rightarrow> swaylock_state \<Rightarrow> swaylock_state" where
  "nested_color_rep_surface_set_alpha_mode r alpha_mode =
     with_surface r (\<lambda>p. on_pending p (\<lambda>st. st\<lparr>ss_has_alpha_mode := True, ss_alpha_mode := alpha_mode\<rparr>)) (\<lambda>s. s)"

definition nested_color_rep_surface_set_coefficients_and_range :: "nat \<Rightarrow> u32 \<Rightarrow> u32 \<Rightarrow> swaylock_state \<Rightarrow> swaylock_state" where
  "nested_color_rep_surface_set_coefficients_and_range r coefficients rng =
     with_surface r (\<lambda>p. on_pending p (\<lambda>st. st\<lparr>ss_has_coef_range := True, ss_coefficients := coefficients,
        ss_range := rng\<rparr>)) (\<lambda>s. s)"

definition nested_color_rep_surface_set_chroma_location :: "nat \<Rightarrow> u32 \<Rightarrow> swaylock_state \<Rightarrow> swaylock_state" where
  "nested_color_rep_surface_set_chroma_location r chroma_location =
     with_surface r (\<lambda>p. on_pending p (\<lambda>st. st\<lparr>ss_has_chroma_location := True, ss_chroma_location := chroma_location\<rparr>))
       (\<lambda>s. s)"

definition color_rep_handle_resource_destroy :: "nat \<Rightarrow> swaylock_state \<Rightarrow> swaylock_state" where
  "color_rep_handle_resource_destroy r =
     with_surface r
       (\<lambda>p. run [on_pending p (\<lambda>st. st\<lparr>ss_has_alpha_mode := False, ss_alpha_mode := 0, ss_has_coef_range := False,
                   ss_coefficients := 0, ss_range := 0, ss_has_chroma_location := False, ss_chroma_location := 0\<rparr>),
                 (\<lambda>s. c_assert (fs_color_representation (plugin_surface s p) = Some r) s),
                 on_plugin_surface p (\<lambda>u. u\<lparr>fs_color_representation := None\<rparr>)])
       (\<lambda>s. s)"

definition nested_color_rep_get_surface :: "nat \<Rightarrow> nat \<Rightarrow> nat \<Rightarrow> swaylock_state \<Rightarrow> swaylock_state" where
  "nested_color_rep_get_surface c resource p s =
     (let (r, s1) = new_resource c K_color_representation
            (already_exists resource ''color representation already exists''
               (fs_color_representation (plugin_surface s p)) s)
      in set_user_data r (Some p) (on_plugin_surface p (\<lambda>u. u\<lparr>fs_color_representation := Some r\<rparr>) s1))"

subsection \<open>Destroying resources\<close>

text \<open>A frame callback leaves the list it is on, the surface's or a group's.\<close>

definition frame_callback_handle_resource_destroy :: "nat \<Rightarrow> swaylock_state \<Rightarrow> swaylock_state" where
  "frame_callback_handle_resource_destroy cb =
     on_forward (\<lambda>w. w\<lparr>fw_surface := (\<lambda>p. (fw_surface w p)\<lparr>fs_frame_callbacks := removeAll cb (fs_frame_callbacks (fw_surface w p))\<rparr>),
       fw_frame_callbacks := (\<lambda>g. map_option (\<lambda>(cbs, output). (removeAll cb cbs, output)) (fw_frame_callbacks w g))\<rparr>)"

text \<open>An object of an output leaves the list it is on, its output's or a stale one.\<close>

definition output_resource_destroy :: "nat \<Rightarrow> swaylock_state \<Rightarrow> swaylock_state" where
  "output_resource_destroy r s =
     s\<lparr>st_surface := (\<lambda>i. (st_surface s i)\<lparr>
         sw_wl_output_resources := removeAll r (sw_wl_output_resources (st_surface s i)),
         sw_xdg_output_resources := removeAll r (sw_xdg_output_resources (st_surface s i)),
         sw_color_output_resources := removeAll r (sw_color_output_resources (st_surface s i))\<rparr>),
       st_stale_wl_output_resources := removeAll r (st_stale_wl_output_resources s),
       st_stale_xdg_output_resources := removeAll r (st_stale_xdg_output_resources s),
       st_stale_color_output_resources := removeAll r (st_stale_color_output_resources s)\<rparr>"

text \<open>The destructor of each kind of resource; layer surfaces and regions have none, and those of data sources and data devices
  only check the type.\<close>

fun destructor ::
  "resource_kind \<Rightarrow> nat \<Rightarrow> swaylock_state \<Rightarrow> swaylock_state" where
  "destructor K_surface r = surface_handle_resource_destroy r"
| "destructor K_callback r = frame_callback_handle_resource_destroy r"
| "destructor K_buffer r = buffer_handle_resource_destroy r"
| "destructor K_image_desc r = image_desc_handle_resource_destroy r"
| "destructor K_shm_pool r = shm_pool_handle_resource_destroy r"
| "destructor K_viewport r = viewport_handle_resource_destroy r"
| "destructor K_fractional_scale r = fractional_scale_handle_resource_destroy r"
| "destructor K_subsurface r = subsurface_handle_resource_destroy r"
| "destructor K_layer_surface r = (\<lambda>s. s)"
| "destructor K_color_surface r = color_surface_handle_resource_destroy r"
| "destructor K_color_representation r = color_rep_handle_resource_destroy r"
| "destructor K_output r = output_resource_destroy r"
| "destructor K_xdg_output r = output_resource_destroy r"
| "destructor K_color_output r = output_resource_destroy r"
| "destructor K_dmabuf_params r = linux_dmabuf_params_handle_resource_destroy r"
| "destructor K_region r = (\<lambda>s. s)"
| "destructor K_data_source r = (\<lambda>s. s)"
| "destructor K_data_device r = (\<lambda>s. s)"

text \<open>\<open>wl_resource_destroy\<close>: the destructor runs while the resource still exists.\<close>

definition kind_of :: "swaylock_state \<Rightarrow> nat \<Rightarrow> resource_kind option" where
  "kind_of s r = map_option rs_kind (find (\<lambda>x. rs_id x = r) (fw_resources (st_forward s)))"

definition wl_resource_destroy :: "nat \<Rightarrow> swaylock_state \<Rightarrow> swaylock_state" where
  "wl_resource_destroy r s =
     (case kind_of s r of
        None \<Rightarrow> halt_with Undefined s
      | Some k \<Rightarrow> run [destructor k r, remove_resource r] s)"

text \<open>A colour surface unsets its description before it goes.\<close>

definition nested_color_surface_destroy :: "nat \<Rightarrow> swaylock_state \<Rightarrow> swaylock_state" where
  "nested_color_surface_destroy r =
     run [nested_color_surface_unset_image_desc r, wl_resource_destroy r]"

end
