(* ===== verification/Commit.thy ===== *)
theory Commit
  imports ForwardSurface
begin

section \<open>What a commit does\<close>

text \<open>
  The frame of \<open>apply_pending_surface_updates\<close> (\<open>forwarded\<close>), the effect of each of its statements, and
  the properties of \<open>nested_surface_commit\<close>.
\<close>

subsection \<open>What applying the pending state leaves alone\<close>

text \<open>\<open>forward_core\<close> is the part of the state that forwarding a commit cannot change: all but the committed half of
  the surfaces, the links of buffers and descriptions, callback groups, the presentation clocks and requests
  other than commits of a background surface.\<close>

fun background_commit :: "effect \<Rightarrow> bool" where
  "background_commit (Surf (Background i) Commit) = True"
| "background_commit _ = False"

definition requested :: "forward_surface \<Rightarrow> forward_surface" where
  "requested u = u\<lparr>fs_ext_subsurface := False, fs_committed_entry := zero_entry, fs_frame_callbacks := [],
     fs_committed := default_surface_state, fs_committed_buffer_width := 0, fs_committed_buffer_height := 0,
     fs_buffer_damage := [], fs_old_damage := []\<rparr>"

definition forward_core :: "swaylock_state \<Rightarrow> swaylock_state" where
  "forward_core s = s\<lparr>
     st_forward := (st_forward s)\<lparr>fw_surface := (\<lambda>p. requested (plugin_surface s p)), fw_buffer := (\<lambda>b. (plugin_buffer s b)\<lparr>fb_pending_surfaces := [], fb_committed_surfaces := []\<rparr>),
       fw_image_desc := fw_image_desc zero_forward, fw_frame_callbacks := (\<lambda>_. None), fw_next := 0\<rparr>,
     st_surface := (\<lambda>i. (st_surface s i)\<lparr>sw_frame_pending := False, sw_frame_pending_since := zero_time\<rparr>),
     st_world := (st_world s)\<lparr>w_calls := 0\<rparr>, st_trace := filter background_commit (st_trace s), st_halt := None\<rparr>"

definition forwarded :: "swaylock_state \<Rightarrow> swaylock_state \<Rightarrow> bool" where
  "forwarded s s' \<longleftrightarrow> forward_core s' = forward_core s \<and> (\<exists>tr. st_trace s' = st_trace s @ tr)"

lemma forwarded_refl [simp]: "forwarded s s"
  by (simp add: forwarded_def)

lemma forwarded_by:
  assumes "forwarded s s'" and "forward_core s'' = forward_core s'" and "\<exists>tr. st_trace s'' = st_trace s' @ tr"
  shows "forwarded s s''"
  using assms by (auto simp: forwarded_def)

lemma forwarded_step:
  assumes "forwarded s s'"
  shows "\<not> background_commit e \<Longrightarrow> forwarded s (emit e s')"
    "forwarded s (halt_with h s')"
    "forwarded s (c_assert b s')"
    "forwarded s (on_buffer k (\<lambda>fb. fb\<lparr>fb_committed_surfaces := g fb\<rparr>) s')"
    "forwarded s (on_image_desc d i s')"
  by (rule forwarded_by [OF assms];
      simp add: forward_core_def emit_def halt_with_def c_assert_def on_buffer_def on_image_desc_def on_forward_def fun_eq_iff)+

lemma forwarded_group:
  assumes "forwarded s s'"
  shows "forwarded s (on_forward (\<lambda>w. w\<lparr>fw_frame_callbacks := f w, fw_next := g w\<rparr>) s')"
  by (rule forwarded_by [OF assms]) (simp_all add: forward_core_def on_forward_def)

lemma forwarded_plugin:
  assumes "forwarded s s'" and "\<And>u. requested (f u) = requested u"
  shows "forwarded s (on_plugin_surface p f s')"
proof (rule forwarded_by [OF assms(1)])
  have "(\<lambda>q. requested (((fw_surface (st_forward s'))(p := f (plugin_surface s' p))) q)) = (\<lambda>q. requested (plugin_surface s' q))"
    using assms(2) by (auto simp: fun_eq_iff)
  then show "forward_core (on_plugin_surface p f s') = forward_core s'"
    by (simp add: forward_core_def on_plugin_surface_def on_forward_def)
qed (simp add: on_plugin_surface_def on_forward_def)

lemma forwarded_store:
  assumes "forwarded s s'"
  shows "forwarded s (on_committed p k s')"
    "forwarded s (on_plugin_surface p (\<lambda>u. u\<lparr>fs_committed_buffer_width := w, fs_committed_buffer_height := h\<rparr>) s')"
    "forwarded s (on_plugin_surface p (\<lambda>u. u\<lparr>fs_buffer_damage := [], fs_old_damage := []\<rparr>) s')"
    "forwarded s (on_plugin_surface p (\<lambda>u. u\<lparr>fs_ext_subsurface := x\<rparr>) s')"
    "forwarded s (on_plugin_surface p (\<lambda>u. u\<lparr>fs_committed_entry := e\<rparr>) s')"
    "forwarded s (on_plugin_surface p (\<lambda>u. u\<lparr>fs_frame_callbacks := []\<rparr>) s')"
  unfolding on_committed_def by (rule forwarded_plugin [OF assms]; simp add: requested_def)+

lemma forwarded_run:
  assumes "forwarded s s'" and "\<And>s s' f. f \<in> set fs \<Longrightarrow> forwarded s s' \<Longrightarrow> forwarded s (f s')"
  shows "forwarded s (run fs s')"
  using assms by (induction fs arbitrary: s') auto

lemma forwarded_fold:
  assumes "forwarded s s'" and "\<And>x s'. forwarded s s' \<Longrightarrow> forwarded s (f x s')"
  shows "forwarded s (fold f xs s')"
  using assms by (induction xs arbitrary: s') auto

lemma forwarded_branch:
  "(b \<Longrightarrow> forwarded s x) \<Longrightarrow> (\<not> b \<Longrightarrow> forwarded s y) \<Longrightarrow> forwarded s (if b then x else y)"
  "(forwarded s n) \<Longrightarrow> (\<And>v. forwarded s (g v)) \<Longrightarrow> forwarded s (case q of None \<Rightarrow> n | Some v \<Rightarrow> g v)"
  "forwarded s n \<Longrightarrow> (\<And>v. forwarded s (g v)) \<Longrightarrow> forwarded s m \<Longrightarrow> forwarded s l \<Longrightarrow>
   forwarded s (case a of No_buffer \<Rightarrow> n | Buffer v \<Rightarrow> g v | BUFFER_UNREACHABLE \<Rightarrow> m | BUFFER_COMMITTED \<Rightarrow> l)"
  by (auto split: option.split attachment.split)

lemma forwarded_clock:
  assumes "forwarded s s'" shows "forwarded s (start_presentation_clock i s')"
  by (rule forwarded_by [OF assms])
     (auto simp: start_presentation_clock_def forward_core_def on_surface_def clock_gettime_def next_call_def
        Let_def fun_eq_iff split: option.split)

lemmas forwarded_intros = forwarded_step forwarded_store forwarded_group forwarded_run forwarded_fold forwarded_branch
  forwarded_clock

declare run.simps [simp del]

lemma forwarded_desc:
  "forwarded s s' \<Longrightarrow> forwarded s (unlink_committed_desc p d s')"
  unfolding unlink_committed_desc_def delete_image_desc_if_unreferenced_def Let_def
  by (intro forwarded_intros; simp)

lemma forwarded_entry: "forwarded s s' \<Longrightarrow> forwarded s (apply_pending_subsurf_entry e p s')"
  unfolding apply_pending_subsurf_entry_def Let_def
  by (intro forwarded_intros) (auto intro!: forwarded_intros)

lemma forwarded_stack:
  assumes "\<And>e q. \<not> background_commit (Surf (Subsurface e) (place q))" and "forwarded s s'"
  shows "forwarded s (apply_stack place f p es sibling s')"
  using assms(2)
proof (induction es arbitrary: sibling s')
  case (Cons e es)
  let ?s1 = "run [apply_pending_subsurf_entry e p, emit (Surf (Subsurface e) (place sibling)), on_committed p (f e)] s'"
  have "forwarded s ?s1"
    using Cons.prems assms(1) by (intro forwarded_run) (auto intro!: forwarded_intros forwarded_entry)
  then show ?case using Cons.IH [of ?s1 "Subsurface e"] by (simp add: Let_def)
qed simp

lemma forwarded_scale: "forwarded s s' \<Longrightarrow> forwarded s (apply_scale p bg s')"
  unfolding apply_scale_def Let_def
  by (cases bg) (auto intro!: forwarded_intros)

lemma forwarded_transform: "forwarded s s' \<Longrightarrow> forwarded s (apply_transform p bg s')"
  unfolding apply_transform_def Let_def
  by (cases bg) (auto intro!: forwarded_intros)

lemma forwarded_viewport_dest: "forwarded s s' \<Longrightarrow> forwarded s (apply_viewport_dest p bg s')"
  unfolding apply_viewport_dest_def Let_def
  by (cases bg) (auto intro!: forwarded_intros)

lemma forwarded_viewport_source: "forwarded s s' \<Longrightarrow> forwarded s (apply_viewport_source p bg s')"
  unfolding apply_viewport_source_def Let_def
  by (cases bg) (auto intro!: forwarded_intros)

lemma forwarded_color_rep: "forwarded s s' \<Longrightarrow> forwarded s (apply_color_rep p bg s')"
  unfolding apply_color_rep_def Let_def
  by (cases bg) (auto intro!: forwarded_intros)

lemma forwarded_image_desc: "forwarded s s' \<Longrightarrow> forwarded s (apply_image_desc p bg s')"
  unfolding apply_image_desc_def swap_committed_desc_def Let_def
  by (cases bg) (auto intro!: forwarded_intros forwarded_desc)

lemma forwarded_attachment: "forwarded s s' \<Longrightarrow> forwarded s (apply_attachment p bg s')"
  unfolding apply_attachment_def unlink_committed_buffer_def attach_pending_buffer_def Let_def
  by (cases bg) (auto intro!: forwarded_intros)

lemma forwarded_offset: "forwarded s s' \<Longrightarrow> forwarded s (apply_offset p bg s')"
  unfolding apply_offset_def Let_def
  by (cases bg) (auto intro!: forwarded_intros)

lemma forwarded_damage: "forwarded s s' \<Longrightarrow> forwarded s (apply_damage p bg s')"
  unfolding apply_damage_def Let_def
  by (cases bg) (auto intro!: forwarded_intros)

lemma forwarded_subsurfaces: "forwarded s s' \<Longrightarrow> forwarded s (apply_subsurfaces p bg s')"
  unfolding apply_subsurfaces_def Let_def
  by (cases bg) (auto intro!: forwarded_intros forwarded_stack)

lemma forwarded_frame_callbacks: "forwarded s s' \<Longrightarrow> forwarded s (apply_frame_callbacks p bg s')"
  unfolding apply_frame_callbacks_def Let_def
  by (cases bg) (auto intro!: forwarded_intros)

lemmas forwarded_parts = forwarded_scale forwarded_transform forwarded_viewport_dest forwarded_viewport_source forwarded_color_rep forwarded_image_desc forwarded_attachment forwarded_offset forwarded_damage forwarded_subsurfaces forwarded_frame_callbacks

lemma forwarded_apply: "forwarded s s' \<Longrightarrow> forwarded s (apply_pending_surface_updates p bg s')"
  unfolding apply_pending_surface_updates_def by (rule forwarded_run) (auto intro!: forwarded_parts)

lemma forwardedD:
  assumes "forwarded s s'"
  shows "filter background_commit (st_trace s') = filter background_commit (st_trace s)"
    "requested (plugin_surface s' p) = requested (plugin_surface s p)"
    "sw_has_pending_ack_conf (st_surface s' i) = sw_has_pending_ack_conf (st_surface s i)"
    "sw_pending_upstream_serial (st_surface s' i) = sw_pending_upstream_serial (st_surface s i)"
    "sw_newest_serial (st_surface s' i) = sw_newest_serial (st_surface s i)"
    "sw_has_newer_serial (st_surface s' i) = sw_has_newer_serial (st_surface s i)"
    "\<exists>tr. st_trace s' = st_trace s @ tr"
    "fb_resource (plugin_buffer s' b) = fb_resource (plugin_buffer s b)"
proof -
  have eq: "forward_core s' = forward_core s" using assms by (simp add: forwarded_def)
  show "filter background_commit (st_trace s') = filter background_commit (st_trace s)"
    using arg_cong [OF eq, of st_trace] by (simp add: forward_core_def)
  show "requested (plugin_surface s' p) = requested (plugin_surface s p)"
    using arg_cong [OF eq, of "\<lambda>s. plugin_surface s p"] by (simp add: forward_core_def)
  show "sw_has_pending_ack_conf (st_surface s' i) = sw_has_pending_ack_conf (st_surface s i)"
    "sw_pending_upstream_serial (st_surface s' i) = sw_pending_upstream_serial (st_surface s i)"
    "sw_newest_serial (st_surface s' i) = sw_newest_serial (st_surface s i)"
    "sw_has_newer_serial (st_surface s' i) = sw_has_newer_serial (st_surface s i)"
    using arg_cong [OF eq, of "\<lambda>s. sw_has_pending_ack_conf (st_surface s i)"]
      arg_cong [OF eq, of "\<lambda>s. sw_pending_upstream_serial (st_surface s i)"]
      arg_cong [OF eq, of "\<lambda>s. sw_newest_serial (st_surface s i)"]
      arg_cong [OF eq, of "\<lambda>s. sw_has_newer_serial (st_surface s i)"] by (simp_all add: forward_core_def)
  show "\<exists>tr. st_trace s' = st_trace s @ tr" using assms by (simp add: forwarded_def)
  show "fb_resource (plugin_buffer s' b) = fb_resource (plugin_buffer s b)"
    using arg_cong [OF eq, of "\<lambda>s. fb_resource (plugin_buffer s b)"] by (simp add: forward_core_def)
qed

lemma requestedD:
  assumes "requested u = requested v"
  shows "fs_pending u = fs_pending v" "fs_sway_surface u = fs_sway_surface v" "fs_inert u = fs_inert v"
    "fs_last_acked_width u = fs_last_acked_width v" "fs_last_acked_height u = fs_last_acked_height v"
    "fs_has_been_configured u = fs_has_been_configured v" "fs_subsurface_parent u = fs_subsurface_parent v"
    "fs_layer_surface u = fs_layer_surface v" "fs_version u = fs_version v" "fs_viewport u = fs_viewport v"
  using arg_cong [OF assms, of fs_pending] arg_cong [OF assms, of fs_sway_surface] arg_cong [OF assms, of fs_inert]
    arg_cong [OF assms, of fs_last_acked_width] arg_cong [OF assms, of fs_last_acked_height]
    arg_cong [OF assms, of fs_has_been_configured] arg_cong [OF assms, of fs_subsurface_parent]
    arg_cong [OF assms, of fs_layer_surface] arg_cong [OF assms, of fs_version] arg_cong [OF assms, of fs_viewport]
  by (simp_all add: requested_def)

subsection \<open>Only exact sizes are committed\<close>

definition silent :: "swaylock_state \<Rightarrow> swaylock_state \<Rightarrow> bool" where
  "silent s s' \<longleftrightarrow> filter background_commit (st_trace s') = filter background_commit (st_trace s)"

lemma silent_intros:
  "silent s s"
  "\<not> background_commit e \<Longrightarrow> silent s s' \<Longrightarrow> silent s (emit e s')"
  "silent s s' \<Longrightarrow> silent s (on_forward f s')"
  "silent s s' \<Longrightarrow> silent s (on_plugin_surface p g s')"
  "silent s s' \<Longrightarrow> silent s (on_client c h s')"
  "silent s s' \<Longrightarrow> silent s (on_surface i k s')"
  "silent s s' \<Longrightarrow> silent s (halt_with x s')"
  "silent s s' \<Longrightarrow> silent s (c_assert b s')"
  "silent s s' \<Longrightarrow> silent s (add_serial_pair p u d w v l s')"
  "(b \<Longrightarrow> silent s a) \<Longrightarrow> (\<not> b \<Longrightarrow> silent s a') \<Longrightarrow> silent s (if b then a else a')"
  "silent s n \<Longrightarrow> (\<And>v. silent s (m v)) \<Longrightarrow> silent s (case q of None \<Rightarrow> n | Some v \<Rightarrow> m v)"
  by (auto simp: silent_def emit_def on_forward_def on_plugin_surface_def on_client_def on_server_def on_surface_def
      halt_with_def c_assert_def add_serial_pair_def split: option.split)

lemma silent_run:
  assumes "silent s s'" and "\<And>s s' f. f \<in> set fs \<Longrightarrow> silent s s' \<Longrightarrow> silent s (f s')"
  shows "silent s (run fs s')"
  using assms by (induction fs arbitrary: s') (auto simp: run.simps)

lemma initial_configure_commits: "silent s (initial_configure p i s)"
  unfolding initial_configure_def Let_def
  by (intro silent_intros silent_run) (auto intro!: silent_intros)

lemma remove_timer_trace [simp]: "st_trace (remove_timer t s) = st_trace s" "st_forward (remove_timer t s) = st_forward s"
  by (simp_all add: remove_timer_def on_loop_def)

lemma disarm_submission_trace [simp]:
  "st_trace (disarm_submission_timer i s) = st_trace s" "st_forward (disarm_submission_timer i s) = st_forward s"
  by (simp_all add: disarm_submission_timer_def on_surface_def split: option.split)

lemma ack_pending_trace [simp]:
  "st_trace (ack_pending_configure i s) = st_trace s @
     (if sw_has_pending_ack_conf (st_surface s i)
      then [Up (Ack_configure i (sw_pending_upstream_serial (st_surface s i)))] else [])"
  "st_forward (ack_pending_configure i s) = st_forward s"
  by (simp_all add: ack_pending_configure_def on_surface_def emit_def Let_def)

lemma forward_commit_trace:
  "st_trace (forward_commit p i s) = st_trace s @
     (if sw_has_pending_ack_conf (st_surface s i)
      then [Up (Ack_configure i (sw_pending_upstream_serial (st_surface s i)))] else []) @ [Surf (Background i) Commit]"
  "st_forward (forward_commit p i s) = st_forward s"
  by (simp_all add: forward_commit_def on_surface_def emit_def Let_def)

lemma check_size_cases:
  obtains (rejected) "filter background_commit (st_trace (check_size_and_commit p i s)) = filter background_commit (st_trace s)"
  | (accepted) "check_size_and_commit p i s = forward_commit p i s"
      "committed_size (plugin_surface s p) = Size (fs_last_acked_width (plugin_surface s p)) (fs_last_acked_height (plugin_surface s p))"
proof (cases "committed_size (plugin_surface s p)")
  case (Size w h)
  show thesis
  proof (cases "w = fs_last_acked_width (plugin_surface s p) \<and> h = fs_last_acked_height (plugin_surface s p)")
    case True
    then show thesis using Size accepted by (simp add: check_size_and_commit_def)
  next
    case False
    then show thesis using Size by (intro rejected) (auto simp: check_size_and_commit_def emit_def)
  qed
qed (rule rejected, simp add: check_size_and_commit_def emit_def halt_with_def split: option.split)+

lemma commit_layer_cases:
  assumes "st_halt s = None"
  obtains (early) "silent s (commit_layer_surface p i s)"
  | (halted) "commit_layer_surface p i s = apply_pending_surface_updates p (Background i) s"
  | (checked) "commit_layer_surface p i s = check_size_and_commit p i (apply_pending_surface_updates p (Background i) s)"
proof (cases "fs_has_been_configured (plugin_surface s p) \<and> ss_attachment (pending s p) \<noteq> No_buffer")
  case True
  then have "commit_layer_surface p i s = run [apply_pending_surface_updates p (Background i), check_size_and_commit p i] s"
    by (simp add: commit_layer_surface_def)
  then show thesis using assms halted checked
    by (cases "st_halt (apply_pending_surface_updates p (Background i) s) = None") (auto simp: run.simps)
next
  case False
  then show thesis using initial_configure_commits [of s p i]
    by (intro early) (auto simp: commit_layer_surface_def intro!: silent_intros)
qed


subsection \<open>A commit copies the pending state\<close>

lemma run_live:
  assumes "st_halt (run (f # fs) s) = None"
  shows "st_halt s = None" "run (f # fs) s = run fs (f s)" "st_halt (run fs (f s)) = None"
  using assms by (cases "st_halt s"; simp add: run.simps)+

lemma run_Nil [simp]: "run [] s = s"
  by (simp add: run.simps)

lemma run_first: "st_halt s = None \<Longrightarrow> run (f # fs) s = run fs (f s)"
  by (simp add: run.simps)

lemma store_view [simp]:
  "st_forward (emit e s) = st_forward s" "st_halt (emit e s) = st_halt s"
  "st_forward (halt_with h s) = st_forward s" "st_halt (halt_with h s) = Some h"
  "st_forward (c_assert c s) = st_forward s" "st_halt (c_assert c s) = (if c then st_halt s else Some Abort)"
  "plugin_surface (on_plugin_surface p f s) q = (if q = p then f (plugin_surface s p) else plugin_surface s q)"
  "plugin_surface (on_buffer b g s) q = plugin_surface s q"
  "plugin_surface (on_image_desc d h' s) q = plugin_surface s q"
  "plugin_surface (on_committed p k s) q =
     (if q = p then (plugin_surface s p)\<lparr>fs_committed := k (committed s p)\<rparr> else plugin_surface s q)"
  "plugin_surface (on_pending p k s) q =
     (if q = p then (plugin_surface s p)\<lparr>fs_pending := k (pending s p)\<rparr> else plugin_surface s q)"
  "plugin_surface (on_surface i l s) q = plugin_surface s q"
  "plugin_surface (snd (clock_gettime s)) q = plugin_surface s q"
  "plugin_surface (next_call s) q = plugin_surface s q"
  "st_halt (on_plugin_surface p f s) = st_halt s" "st_halt (on_buffer b g s) = st_halt s"
  "st_halt (on_image_desc d h' s) = st_halt s" "st_halt (on_committed p k s) = st_halt s"
  "st_halt (on_pending p k s) = st_halt s" "st_halt (on_surface i l s) = st_halt s"
  "st_halt (snd (clock_gettime s)) = st_halt s" "st_halt (on_forward m s) = st_halt s" "st_halt (next_call s) = st_halt s"
  by (simp_all add: emit_def halt_with_def c_assert_def on_plugin_surface_def on_buffer_def on_image_desc_def
      on_committed_def on_pending_def on_forward_def on_surface_def clock_gettime_def next_call_def)

lemma committed_scale:
  "committed (apply_scale p bg s) p = (committed s p)\<lparr>ss_buffer_scale := ss_buffer_scale (pending s p)\<rparr>"
  by (simp add: apply_scale_def Let_def)

lemma committed_transform:
  "committed (apply_transform p bg s) p = (committed s p)\<lparr>ss_buffer_transform := ss_buffer_transform (pending s p)\<rparr>"
  by (simp add: apply_transform_def Let_def)

lemma run_all: "st_halt (run fs s) = None \<Longrightarrow> run fs s = fold (\<lambda>f. f) fs s"
proof (induction fs arbitrary: s)
  case (Cons f fs)
  then show ?case using run_live [OF Cons.prems] by simp
qed simp

lemma forward_if [simp]:
  "st_forward (if b then x else y) = (if b then st_forward x else st_forward y)"
  "st_forward (case q of None \<Rightarrow> n | Some v \<Rightarrow> m v) = (case q of None \<Rightarrow> st_forward n | Some v \<Rightarrow> st_forward (m v))"
  by (simp_all split: option.split)

lemma committed_viewport_dest:
  assumes "st_halt (apply_viewport_dest p bg s) = None"
  shows "committed (apply_viewport_dest p bg s) p = (committed s p)\<lparr>ss_viewport_dest_width := ss_viewport_dest_width (pending s p),
     ss_viewport_dest_height := ss_viewport_dest_height (pending s p)\<rparr>"
proof (cases "ss_viewport_dest_width (committed s p) = ss_viewport_dest_width (pending s p) \<and>
    ss_viewport_dest_height (committed s p) = ss_viewport_dest_height (pending s p)")
  case False
  then show ?thesis
    using assms run_all [OF assms [unfolded apply_viewport_dest_def Let_def if_not_P [OF False]]]
    by (simp add: apply_viewport_dest_def Let_def del: run.simps)
qed (simp add: apply_viewport_dest_def)

lemma committed_viewport_source:
  assumes "st_halt (apply_viewport_source p bg s) = None"
  shows "committed (apply_viewport_source p bg s) p = (committed s p)\<lparr>ss_viewport_source_x := ss_viewport_source_x (pending s p),
     ss_viewport_source_y := ss_viewport_source_y (pending s p), ss_viewport_source_w := ss_viewport_source_w (pending s p),
     ss_viewport_source_h := ss_viewport_source_h (pending s p)\<rparr>"
proof (cases "same_source (committed s p) (pending s p)")
  case False
  then show ?thesis
    using run_all [OF assms [unfolded apply_viewport_source_def Let_def if_not_P [OF False]]]
    by (simp add: apply_viewport_source_def Let_def)
qed (simp add: apply_viewport_source_def same_source_def)

lemma committed_color_rep:
  assumes "st_halt (apply_color_rep p bg s) = None"
  shows "committed (apply_color_rep p bg s) p = (committed s p)\<lparr>ss_has_alpha_mode := ss_has_alpha_mode (pending s p),
     ss_alpha_mode := ss_alpha_mode (pending s p), ss_has_chroma_location := ss_has_chroma_location (pending s p),
     ss_chroma_location := ss_chroma_location (pending s p), ss_has_coef_range := ss_has_coef_range (pending s p),
     ss_coefficients := ss_coefficients (pending s p), ss_range := ss_range (pending s p)\<rparr>"
proof (cases "same_color_rep (committed s p) (pending s p)")
  case False
  then show ?thesis
    using run_all [OF assms [unfolded apply_color_rep_def Let_def if_not_P [OF False]]]
    by (simp add: apply_color_rep_def Let_def)
qed (simp add: apply_color_rep_def same_color_rep_def)

lemma unlink_desc_view [simp]:
  "plugin_surface (unlink_committed_desc p d s) q = plugin_surface s q" "st_halt (unlink_committed_desc p d s) = st_halt s"
  by (simp_all add: unlink_committed_desc_def delete_image_desc_if_unreferenced_def Let_def)

lemma swap_view:
  "committed (swap_committed_desc p old new s) p = (committed s p)\<lparr>ss_image_desc := new\<rparr>"
  by (cases old; cases new) (simp_all add: swap_committed_desc_def Let_def)

lemma committed_image_desc:
  assumes "st_halt (apply_image_desc p bg s) = None"
  shows "committed (apply_image_desc p bg s) p = (committed s p)\<lparr>ss_image_desc := ss_image_desc (pending s p),
     ss_render_intent := ss_render_intent (pending s p)\<rparr>"
proof (cases "ss_image_desc (committed s p) = ss_image_desc (pending s p) \<and>
    ss_render_intent (committed s p) = ss_render_intent (pending s p)")
  case False
  note eq = run_all [OF assms [unfolded apply_image_desc_def Let_def if_not_P [OF False]]]
  show ?thesis
    using False unfolding apply_image_desc_def Let_def if_not_P [OF False] eq
    by (cases "ss_image_desc (pending s p)") (auto simp: swap_view)
qed (simp add: apply_image_desc_def)

text \<open>The attached buffer.\<close>

lemma committed_attachment:
  assumes "st_halt (apply_attachment p bg s) = None" and "ss_attachment (pending s p) = Buffer b"
  shows "committed (apply_attachment p bg s) p =
    (if fs_version (plugin_surface s p) < 5
     then (committed s p)\<lparr>ss_attachment := Buffer b, ss_offset_x := ss_offset_x (pending s p), ss_offset_y := ss_offset_y (pending s p)\<rparr>
     else (committed s p)\<lparr>ss_attachment := Buffer b\<rparr>)"
proof -
  have ul: "plugin_surface (unlink_committed_buffer p s) q = plugin_surface s q" for q
    by (cases "ss_attachment (committed s p)") (simp_all add: unlink_committed_buffer_def run.simps)
  have "ss_attachment (pending s p) \<noteq> BUFFER_COMMITTED" using assms(2) by simp
  note eq = run_all [OF assms(1) [unfolded apply_attachment_def if_not_P [OF this]]]
  show ?thesis using assms(2)
    by (simp add: apply_attachment_def eq ul attach_pending_buffer_def Let_def)
qed

lemma committed_offset:
  "committed (apply_offset p bg s) p =
    (if fs_version (plugin_surface s p) \<ge> 5
     then (committed s p)\<lparr>ss_offset_x := ss_offset_x (pending s p), ss_offset_y := ss_offset_y (pending s p)\<rparr> else committed s p)"
  by (simp add: apply_offset_def Let_def)

lemma fold_emit_view [simp]:
  "st_forward (fold (\<lambda>d. emit (f d)) ds s) = st_forward s" "st_halt (fold (\<lambda>d. emit (f d)) ds s) = st_halt s"
  by (induction ds arbitrary: s) simp_all

lemma committed_damage:
  "committed (apply_damage p bg s) p = committed s p"
  "fs_buffer_damage (plugin_surface (apply_damage p bg s) p) = []" "fs_old_damage (plugin_surface (apply_damage p bg s) p) = []"
  by (simp_all add: apply_damage_def Let_def)

lemma entry_view:
  assumes "st_halt (apply_pending_subsurf_entry e p s) = None"
  shows "committed (apply_pending_subsurf_entry e p s) q = committed s q"
proof (cases "alive s e")
  case False
  then show ?thesis using assms by (simp add: apply_pending_subsurf_entry_def)
next
  case True
  then have alive: "\<not> (\<not> alive s e)" by simp
  note eq = run_all [OF assms [unfolded apply_pending_subsurf_entry_def if_not_P [OF alive]]]
  show ?thesis unfolding apply_pending_subsurf_entry_def if_not_P [OF alive] eq
    by (simp add: Let_def split: option.split)
qed

lemma committed_stack:
  assumes "st_halt (apply_stack place f p es sibling s) = None"
  shows "committed (apply_stack place f p es sibling s) p = fold f es (committed s p)"
  using assms
proof (induction es arbitrary: sibling s)
  case (Cons e es)
  let ?fs = "[apply_pending_subsurf_entry e p, emit (Surf (Subsurface e) (place sibling)), on_committed p (f e)]"
  have s1: "st_halt (run ?fs s) = None" using Cons.prems by (auto simp: Let_def split: if_splits)
  then have "st_halt (run ?fs s) = None" "st_halt (apply_pending_subsurf_entry e p s) = None"
    using run_live [OF s1] run_live(1) [of "emit (Surf (Subsurface e) (place sibling))"] by auto
  then have "committed (run ?fs s) p = f e (committed s p)"
    by (simp add: run_all [OF s1] entry_view)
  then show ?case using Cons.IH [of "Subsurface e" "run ?fs s"] Cons.prems s1 by (simp add: Let_def)
qed simp

lemma fold_above: "fold (\<lambda>e st. st\<lparr>ss_subsurfaces_above := ss_subsurfaces_above st @ [e]\<rparr>) es st =
    st\<lparr>ss_subsurfaces_above := ss_subsurfaces_above st @ es\<rparr>"
  by (induction es arbitrary: st) simp_all

lemma fold_below: "fold (\<lambda>e st. st\<lparr>ss_subsurfaces_below := e # ss_subsurfaces_below st\<rparr>) es st =
    st\<lparr>ss_subsurfaces_below := rev es @ ss_subsurfaces_below st\<rparr>"
  by (induction es arbitrary: st) simp_all

lemma pending_forwarded: "forwarded s s' \<Longrightarrow> pending s' p = pending s p"
  by (drule forwardedD(2)) (erule requestedD)

lemma committed_subsurfaces:
  assumes "st_halt (apply_subsurfaces p bg s) = None"
  shows "committed (apply_subsurfaces p bg s) p = (committed s p)\<lparr>ss_subsurfaces_above := ss_subsurfaces_above (pending s p),
     ss_subsurfaces_below := ss_subsurfaces_below (pending s p)\<rparr>"
proof -
  let ?s0 = "on_committed p (\<lambda>st. st\<lparr>ss_subsurfaces_above := [], ss_subsurfaces_below := []\<rparr>) s"
  let ?above = "\<lambda>s. apply_stack Place_above (\<lambda>e st. st\<lparr>ss_subsurfaces_above := ss_subsurfaces_above st @ [e]\<rparr>) p
                 (ss_subsurfaces_above (pending s p)) bg s"
  let ?below = "\<lambda>s. apply_stack Place_below (\<lambda>e st. st\<lparr>ss_subsurfaces_below := e # ss_subsurfaces_below st\<rparr>) p
                 (rev (ss_subsurfaces_below (pending s p))) bg s"
  have 1: "st_halt (run [?above, ?below] ?s0) = None" "apply_subsurfaces p bg s = run [?above, ?below] ?s0"
    using run_live [OF assms [unfolded apply_subsurfaces_def]] by (simp_all add: apply_subsurfaces_def)
  note after_above = run_live [OF 1(1)]
  note after_below = run_live [OF after_above(3)]
  have 2: "st_halt (?above ?s0) = None" by (rule after_below(1))
  have 3: "st_halt (?below (?above ?s0)) = None" by (rule after_below(3) [unfolded run_Nil])
  have eq: "apply_subsurfaces p bg s = ?below (?above ?s0)"
    by (rule trans [OF 1(2) trans [OF after_above(2) trans [OF after_below(2) run_Nil]]])
  have "forwarded ?s0 (?above ?s0)" by (rule forwarded_stack) simp_all
  then have pend: "pending (?above ?s0) p = pending s p" using pending_forwarded by fastforce
  have above: "committed (?above ?s0) p =
      (committed s p)\<lparr>ss_subsurfaces_above := ss_subsurfaces_above (pending s p), ss_subsurfaces_below := []\<rparr>"
    unfolding committed_stack [OF 2] fold_above by simp
  show ?thesis
    unfolding eq committed_stack [OF 3] fold_below above unfolding pend by simp
qed

definition undamaged :: "nat \<Rightarrow> swaylock_state \<Rightarrow> bool" where
  "undamaged p s \<longleftrightarrow> fs_buffer_damage (plugin_surface s p) = [] \<and> fs_old_damage (plugin_surface s p) = []"

lemma undamaged_run:
  assumes "undamaged p s" and "\<And>s f. f \<in> set fs \<Longrightarrow> undamaged p s \<Longrightarrow> undamaged p (f s)"
  shows "undamaged p (run fs s)"
  using assms by (induction fs arbitrary: s) (auto simp: run.simps)

lemma undamaged_entry:
  assumes "undamaged p s" shows "undamaged p (apply_pending_subsurf_entry e q s)"
proof (cases "alive s e")
  case True
  show ?thesis
    unfolding apply_pending_subsurf_entry_def if_not_P [of "\<not> alive s e", unfolded not_not, OF True]
    by (rule undamaged_run [OF assms]) (auto simp: undamaged_def Let_def split: option.split)
next
  case False
  then show ?thesis using assms by (simp add: apply_pending_subsurf_entry_def undamaged_def)
qed

lemma undamaged_stack: "undamaged p s \<Longrightarrow> undamaged p (apply_stack place f q es sibling s)"
proof (induction es arbitrary: sibling s)
  case (Cons e es)
  have "undamaged p (run [apply_pending_subsurf_entry e q, emit (Surf (Subsurface e) (place sibling)), on_committed q (f e)] s)"
    by (rule undamaged_run [OF Cons.prems]) (auto intro: undamaged_entry, auto simp: undamaged_def)
  then show ?case using Cons.IH by (simp add: Let_def)
qed simp

lemma undamaged_subsurfaces: "undamaged p s \<Longrightarrow> undamaged p (apply_subsurfaces q bg s)"
  unfolding apply_subsurfaces_def
  by (rule undamaged_run) (auto intro: undamaged_stack, auto simp: undamaged_def)

lemma clock_view [simp]:
  "plugin_surface (start_presentation_clock i s) q = plugin_surface s q" "st_halt (start_presentation_clock i s) = st_halt s"
  by (simp_all add: start_presentation_clock_def clock_gettime_def Let_def split: option.split)

lemma committed_callbacks:
  "committed (apply_frame_callbacks p bg s) p = committed s p"
  "fs_frame_callbacks (plugin_surface (apply_frame_callbacks p bg s) p) = []"
  "fs_buffer_damage (plugin_surface (apply_frame_callbacks p bg s) p) = fs_buffer_damage (plugin_surface s p)"
  "fs_old_damage (plugin_surface (apply_frame_callbacks p bg s) p) = fs_old_damage (plugin_surface s p)"
  by (simp_all add: apply_frame_callbacks_def on_forward_def Let_def)

lemma run_step:
  assumes "st_halt (run (f # fs) s) = None"
  obtains "st_halt (run fs (f s)) = None" "run (f # fs) s = run fs (f s)"
  using run_live [OF assms] by blast

lemma run_live_state: "st_halt (run fs s) = None \<Longrightarrow> st_halt s = None"
  by (cases fs) (auto dest: run_live)

lemma apply_copies:
  assumes "ss_attachment (pending s p) = Buffer b"
    and "st_halt (apply_pending_surface_updates p bg s) = None"
  shows "let u = plugin_surface (apply_pending_surface_updates p bg s) p in
    fs_committed u = pending s p \<and> fs_pending u = pending s p \<and>
    fs_buffer_damage u = [] \<and> fs_old_damage u = [] \<and> fs_frame_callbacks u = []"
proof -
  define r where "r = apply_pending_surface_updates p bg s"
  let ?q = "pending s p"
  note start = assms(2) [unfolded apply_pending_surface_updates_def]
  have fw: "forwarded s r" unfolding r_def by (rule forwarded_apply) simp
  let ?s1 = "apply_scale p bg s" let ?s2 = "apply_transform p bg ?s1"
  let ?s3 = "apply_viewport_dest p bg ?s2" let ?s4 = "apply_viewport_source p bg ?s3"
  let ?s5 = "apply_color_rep p bg ?s4" let ?s6 = "apply_image_desc p bg ?s5"
  let ?s7 = "apply_attachment p bg ?s6" let ?s8 = "apply_offset p bg ?s7"
  let ?s9 = "apply_damage p bg ?s8" let ?s10 = "apply_subsurfaces p bg ?s9"
  note h1 = run_live [OF start] note h2 = run_live [OF h1(3)] note h3 = run_live [OF h2(3)]
  note h4 = run_live [OF h3(3)] note h5 = run_live [OF h4(3)] note h6 = run_live [OF h5(3)]
  note h7 = run_live [OF h6(3)] note h8 = run_live [OF h7(3)] note h9 = run_live [OF h8(3)]
  note h10 = run_live [OF h9(3)] note h11 = run_live [OF h10(3)]
  have r: "r = apply_frame_callbacks p bg ?s10"
    by (simp add: r_def apply_pending_surface_updates_def h1(2) h2(2) h3(2) h4(2) h5(2) h6(2) h7(2) h8(2) h9(2) h10(2) h11(2))
  have f1: "forwarded s ?s1" by (rule forwarded_scale) simp
  have f2: "forwarded s ?s2" by (rule forwarded_transform [OF f1])
  have f3: "forwarded s ?s3" by (rule forwarded_viewport_dest [OF f2])
  have f4: "forwarded s ?s4" by (rule forwarded_viewport_source [OF f3])
  have f5: "forwarded s ?s5" by (rule forwarded_color_rep [OF f4])
  have f6: "forwarded s ?s6" by (rule forwarded_image_desc [OF f5])
  have f7: "forwarded s ?s7" by (rule forwarded_attachment [OF f6])
  have f8: "forwarded s ?s8" by (rule forwarded_offset [OF f7])
  have f9: "forwarded s ?s9" by (rule forwarded_damage [OF f8])
  note pend = pending_forwarded [OF f1] pending_forwarded [OF f2] pending_forwarded [OF f3] pending_forwarded [OF f4]
    pending_forwarded [OF f5] pending_forwarded [OF f6] pending_forwarded [OF f7] pending_forwarded [OF f8]
    pending_forwarded [OF f9]
  have at: "ss_attachment (pending ?s6 p) = Buffer b" using assms(1) pend by simp
  have version: "fs_version (plugin_surface ?s7 p) = fs_version (plugin_surface ?s6 p)"
    using requestedD(9) [OF forwardedD(2) [OF f7, of p]] requestedD(9) [OF forwardedD(2) [OF f6, of p]] by simp
  have "committed r p = ?q"
    unfolding r committed_callbacks committed_subsurfaces [OF h11(1)] committed_damage committed_offset
      committed_attachment [OF h8(1) at] committed_image_desc [OF h7(1)] committed_color_rep [OF h6(1)]
      committed_viewport_source [OF h5(1)] committed_viewport_dest [OF h4(1)] committed_transform committed_scale
      pend version
    by (cases "fs_version (plugin_surface ?s6 p) < 5") (auto intro!: surface_state.equality simp: assms(1))
  moreover have "undamaged p ?s10"
    by (rule undamaged_subsurfaces) (simp add: undamaged_def committed_damage)
  ultimately show ?thesis
    using pending_forwarded [OF fw] unfolding r_def [symmetric] by (simp add: r committed_callbacks undamaged_def Let_def)
qed


subsection \<open>Requests that end the locker\<close>

lemma apply_unchanged:
  assumes "committed s p = pending s p"
  shows "apply_scale p bg s = s" "apply_transform p bg s = s" "apply_viewport_dest p bg s = s"
    "apply_viewport_source p bg s = s" "apply_color_rep p bg s = s" "apply_image_desc p bg s = s"
  using assms by (simp_all add: apply_scale_def apply_transform_def apply_viewport_dest_def apply_viewport_source_def
      apply_color_rep_def apply_image_desc_def same_source_def same_color_rep_def)

lemma apply_stale_aborts:
  assumes "committed s p = pending s p" and "ss_attachment (pending s p) = Buffer b"
    and "\<not> fb_resource (plugin_buffer s b)" and "st_halt s = None"
  shows "st_halt (apply_pending_surface_updates p bg s) = Some Abort"
proof -
  have "ss_attachment (pending s p) \<noteq> BUFFER_COMMITTED" using assms(2) by simp
  then have "st_halt (apply_attachment p bg s) = Some Abort"
    using assms by (simp add: apply_attachment_def unlink_committed_buffer_def run.simps)
  then show ?thesis
    by (simp add: apply_pending_surface_updates_def run.simps apply_unchanged [OF assms(1)] assms(4))
qed

lemma check_size_forward [simp]: "st_forward (check_size_and_commit p i s) = st_forward s"
  by (simp add: check_size_and_commit_def forward_commit_trace split: surface_size.split option.split)

text \<open>C26. A plugin can end the locker by destroying a buffer too early: when the buffer that is attached to a
  configured background surface was destroyed before the commit, and that commit goes through, the next
  commit of the surface fails the assertion that the shown buffer still has its resource, and the
  process aborts.\<close>

theorem stale_buffer_aborts:
  assumes "ss_attachment (pending s p) = Buffer b" and "\<not> fb_resource (plugin_buffer s b)"
    and "fs_sway_surface (plugin_surface s p) = Some i" and "fs_has_been_configured (plugin_surface s p)"
    and "fs_subsurface_parent (plugin_surface s p) = None" and "\<not> fs_inert (plugin_surface s p)"
    and "st_halt (nested_surface_commit p s) = None"
  shows "st_halt (nested_surface_commit p (nested_surface_commit p s)) = Some Abort"
proof -
  have commit: "nested_surface_commit p s = run [apply_pending_surface_updates p (Background i), check_size_and_commit p i] s"
    if "fs_sway_surface (plugin_surface s p) = Some i" "fs_has_been_configured (plugin_surface s p)"
      "fs_subsurface_parent (plugin_surface s p) = None" "\<not> fs_inert (plugin_surface s p)"
      "ss_attachment (pending s p) = Buffer b" "st_halt s = None" for s
    using that by (simp add: nested_surface_commit_def commit_layer_surface_def run.simps)
  have h: "st_halt s = None"
    using assms(6,7) run_live(1) by (auto simp: nested_surface_commit_def)
  define s1 where "s1 = apply_pending_surface_updates p (Background i) s"
  note live = assms(7) [unfolded commit [OF assms(3-6,1) h]]
  have s1: "st_halt s1 = None" using run_live [OF live] run_live(1) [of "check_size_and_commit p i" "[]"]
    by (simp add: s1_def)
  have fw: "forwarded s s1" unfolding s1_def by (rule forwarded_apply) simp
  define s2 where "s2 = nested_surface_commit p s"
  have s2: "s2 = check_size_and_commit p i s1" "st_halt s2 = None"
    using run_live(2) [OF live] run_live(2) [OF run_live(3) [OF live]] assms(7) commit [OF assms(3-6,1) h]
    by (simp_all add: s2_def s1_def)
  have copied: "committed s1 p = pending s p" "pending s1 p = pending s p"
    using apply_copies [OF assms(1) s1 [unfolded s1_def]] by (simp_all add: s1_def Let_def)
  have u: "plugin_surface s2 p = plugin_surface s1 p" using s2(1) by simp
  have same: "fs_sway_surface (plugin_surface s2 p) = Some i" "fs_has_been_configured (plugin_surface s2 p)"
    "fs_subsurface_parent (plugin_surface s2 p) = None" "\<not> fs_inert (plugin_surface s2 p)"
    using requestedD [OF forwardedD(2) [OF fw, of p]] assms(3-6) u by simp_all
  have "st_halt (apply_pending_surface_updates p (Background i) s2) = Some Abort"
  proof (rule apply_stale_aborts)
    show "\<not> fb_resource (plugin_buffer s2 b)" using forwardedD(8) [OF fw, of b] assms(2) s2(1) by simp
  qed (use copied u assms(1) s2(2) in simp_all)
  moreover have "ss_attachment (pending s2 p) = Buffer b" using copied u assms(1) by simp
  ultimately show ?thesis
    unfolding s2_def [symmetric] using same s2(2) by (simp add: commit run.simps)
qed

text \<open>Two more: a buffer attached before the first commit, and detaching a buffer.\<close>

lemma more_view [simp]:
  "st_forward (on_client c f s) = st_forward s" "st_halt (on_client c f s) = st_halt s"
  "st_forward (on_surface i g s) = st_forward s"
  "st_halt (add_serial_pair p u d w h l s) = st_halt s"
  "pending (add_serial_pair p u d w h l s) p = pending s p"
  "fs_layer_surface (plugin_surface (add_serial_pair p u d w h l s) p) = fs_layer_surface (plugin_surface s p)"
  by (simp_all add: on_client_def on_server_def on_surface_def add_serial_pair_def)

lemma early_buffer_aborts:
  assumes "fs_sway_surface (plugin_surface s p) = Some i" "\<not> fs_has_been_configured (plugin_surface s p)"
    "fs_subsurface_parent (plugin_surface s p) = None" "\<not> fs_inert (plugin_surface s p)"
    "fs_layer_surface (plugin_surface s p) = Some l" "sw_client (st_surface s i) = Some c"
    "ss_attachment (pending s p) = Buffer b" "st_halt s = None"
  shows "st_halt (nested_surface_commit p s) = Some Abort"
proof -
  have "nested_surface_commit p s = initial_configure p i s"
    using assms by (simp add: nested_surface_commit_def commit_layer_surface_def run.simps)
  moreover have "st_halt (initial_configure p i s) = Some Abort"
  proof -
    have tail: "st_halt (run
        [(\<lambda>s. case fs_layer_surface (plugin_surface s p) of
                None \<Rightarrow> halt_with Undefined s
              | Some l \<Rightarrow> emit (Down (Send_configure l serial w h)) s),
         on_plugin_surface p (\<lambda>u. u\<lparr>fs_has_been_configured := True\<rparr>),
         (\<lambda>s. c_assert (ss_attachment (pending s p) = No_buffer) s)] x) = Some Abort"
      if "st_halt x = None" "fs_layer_surface (plugin_surface x p) = Some l" "pending x p = pending s p" for x serial w h
      using that assms(7) by (simp add: run.simps)
    show ?thesis unfolding initial_configure_def Let_def assms(6) option.case
      by (rule tail) (simp_all add: assms(5,8) del: not_None_eq)
  qed
  ultimately show ?thesis by simp
qed

lemma detach_crashes:
  assumes "ss_attachment (pending s p) \<noteq> No_buffer"
  shows "st_halt (nested_surface_attach p None x y s) \<noteq> None"
proof -
  have "st_halt (run [f, halt_with Undefined] s) \<noteq> None" for f by (simp add: run.simps)
  then show ?thesis using assms by (simp add: nested_surface_attach_def Let_def)
qed

subsection \<open>Two wrong sizes\<close>

text \<open>The source rectangle of a viewport reaches the compositor one change late: the request that is sent
  carries the rectangle of the commit before, while the new one is recorded as committed, so no later
  commit sends it.\<close>

theorem viewport_source_lags:
  assumes "\<not> same_source (committed s p) (pending s p)" and "au_viewport (augmented s bg)" and "st_halt s = None"
  shows "let s' = apply_viewport_source p bg s; c = committed s p in
    st_trace s' = st_trace s @ [Surf bg (Viewport_source (ss_viewport_source_x c) (ss_viewport_source_y c)
      (ss_viewport_source_w c) (ss_viewport_source_h c))] \<and>
    same_source (committed s' p) (pending s p) \<and> apply_viewport_source p bg s' = s'"
proof -
  define c where "c = committed s p"
  define s' where "s' = apply_viewport_source p bg s"
  define g :: "surface_state \<Rightarrow> surface_state" where "g = (\<lambda>st. st\<lparr>ss_viewport_source_x := ss_viewport_source_x (pending s p),
      ss_viewport_source_y := ss_viewport_source_y (pending s p), ss_viewport_source_w := ss_viewport_source_w (pending s p),
      ss_viewport_source_h := ss_viewport_source_h (pending s p)\<rparr>)"
  have s': "s' = on_committed p g (emit (Surf bg (Viewport_source (ss_viewport_source_x c) (ss_viewport_source_y c)
      (ss_viewport_source_w c) (ss_viewport_source_h c))) s)"
    using assms by (simp add: s'_def apply_viewport_source_def run.simps Let_def c_assert_def g_def c_def)
  have "st_trace s' = st_trace s @ [Surf bg (Viewport_source (ss_viewport_source_x c) (ss_viewport_source_y c)
      (ss_viewport_source_w c) (ss_viewport_source_h c))]"
    by (simp add: s' on_committed_def on_plugin_surface_def on_forward_def emit_def)
  moreover have same: "same_source (committed s' p) (pending s p)" "pending s' p = pending s p"
    by (simp_all add: s' g_def same_source_def)
  moreover have "apply_viewport_source p bg s' = s'" using same by (simp add: apply_viewport_source_def)
  ultimately show ?thesis unfolding Let_def s'_def c_def by blast
qed

text \<open>A buffer drawn for a rotated output has the right size only if its sides are swapped, which the check never
  does.\<close>

lemma rotated_buffer_rejected:
  assumes "ss_buffer_transform (committed s p) \<in> {1, 3, 5, 7}" "ss_buffer_scale (committed s p) = 1"
    "ss_viewport_dest_width (committed s p) = -1" "ss_viewport_source_w (committed s p) = wl_fixed_from_int (-1)"
    "fs_committed_buffer_width (plugin_surface s p) = fs_last_acked_height (plugin_surface s p)"
    "fs_committed_buffer_height (plugin_surface s p) = fs_last_acked_width (plugin_surface s p)"
    "fs_last_acked_width (plugin_surface s p) \<noteq> fs_last_acked_height (plugin_surface s p)"
  shows "check_size_and_commit p i s =
    emit (Down (Post_error p ''The wallpaper program should exactly match the configure width/height'')) s"
  using assms by (auto simp: check_size_and_commit_def committed_size_def does_transform_transpose_size_def Let_def)

subsection \<open>Concrete commits\<close>

text \<open>A plugin surface on output 0 whose client has attached buffer 1.\<close>



definition example_state :: "forward_surface \<Rightarrow> forward_buffer \<Rightarrow> swaylock_state" where
  "example_state u fb = (initial_state quiet_world [] default_args)\<lparr>st_surfaces := [0],
     st_surface := (\<lambda>_. zero_surface\<lparr>sw_surface := \<lparr>au_surface = True, au_viewport = True, au_color_rep_surface = True, au_color_surface = True\<rparr>\<rparr>),
     st_forward := zero_forward\<lparr>fw_surface := (\<lambda>_. u), fw_buffer := (\<lambda>_. fb)\<rparr>\<rparr>"

definition example_surface :: "nat option \<Rightarrow> forward_surface" where
  "example_surface l = (new_forward_surface 4)\<lparr>fs_sway_surface := Some 0, fs_layer_surface := l, fs_has_been_configured := l \<noteq> None,
     fs_last_acked_width := 8, fs_last_acked_height := 8,
     fs_pending := default_surface_state\<lparr>ss_attachment := Buffer 1\<rparr>\<rparr>"

lemmas applies = apply_scale_def apply_transform_def apply_viewport_dest_def apply_viewport_source_def
      apply_color_rep_def apply_image_desc_def same_source_def same_color_rep_def apply_attachment_def unlink_committed_buffer_def
      attach_pending_buffer_def apply_offset_def apply_damage_def apply_subsurfaces_def apply_frame_callbacks_def
      on_committed_def on_plugin_surface_def on_forward_def emit_def on_buffer_def Let_def c_assert_def halt_with_def
lemmas example_defs = example_state_def example_surface_def zero_forward_def default_surface_state_def new_forward_surface_def
  initial_state_def zero_buffer_def wl_fixed_from_int_def zero_surface_def zero_augmented_def

lemma example_applies: "st_halt (apply_pending_surface_updates 0 (Background 0)
      (example_state (example_surface (Some 2)) (zero_buffer\<lparr>fb_resource := True, fb_width := 8, fb_height := 8\<rparr>))) = None"
  by (simp add: apply_pending_surface_updates_def run.simps applies example_defs)


lemma example_commits: "st_halt (nested_surface_commit 0 (example_state (example_surface (Some 2)) (zero_buffer\<lparr>fb_width := 8, fb_height := 8\<rparr>))) = None"
  by (simp add: nested_surface_commit_def commit_layer_surface_def apply_pending_surface_updates_def run.simps applies example_defs check_size_and_commit_def forward_commit_def committed_size_def disarm_submission_timer_def ack_pending_configure_def on_surface_def)

lemma stale_buffer_aborts_witness:
  "st_halt (nested_surface_commit 0 (nested_surface_commit 0
     (example_state (example_surface (Some 2)) (zero_buffer\<lparr>fb_width := 8, fb_height := 8\<rparr>)))) = Some Abort"
  by (rule stale_buffer_aborts [of _ _ 1 0]) (use example_commits in \<open>simp_all add: example_state_def example_surface_def zero_forward_def
      default_surface_state_def new_forward_surface_def zero_buffer_def\<close>)

lemma viewport_source_lags_witness:
  "st_trace (apply_viewport_source 0 (Background 0) (example_state ((example_surface (Some 2))\<lparr>fs_pending := default_surface_state
     \<lparr>ss_viewport_source_x := 0, ss_viewport_source_y := 0, ss_viewport_source_w := 1024, ss_viewport_source_h := 1024\<rparr>\<rparr>) zero_buffer)) =
   [Surf (Background 0) (Viewport_source (-256) (-256) (-256) (-256))]"
  using viewport_source_lags [of "example_state ((example_surface (Some 2))\<lparr>fs_pending := default_surface_state
     \<lparr>ss_viewport_source_x := 0, ss_viewport_source_y := 0, ss_viewport_source_w := 1024, ss_viewport_source_h := 1024\<rparr>\<rparr>) zero_buffer" 0 "Background 0"]
  by (simp add: Let_def example_state_def example_surface_def zero_forward_def default_surface_state_def same_source_def
      wl_fixed_from_int_def initial_state_def new_forward_surface_def)

end
