(* ===== verification/Clients.thy ===== *)
theory Clients
  imports ForwardObjects Commit
begin

section \<open>Plugin processes and their connections (main.c)\<close>

text \<open>
  Starting the plugin command with its environment, the record of each client, its destruction by the plugin or by a
  time-out, and the fallback without any client.  \<open>by_id\<close> is the order in which the library destroys the
  objects of a client that goes away, which the client chooses with its object identifiers.
\<close>

definition TIMEOUT_CONNECT :: int where "TIMEOUT_CONNECT = 2500"
definition TIMEOUT_SURFACE :: int where "TIMEOUT_SURFACE = 4000"

subsection \<open>The environment of the command\<close>

definition skipped_variables :: "string list" where
  "skipped_variables = [''WAYLAND_DEBUG'', ''WAYLAND_DISPLAY'', ''WAYLAND_SOCKET'',
     ''SWAYLOCK_PLUGIN_OUTPUT_NAME'', ''SWAYLOCK_PLUGIN_OUTPUT_DESC'', ''DISPLAY'']"

definition starts_with :: "string \<Rightarrow> string \<Rightarrow> bool" where
  "starts_with p x \<longleftrightarrow> take (length p) x = p"

definition dropped :: "string \<Rightarrow> bool" where
  "dropped x \<longleftrightarrow> (\<exists>p \<in> set skipped_variables. starts_with p x)"

text \<open>\<open>snprintf\<close> into a buffer of \<open>n\<close> bytes keeps \<open>n - 1\<close> of them.\<close>

definition snprintf :: "nat \<Rightarrow> string \<Rightarrow> string" where
  "snprintf n x = take (n - 1) x"

definition decimal_int :: "int \<Rightarrow> string" where
  "decimal_int k = (if k < 0 then ''-'' @ decimal (nat (- k)) else decimal (nat k))"

definition plugin_env :: "string list \<Rightarrow> int \<Rightarrow> string option \<Rightarrow> string option \<Rightarrow> string list" where
  "plugin_env env sock_child output_name output_desc =
     filter (\<lambda>x. \<not> dropped x) env @
     [snprintf 32 (''WAYLAND_SOCKET='' @ decimal_int sock_child)] @
     (case (output_name, output_desc) of
        (Some n, Some d) \<Rightarrow> [snprintf 256 (''SWAYLOCK_PLUGIN_OUTPUT_NAME='' @ n), snprintf 256 (''SWAYLOCK_PLUGIN_OUTPUT_DESC='' @ d)]
      | _ \<Rightarrow> [])"

text \<open>The array \<open>prog_envp\<close> is allocated with this many entries, and gets a terminating \<open>NULL\<close>.\<close>

definition envp_slots :: "string list \<Rightarrow> nat" where
  "envp_slots env = length env + 4"

subsection \<open>Starting the command\<close>

definition set_cloexec :: "swaylock_state \<Rightarrow> bool \<times> swaylock_state" where
  "set_cloexec s =
     (let (flags, s1) = sys_ret s in
      if flags = -1 then (False, s1)
      else let (r, s2) = sys_ret s1 in (r \<noteq> -1, s2))"

text \<open>The result of each preparing call is compared with \<open>-1\<close> or with 0, as the code does.  A
  successful \<open>posix_spawnp\<close> starts the process; one that fails with an error number is taken for a success,
  and the process identifier is then whatever the variable held.\<close>

definition spawn_command :: "int \<Rightarrow> string option \<Rightarrow> string option \<Rightarrow> swaylock_state \<Rightarrow> int option \<times> swaylock_state" where
  "spawn_command sock_child output_name output_desc s =
     (let (r1, s1) = sys_ret s in if r1 = -1 then (None, s1) else
      let (r2, s2) = sys_ret s1 in if r2 \<noteq> 0 then (None, s2) else
      let (r3, s3) = sys_ret s2 in if r3 = -1 then (None, s3) else
      let (r4, s4) = sys_ret s3 in if r4 \<noteq> 0 then (None, s4) else
      let (r5, s5) = sys_ret s4 in if r5 \<noteq> 0 then (None, s5) else
      let (r6, s6) = sys_ret s5 in if r6 = -1 then (None, s6) else
      let (pid, s7) = sys_ret s6 in
        (Some pid,
         if r6 = 0 then emit (Sys (Spawn (a_plugin_command (st_args s))
                                         (plugin_env (w_environ (st_world s)) sock_child output_name output_desc))) s7
         else s7))"

definition new_client :: "int \<Rightarrow> nat \<Rightarrow> nat option \<Rightarrow> swaylock_bg_client" where
  "new_client pid c t = \<lparr>bc_serial = 100000, bc_client = c, bc_unique_output = None, bc_pid = pid, bc_paused = False,
     bc_made_a_registry = False, bc_client_connect_timer = t,
     bc_resource_create_listening = True, bc_destroy_listening = True\<rparr>"

text \<open>The record of a started process: linked into the list, connected to the nested display (which must exist), with its
  connection timer, and tied to its output or made the client of all outputs.\<close>

definition link_client :: "nat \<Rightarrow> nat option \<Rightarrow> swaylock_state \<Rightarrow> swaylock_state" where
  "link_client c output =
     (case output of
        Some i \<Rightarrow> run
          [(\<lambda>s. c_assert (sw_client (st_surface s i) = None) s),
           on_surface i (\<lambda>sf. sf\<lparr>sw_client := Some c\<rparr>),
           on_client c (\<lambda>b. b\<lparr>bc_unique_output := Some i\<rparr>)]
      | None \<Rightarrow> run
          [(\<lambda>s. c_assert (sv_main_client (st_server s) = None) s),
           on_server (\<lambda>v. v\<lparr>sv_main_client := Some c\<rparr>)])"

definition add_client :: "int \<Rightarrow> nat option \<Rightarrow> swaylock_state \<Rightarrow> swaylock_state" where
  "add_client pid output s =
     (if \<not> sv_display (st_server s) then halt_with Undefined s
      else
        let c = sv_next_client (st_server s);
            (t, s1) = add_timer TIMEOUT_CONNECT (Client_connection_timeout c) s;
            s2 = on_server (\<lambda>v. v\<lparr>sv_clients := c # sv_clients v, sv_next_client := Suc c,
                                  sv_client := (sv_client v)(c := new_client pid c (Some t))\<rparr>) s1
        in link_client c output (emit (Down (Create_client c)) s2))"

definition run_plugin_command :: "nat option \<Rightarrow> swaylock_state \<Rightarrow> bool \<times> swaylock_state" where
  "run_plugin_command output s =
     (let (r, s1) = sys_ret s in
      if r = -1 then (False, s1)
      else
        let (theirs, s2) = sys_ret s1; (ours, s3) = sys_ret s2; (cloexec, s4) = set_cloexec s3;
            close_both = (\<lambda>s. emit (Sys (Close ours)) (emit (Sys (Close theirs)) s))
        in if \<not> cloexec then (False, close_both s4)
           else
             let name = (case output of None \<Rightarrow> None | Some i \<Rightarrow> sw_output_name (st_surface s4 i));
                 desc = (case output of None \<Rightarrow> None | Some i \<Rightarrow> sw_output_description (st_surface s4 i));
                 (pid, s5) = spawn_command theirs name desc s4
             in case pid of
                  None \<Rightarrow> (False, close_both s5)
                | Some pid \<Rightarrow> (True, add_client pid output (emit (Sys (Close theirs)) s5)))"

text \<open>The client makes its first object.\<close>

definition client_resource_create :: "nat \<Rightarrow> nat \<Rightarrow> swaylock_state \<Rightarrow> swaylock_state" where
  "client_resource_create c requester s =
     (if requester \<noteq> bc_client (client s c) then s
      else
        let s1 = on_client c (\<lambda>b. b\<lparr>bc_made_a_registry := True\<rparr>) s;
            s2 = (case bc_client_connect_timer (client s1 c) of
                    None \<Rightarrow> s1
                  | Some t \<Rightarrow> on_client c (\<lambda>b. b\<lparr>bc_client_connect_timer := None\<rparr>) (remove_timer t s1))
        in on_client c (\<lambda>b. b\<lparr>bc_resource_create_listening := False\<rparr>) s2)"

text \<open>What a client is shown: the client of one output does not see the other outputs.\<close>

definition global_filter :: "swaylock_state \<Rightarrow> nat \<Rightarrow> nat option \<Rightarrow> bool" where
  "global_filter s cl output =
     (case find (\<lambda>c. bc_client (client s c) = cl) (sv_clients (st_server s)) of
        None \<Rightarrow> False
      | Some c \<Rightarrow>
          (case (bc_unique_output (client s c), output) of
             (Some i, Some j) \<Rightarrow> i = j
           | _ \<Rightarrow> True))"

subsection \<open>The end of a client\<close>

definition cleanup_client :: "nat \<Rightarrow> swaylock_state \<Rightarrow> swaylock_state" where
  "cleanup_client c s =
     (let s1 = on_server (\<lambda>v. v\<lparr>sv_clients := removeAll c (sv_clients v)\<rparr>) (set_client_paused (Some c) False s);
          s2 = (case bc_client_connect_timer (client s1 c) of None \<Rightarrow> s1 | Some t \<Rightarrow> remove_timer t s1)
      in case bc_unique_output (client s2 c) of
           Some i \<Rightarrow> run [c_assert (sw_client (st_surface s2 i) = Some c), on_surface i (\<lambda>sf. sf\<lparr>sw_client := None\<rparr>)] s2
         | None \<Rightarrow> run [c_assert (sv_main_client (st_server s2) = Some c),
                        on_server (\<lambda>v. v\<lparr>sv_main_client := None\<rparr>)] s2)"

definition client_destroyed :: "nat \<Rightarrow> nat \<Rightarrow> swaylock_state \<Rightarrow> swaylock_state" where
  "client_destroyed c cl s =
     (if cl \<noteq> bc_client (client s c) then s
      else
        let output = bc_unique_output (client s c); made_a_registry = bc_made_a_registry (client s c)
        in run
             [cleanup_client c,
              (\<lambda>s. if \<not> made_a_registry then s\<lparr>st_start_clientless_mode := True\<rparr>
                   else let (ok, s1) = run_plugin_command output s
                        in if ok then s1 else s1\<lparr>st_start_clientless_mode := True\<rparr>)] s)"

text \<open>\<open>wl_client_destroy\<close> of the library: the listener first, then the client's objects.  The client must
  belong to a display that exists.\<close>

definition client_resources :: "swaylock_state \<Rightarrow> nat \<Rightarrow> nat list" where
  "client_resources s c = map rs_id (filter (\<lambda>x. rs_client x = c) (fw_resources (st_forward s)))"

definition wl_client_destroy :: "(nat list \<Rightarrow> nat list) \<Rightarrow> nat \<Rightarrow> swaylock_state \<Rightarrow> swaylock_state" where
  "wl_client_destroy by_id c s =
     (if \<not> sv_display (st_server s) then halt_with Undefined s
      else run
        [(\<lambda>s. if bc_destroy_listening (client s c) then client_destroyed c (bc_client (client s c)) s else s),
         (\<lambda>s. run (map wl_resource_destroy (by_id (client_resources s c))) s),
         emit (Down (Destroy_client c))] s)"

subsection \<open>Without clients\<close>

text \<open>The whole output in the background colour.  A buffer of no bytes leaves the local variable uninitialised.\<close>

definition render_fallback_surface :: "nat \<Rightarrow> swaylock_state \<Rightarrow> swaylock_state" where
  "render_fallback_surface i s =
     (let (buffer, s1) = create_buffer (Fallback_buffer i) zero_pool_buffer (sw_width (st_surface s i)) (sw_height (st_surface s i)) s
      in case buffer of
           None \<Rightarrow> s1
         | Some b \<Rightarrow>
             if \<not> pb_buffer b then halt_with Undefined s1
             else
               on_surface i (\<lambda>sf. sf\<lparr>sw_has_buffer := True\<rparr>)
                 (snd (destroy_buffer (Fallback_buffer i) b
                   (emit (Surf (Background i) Commit)
                     (emit (Surf (Background i) (Damage_buffer 0 0 (2 ^ 31 - 1) (2 ^ 31 - 1)))
                       (emit (Surf (Background i) (Attach (Some (Fallback_buffer i)) 0 0))
                         (emit (Surf (Background i) (Set_buffer_scale 1))
                           (emit (Draw (Fallback_buffer i) [Fill_all (c_background (a_colors (st_args s)))]) s1))))))))"

definition ack_newest :: "nat \<Rightarrow> swaylock_state \<Rightarrow> swaylock_state" where
  "ack_newest i s =
     (if sw_has_newer_serial (st_surface s i)
      then on_surface i (\<lambda>sf. sf\<lparr>sw_has_newer_serial := False\<rparr>)
             (emit (Up (Ack_configure i (sw_newest_serial (st_surface s i)))) s)
      else s)"

definition fallback_output :: "nat \<Rightarrow> swaylock_state \<Rightarrow> swaylock_state" where
  "fallback_output i s =
     (if st_halt s \<noteq> None then s
      else if sw_width (st_surface s i) = 0 \<or> sw_height (st_surface s i) = 0 then s
      else run
        [(\<lambda>s. if \<not> sw_has_buffer (st_surface s i) then render_fallback_surface i (ack_newest i s) else s),
         (\<lambda>s. render i (on_surface i (\<lambda>sf. sf\<lparr>sw_dirty := True\<rparr>) s))] s)"

definition cancel_redraw_timer :: "nat \<Rightarrow> swaylock_state \<Rightarrow> swaylock_state" where
  "cancel_redraw_timer i s =
     (case sw_client_submission_timer (st_surface s i) of
        None \<Rightarrow> s
      | Some t \<Rightarrow> on_surface i (\<lambda>sf. sf\<lparr>sw_client_submission_timer := None\<rparr>) (remove_timer t s))"

definition stop_nested_server :: "swaylock_state \<Rightarrow> swaylock_state" where
  "stop_nested_server s =
     on_server (\<lambda>v. v\<lparr>sv_display := False\<rparr>)
       (emit (Down Destroy_display) (on_loop (\<lambda>L. snd (loop_remove_fd (w_fd (st_world s) Dispatch_nested) L)) s))"

definition setup_clientless_mode :: "swaylock_state \<Rightarrow> swaylock_state" where
  "setup_clientless_mode s =
     (if \<not> sv_display (st_server s) then s
      else
        let s1 = resume_all_clients s;
            s2 = stop_nested_server (fold cancel_redraw_timer (st_surfaces s1) s1)
        in fold fallback_output (st_surfaces s2) s2)"

subsection \<open>Time-outs\<close>

definition client_timeout :: "(nat list \<Rightarrow> nat list) \<Rightarrow> nat \<Rightarrow> swaylock_state \<Rightarrow> swaylock_state" where
  "client_timeout by_id c s =
     run [on_client c (\<lambda>b. b\<lparr>bc_destroy_listening := False\<rparr>),
          (\<lambda>s. if sv_display (st_server s) then wl_client_destroy by_id (bc_client (client s c)) s else s),
          cleanup_client c,
          setup_clientless_mode] s"

definition client_connection_timeout :: "(nat list \<Rightarrow> nat list) \<Rightarrow> nat \<Rightarrow> swaylock_state \<Rightarrow> swaylock_state" where
  "client_connection_timeout by_id c s =
     client_timeout by_id c (on_client c (\<lambda>b. b\<lparr>bc_client_connect_timer := None\<rparr>) s)"

definition output_redraw_timeout :: "(nat list \<Rightarrow> nat list) \<Rightarrow> nat \<Rightarrow> swaylock_state \<Rightarrow> swaylock_state" where
  "output_redraw_timeout by_id i s =
     (let s1 = on_surface i (\<lambda>sf. sf\<lparr>sw_client_submission_timer := None\<rparr>) s
      in case client_for_surface s1 (Some i) of
           None \<Rightarrow> s1
         | Some c \<Rightarrow> client_timeout by_id c s1)"

end
