(* ===== verification/Outputs.thy ===== *)
theory Outputs
  imports Clients
begin

section \<open>Outputs and layer surfaces (main.c)\<close>

text \<open>
  An output from its announcement to its removal: its properties, the lock surface and its configure events, the objects by
  which plugin clients see it, and the layer surfaces of the plugin with their serials.  An output that was
  removed is no longer in \<open>st_surfaces\<close>; an object of a client that still refers to it holds a dangling pointer, and
  using it is \<open>Undefined\<close>.
\<close>

subsection \<open>Layer surfaces\<close>

text \<open>The search in the serial table; what was sent up to the acknowledged entry is dropped.\<close>

fun use_serial :: "u32 \<Rightarrow> serial_pair list \<Rightarrow> (serial_pair \<times> serial_pair list) option" where
  "use_serial serial [] = None"
| "use_serial serial (e # es) = (if sp_plugin_serial e = serial then Some (e, es) else use_serial serial es)"

definition record_ack :: "nat \<Rightarrow> nat \<Rightarrow> serial_pair \<Rightarrow> serial_pair list \<Rightarrow> swaylock_state \<Rightarrow> swaylock_state" where
  "record_ack p i entry rest s =
     (let s1 = on_plugin_surface p (\<lambda>u. u\<lparr>fs_last_acked_width := sp_config_width entry,
                 fs_last_acked_height := sp_config_height entry, fs_serial_table := rest\<rparr>) s
      in if sp_local_only entry then s1
         else on_surface i (\<lambda>sf. sf\<lparr>sw_has_pending_ack_conf := True, sw_pending_upstream_serial := sp_upstream_serial entry\<rparr>) s1)"

definition zwlr_layer_surface_ack_configure :: "nat \<Rightarrow> nat \<Rightarrow> u32 \<Rightarrow> swaylock_state \<Rightarrow> swaylock_state" where
  "zwlr_layer_surface_ack_configure c r serial s =
     (case fw_user_data (st_forward s) r of
        None \<Rightarrow> halt_with Undefined s
      | Some i \<Rightarrow>
          if i \<notin> set (st_surfaces s) then halt_with Undefined s
          else case sw_plugin_surface (st_surface s i) of
            None \<Rightarrow> halt_with Undefined s
          | Some p \<Rightarrow>
              if serial = fs_last_used_plugin_serial (plugin_surface s p) then s
              else
                let s1 = on_plugin_surface p (\<lambda>u. u\<lparr>fs_last_used_plugin_serial := serial\<rparr>) s
                in case use_serial serial (fs_serial_table (plugin_surface s p)) of
                     None \<Rightarrow> emit (Down (Client_error c ''used ack configure with invalid serial'')) s1
                   | Some (entry, rest) \<Rightarrow> record_ack p i entry rest s1)"

text \<open>The output of a client that names none: that of its record.\<close>

definition output_of_client :: "swaylock_state \<Rightarrow> nat \<Rightarrow> nat option" where
  "output_of_client s c =
     fold (\<lambda>d found. if bc_client (client s d) = c then bc_unique_output (client s d) else found)
       (sv_clients (st_server s)) None"

definition attach_layer_surface :: "nat \<Rightarrow> nat \<Rightarrow> nat \<Rightarrow> swaylock_state \<Rightarrow> swaylock_state" where
  "attach_layer_surface c p i s =
     (if sw_plugin_surface (st_surface s i) \<noteq> None
      then emit (Down (Client_error c ''Tried to get a new layer surface for an output that already has one.'')) s
      else if fs_sway_surface (plugin_surface s p) \<noteq> None
      then emit (Down (Client_error c ''Tried to get a new layer surface for a surface that already has one.'')) s
      else
        let s1 = on_plugin_surface p (\<lambda>u. u\<lparr>fs_sway_surface := Some i\<rparr>)
                   (on_surface i (\<lambda>sf. sf\<lparr>sw_plugin_surface := Some p\<rparr>) s)
        in case client_for_surface s1 (Some i) of
             None \<Rightarrow> halt_with Abort s1
           | Some b \<Rightarrow>
               if bc_client (client s1 b) \<noteq> c then halt_with Abort s1
               else
                 let serial = bc_serial (client s1 b);
                     (r, s2) = new_resource c K_layer_surface
                       (on_plugin_surface p (\<lambda>u. u\<lparr>fs_last_used_plugin_serial := serial\<rparr>)
                         (on_client b (\<lambda>b. b\<lparr>bc_serial := serial + 1\<rparr>) s1));
                     s3 = on_plugin_surface p (\<lambda>u. u\<lparr>fs_layer_surface := Some r\<rparr>) (set_user_data r (Some i) s2);
                     scale = sw_last_fractional_scale (st_surface s3 i)
                 in case fs_fractional_scale (plugin_surface s3 p) of
                      Some f \<Rightarrow> if scale > 0 then emit (Down (Send_preferred_scale f scale)) s3 else s3
                    | None \<Rightarrow> s3)"

definition wlr_layer_shell_get_layer_surface :: "nat \<Rightarrow> nat \<Rightarrow> nat option \<Rightarrow> swaylock_state \<Rightarrow> swaylock_state" where
  "wlr_layer_shell_get_layer_surface c p output s =
     (case output of
        Some r \<Rightarrow>
          (case fw_user_data (st_forward s) r of
             None \<Rightarrow> halt_with Abort s
           | Some i \<Rightarrow> if i \<notin> set (st_surfaces s) then halt_with Undefined s else attach_layer_surface c p i s)
      | None \<Rightarrow>
          if (case sv_main_client (st_server s) of None \<Rightarrow> False | Some m \<Rightarrow> bc_client (client s m) = c) then s
          else case output_of_client s c of
                 None \<Rightarrow> s
               | Some i \<Rightarrow> attach_layer_surface c p i s)"

definition fract_scale_preferred_scale :: "nat \<Rightarrow> u32 \<Rightarrow> swaylock_state \<Rightarrow> swaylock_state" where
  "fract_scale_preferred_scale i scale s =
     run [c_assert (scale > 0),
          (\<lambda>s. if sw_last_fractional_scale (st_surface s i) = scale then s
               else
                 let s1 = on_surface i (\<lambda>sf. sf\<lparr>sw_last_fractional_scale := scale\<rparr>) s
                 in case sw_plugin_surface (st_surface s1 i) of
                      None \<Rightarrow> s1
                    | Some p \<Rightarrow>
                        (case fs_fractional_scale (plugin_surface s1 p) of
                           None \<Rightarrow> s1
                         | Some f \<Rightarrow> emit (Down (Send_preferred_scale f scale)) s1))] s"

subsection \<open>Configure events\<close>

definition reconfigure_plugin :: "nat \<Rightarrow> u32 \<Rightarrow> swaylock_state \<Rightarrow> swaylock_state" where
  "reconfigure_plugin i serial s =
     (case sw_plugin_surface (st_surface s i) of
        None \<Rightarrow> s
      | Some p \<Rightarrow>
          if \<not> fs_has_been_configured (plugin_surface s p) then s
          else
            (case client_for_surface s (Some i) of
               None \<Rightarrow> halt_with Undefined s
             | Some b \<Rightarrow>
                 let plugin_serial = bc_serial (client s b); sf = st_surface s i;
                     s1 = add_serial_pair p serial plugin_serial (sw_width sf) (sw_height sf) False
                            (on_client b (\<lambda>b. b\<lparr>bc_serial := plugin_serial + 1\<rparr>) s)
                 in case fs_layer_surface (plugin_surface s1 p) of
                      None \<Rightarrow> halt_with Undefined s1
                    | Some l \<Rightarrow> emit (Down (Send_configure l plugin_serial (sw_width sf) (sw_height sf))) s1))"

definition forward_configure :: "nat \<Rightarrow> bool \<Rightarrow> u32 \<Rightarrow> swaylock_state \<Rightarrow> swaylock_state" where
  "forward_configure i first_configure serial s =
     (let sf = st_surface s i in
      if sw_width sf = 0 \<or> sw_height sf = 0 then s
      else if first_configure then
        on_surface i (\<lambda>sf. sf\<lparr>sw_nested_server_output := True, sw_first_configure_serial := serial,
                              sw_used_first_configure := False\<rparr>)
          (emit (Down (Create_output_global i)) s)
      else
        let s1 = fold (\<lambda>r. emit (Down (Send_output_state r i))) (sw_wl_output_resources sf) s;
            s2 = fold (\<lambda>r. emit (Down (Send_xdg_size r (sw_width sf) (sw_height sf)))) (sw_xdg_output_resources sf) s1
        in reconfigure_plugin i serial s2)"

definition arm_redraw_timer :: "nat \<Rightarrow> swaylock_state \<Rightarrow> swaylock_state" where
  "arm_redraw_timer i s =
     (let (t, s1) = add_timer TIMEOUT_SURFACE (Output_redraw_timeout i) s
      in on_surface i (\<lambda>sf. sf\<lparr>sw_client_submission_timer := Some t\<rparr>) s1)"

definition ext_session_lock_surface_v1_handle_configure ::
  "nat \<Rightarrow> u32 \<Rightarrow> u32 \<Rightarrow> u32 \<Rightarrow> swaylock_state \<Rightarrow> swaylock_state" where
  "ext_session_lock_surface_v1_handle_configure i serial width height s =
     (let first_configure = sw_width (st_surface s i) = 0 \<or> sw_height (st_surface s i) = 0;
          size_change = sw_width (st_surface s i) \<noteq> width \<or> sw_height (st_surface s i) \<noteq> height
      in run
           [on_surface i (\<lambda>sf. sf\<lparr>sw_width := width, sw_height := height, sw_newest_serial := serial\<rparr>),
            (\<lambda>s. if sv_display (st_server s)
                 then run [forward_configure i first_configure serial, on_surface i (\<lambda>sf. sf\<lparr>sw_has_newer_serial := True\<rparr>)] s
                 else run [emit (Up (Ack_configure i serial)), on_surface i (\<lambda>sf. sf\<lparr>sw_has_newer_serial := False\<rparr>),
                           render_fallback_surface i] s),
            (\<lambda>s. render i (on_surface i (\<lambda>sf. sf\<lparr>sw_dirty := True\<rparr>) s)),
            (\<lambda>s. if size_change \<and> \<not> first_configure \<and> sw_client_submission_timer (st_surface s i) = None
                 then arm_redraw_timer i s else s)] s)"

subsection \<open>Images\<close>

fun strcmp :: "string \<Rightarrow> string \<Rightarrow> int" where
  "strcmp [] [] = 0"
| "strcmp [] (y # ys) = -1"
| "strcmp (x # xs) [] = 1"
| "strcmp (x # xs) (y # ys) =
     (if x = y then strcmp xs ys else if (of_char x :: nat) < of_char y then -1 else 1)"

definition lenient_strcmp :: "string option \<Rightarrow> string option \<Rightarrow> int" where
  "lenient_strcmp a b =
     (case (a, b) of
        (None, None) \<Rightarrow> 0
      | (None, Some _) \<Rightarrow> -1
      | (Some _, None) \<Rightarrow> 1
      | (Some x, Some y) \<Rightarrow> strcmp x y)"

fun select_image_loop :: "swaylock_image list \<Rightarrow> string option \<Rightarrow> swaylock_image option \<Rightarrow> swaylock_image option" where
  "select_image_loop [] name def = def"
| "select_image_loop (im # ims) name def =
     (if lenient_strcmp (im_output_name im) name = 0 then Some im
      else select_image_loop ims name (if im_output_name im = None then Some im else def))"

definition select_image :: "swaylock_state \<Rightarrow> nat \<Rightarrow> swaylock_image option" where
  "select_image s i = select_image_loop (st_images s) (sw_output_name (st_surface s i)) None"

definition surface_is_opaque :: "swaylock_state \<Rightarrow> nat \<Rightarrow> bool" where
  "surface_is_opaque s i =
     (case sw_image_opaque (st_surface s i) of
        Some opq \<Rightarrow> opq
      | None \<Rightarrow> c_background (a_colors (st_args s)) AND 0xff = 0xff)"

subsection \<open>Creation of the lock surface\<close>

definition create_surface :: "nat \<Rightarrow> swaylock_state \<Rightarrow> swaylock_state" where
  "create_surface i s =
     (let w = st_forward s;
          img = map_option im_opaque (select_image s i)
      in run
           [on_surface i (\<lambda>sf. sf\<lparr>sw_image_opaque := img\<rparr>),
            emit (Surf (Background i) Create_surface),
            emit (Surf (Indicator i) Create_surface),
            emit (Surf (Indicator i) (Get_subsurface (Background i))),
            emit (Surf (Indicator i) (Subsurface_set_sync True)),
            emit (Up (Get_lock_surface i)),
            (\<lambda>s. if surface_is_opaque s i \<and> a_mode (st_args s) \<noteq> BACKGROUND_MODE_CENTER \<and> a_mode (st_args s) \<noteq> BACKGROUND_MODE_FIT
                 then emit (Surf (Background i) Set_opaque_region) s else s),
            on_surface i (\<lambda>sf. sf\<lparr>sw_child := True, sw_subsurface := True, sw_ext_session_lock_surface := True,
               sw_fractional_scale := fw_fractional_scale w,
               sw_surface := \<lparr>au_surface = True, au_viewport = fw_viewporter w,
                 au_color_rep_surface = fw_color_representation w, au_color_surface = fw_color_management w\<rparr>\<rparr>),
            arm_redraw_timer i,
            (\<lambda>s. if a_plugin_per_output (st_args s)
                 then let (ok, s1) = run_plugin_command (Some i) s in if ok then s1 else setup_clientless_mode s1
                 else s),
            on_surface i (\<lambda>sf. sf\<lparr>sw_created := True\<rparr>)] s)"

definition init_surface_if_ready :: "nat \<Rightarrow> swaylock_state \<Rightarrow> swaylock_state" where
  "init_surface_if_ready i s =
     (let sf = st_surface s i in
      if sw_created sf \<or> \<not> st_run_display s then s
      else if \<not> sw_has_output_done sf then s
      else if sw_output_desc sf = Desc_pending then s
      else create_surface i s)"

subsection \<open>Properties of an output\<close>

definition redraw_if_running :: "nat \<Rightarrow> swaylock_state \<Rightarrow> swaylock_state" where
  "redraw_if_running i s = (if st_run_display s then render i (on_surface i (\<lambda>sf. sf\<lparr>sw_dirty := True\<rparr>) s) else s)"

definition handle_wl_output_geometry :: "nat \<Rightarrow> int \<Rightarrow> int \<Rightarrow> int \<Rightarrow> int \<Rightarrow> swaylock_state \<Rightarrow> swaylock_state" where
  "handle_wl_output_geometry i width_mm height_mm subpixel transform s =
     redraw_if_running i (on_surface i (\<lambda>sf. sf\<lparr>sw_subpixel := subpixel, sw_physical_width := width_mm,
       sw_physical_height := height_mm, sw_output_transform := transform\<rparr>) s)"

definition WL_OUTPUT_MODE_CURRENT :: u32 where "WL_OUTPUT_MODE_CURRENT = 1"

definition handle_wl_output_mode :: "nat \<Rightarrow> u32 \<Rightarrow> int \<Rightarrow> int \<Rightarrow> swaylock_state \<Rightarrow> swaylock_state" where
  "handle_wl_output_mode i flags width height s =
     (if flags AND WL_OUTPUT_MODE_CURRENT \<noteq> 0
      then on_surface i (\<lambda>sf. sf\<lparr>sw_mode_width := width, sw_mode_height := height\<rparr>) s else s)"

definition handle_wl_output_done :: "nat \<Rightarrow> swaylock_state \<Rightarrow> swaylock_state" where
  "handle_wl_output_done i s = init_surface_if_ready i (on_surface i (\<lambda>sf. sf\<lparr>sw_has_output_done := True\<rparr>) s)"

definition handle_wl_output_scale :: "nat \<Rightarrow> int \<Rightarrow> swaylock_state \<Rightarrow> swaylock_state" where
  "handle_wl_output_scale i factor s = redraw_if_running i (on_surface i (\<lambda>sf. sf\<lparr>sw_scale := factor\<rparr>) s)"

definition handle_wl_output_name :: "nat \<Rightarrow> string \<Rightarrow> swaylock_state \<Rightarrow> swaylock_state" where
  "handle_wl_output_name i name = on_surface i (\<lambda>sf. sf\<lparr>sw_output_name := Some name\<rparr>)"

definition handle_wl_output_description :: "nat \<Rightarrow> string \<Rightarrow> swaylock_state \<Rightarrow> swaylock_state" where
  "handle_wl_output_description i description = on_surface i (\<lambda>sf. sf\<lparr>sw_output_description := Some description\<rparr>)"

definition setup_color_management_for_surface :: "nat \<Rightarrow> swaylock_state \<Rightarrow> swaylock_state" where
  "setup_color_management_for_surface i = on_surface i (\<lambda>sf. sf\<lparr>sw_output_desc := Desc_pending\<rparr>)"

text \<open>A new output; \<open>i\<close> is its fresh number.\<close>

definition handle_global_output :: "nat \<Rightarrow> u32 \<Rightarrow> swaylock_state \<Rightarrow> swaylock_state" where
  "handle_global_output i name s =
     (let s1 = on_surface i (\<lambda>_. zero_surface\<lparr>sw_output_global_name := name\<rparr>) (s\<lparr>st_surfaces := i # st_surfaces s\<rparr>)
      in if fw_color_management (st_forward s1) then setup_color_management_for_surface i s1 else s1)"

text \<open>The other globals of interest; a second colour manager fails an assertion.\<close>

datatype optional_global = Viewporter | Fractional_scale_manager | Color_manager | Color_representation_manager

fun handle_global_optional :: "optional_global \<Rightarrow> swaylock_state \<Rightarrow> swaylock_state" where
  "handle_global_optional Viewporter s = on_forward (\<lambda>w. w\<lparr>fw_viewporter := True\<rparr>) s"
| "handle_global_optional Fractional_scale_manager s = on_forward (\<lambda>w. w\<lparr>fw_fractional_scale := True\<rparr>) s"
| "handle_global_optional Color_representation_manager s = on_forward (\<lambda>w. w\<lparr>fw_color_representation := True\<rparr>) s"
| "handle_global_optional Color_manager s =
     run [(\<lambda>s. c_assert (\<not> fw_color_management (st_forward s)) s),
          on_forward (\<lambda>w. w\<lparr>fw_color_management := True\<rparr>),
          (\<lambda>s. run (map (\<lambda>i s. run [(\<lambda>s. c_assert (sw_output_desc (st_surface s i) = No_color_output) s),
                                    setup_color_management_for_surface i] s) (st_surfaces s)) s)] s"

subsection \<open>Removal of an output\<close>

text \<open>The list head for the stale objects of the colour manager is never initialised: inserting into it
  dereferences a \<open>NULL\<close> pointer.  The global of the output was freed with the nested display, if that is gone.\<close>

definition retire_output_objects :: "nat \<Rightarrow> swaylock_state \<Rightarrow> swaylock_state" where
  "retire_output_objects i s =
     (if \<not> sv_display (st_server s) then halt_with Undefined s
      else
        let s1 = emit (Down (Remove_output_global i)) s; sf = st_surface s1 i
        in if sw_color_output_resources sf \<noteq> [] then halt_with Undefined s1
           else on_surface i (\<lambda>sf. sf\<lparr>sw_wl_output_resources := [], sw_xdg_output_resources := []\<rparr>)
                  (s1\<lparr>st_stale_xdg_output_resources := rev (sw_xdg_output_resources sf) @ st_stale_xdg_output_resources s1,
                      st_stale_wl_output_resources := rev (sw_wl_output_resources sf) @ st_stale_wl_output_resources s1\<rparr>))"

definition close_plugin_surface :: "nat \<Rightarrow> swaylock_state \<Rightarrow> swaylock_state" where
  "close_plugin_surface i s =
     (case sw_plugin_surface (st_surface s i) of
        None \<Rightarrow> s
      | Some p \<Rightarrow>
          (case fs_layer_surface (plugin_surface s p) of
             None \<Rightarrow> halt_with Undefined s
           | Some l \<Rightarrow>
               on_plugin_surface p (\<lambda>u. u\<lparr>fs_sway_surface := None, fs_inert := True\<rparr>) (emit (Down (Send_closed l)) s)))"

definition drop_output_client :: "(nat list \<Rightarrow> nat list) \<Rightarrow> nat \<Rightarrow> swaylock_state \<Rightarrow> swaylock_state" where
  "drop_output_client by_id i s =
     (case sw_client (st_surface s i) of
        None \<Rightarrow> s
      | Some c \<Rightarrow> run
          [on_client c (\<lambda>b. b\<lparr>bc_destroy_listening := False\<rparr>),
           (\<lambda>s. wl_client_destroy by_id (bc_client (client s c)) s),
           cleanup_client c,
           (\<lambda>s. c_assert (sw_client (st_surface s i) = None) s)] s)"

text \<open>The upstream objects of an output, in the order of their destruction.\<close>

definition output_objects :: "nat \<Rightarrow> swaylock_surface \<Rightarrow> effect list" where
  "output_objects i sf =
     map snd (filter fst
       [(sw_ext_session_lock_surface sf, Up (Destroy_lock_surface i)),
        (sw_fractional_scale sf, Up (Destroy_fractional_scale i)),
        (au_color_rep_surface (sw_surface sf), Surf (Background i) Destroy_color_representation),
        (au_color_surface (sw_surface sf), Surf (Background i) Destroy_color_surface),
        (au_viewport (sw_surface sf), Surf (Background i) Destroy_viewport),
        (sw_subsurface sf, Surf (Indicator i) Destroy_subsurface),
        (sw_child sf, Surf (Indicator i) Destroy_surface),
        (au_surface (sw_surface sf), Surf (Background i) Destroy_surface)])"

definition release_output :: "nat \<Rightarrow> swaylock_state \<Rightarrow> swaylock_state" where
  "release_output i s =
     (let sf = st_surface s i;
          drop_buffer = (\<lambda>k s. snd (destroy_buffer (Indicator_buffer i k) (sw_indicator_buffers sf ! k) s))
      in emit (Up (Release_output i)) (drop_buffer 1 (drop_buffer 0 (fold emit (output_objects i sf) s))))"

definition drop_frame_callback :: "nat \<Rightarrow> swaylock_state \<Rightarrow> swaylock_state" where
  "drop_frame_callback i s =
     (if sw_frame (st_surface s i) then emit (Surf (Background i) Destroy_frame_callback) s else s)"

definition drop_submission_timer :: "nat \<Rightarrow> swaylock_state \<Rightarrow> swaylock_state" where
  "drop_submission_timer i s =
     (case sw_client_submission_timer (st_surface s i) of None \<Rightarrow> s | Some t \<Rightarrow> remove_timer t s)"

definition destroy_surface :: "(nat list \<Rightarrow> nat list) \<Rightarrow> nat \<Rightarrow> swaylock_state \<Rightarrow> swaylock_state" where
  "destroy_surface by_id i s =
     run
       [drop_frame_callback i,
        (\<lambda>s. s\<lparr>st_surfaces := removeAll i (st_surfaces s)\<rparr>),
        close_plugin_surface i,
        drop_output_client by_id i,
        (\<lambda>s. if sw_nested_server_output (st_surface s i) then retire_output_objects i s else s),
        drop_submission_timer i,
        release_output i] s"

definition handle_global_remove :: "(nat list \<Rightarrow> nat list) \<Rightarrow> u32 \<Rightarrow> swaylock_state \<Rightarrow> swaylock_state" where
  "handle_global_remove by_id name s =
     (case find (\<lambda>i. sw_output_global_name (st_surface s i) = name) (st_surfaces s) of
        None \<Rightarrow> s
      | Some i \<Rightarrow> destroy_surface by_id i s)"

subsection \<open>The nested view of an output\<close>

text \<open>A removed global can still be bound by a client that has not heard of the removal.\<close>

definition bind_wl_output :: "nat \<Rightarrow> nat \<Rightarrow> swaylock_state \<Rightarrow> swaylock_state" where
  "bind_wl_output c i s =
     (if i \<notin> set (st_surfaces s) then halt_with Undefined s
      else
        let (r, s1) = new_resource c K_output s
        in emit (Down (Send_output_state r i))
             (on_surface i (\<lambda>sf. sf\<lparr>sw_wl_output_resources := r # sw_wl_output_resources sf\<rparr>)
               (set_user_data r (Some i) s1)))"

definition with_output :: "nat \<Rightarrow> (nat \<Rightarrow> swaylock_state \<Rightarrow> swaylock_state) \<Rightarrow> swaylock_state \<Rightarrow> swaylock_state" where
  "with_output r f s =
     (case fw_user_data (st_forward s) r of
        None \<Rightarrow> halt_with Undefined s
      | Some i \<Rightarrow> if i \<notin> set (st_surfaces s) then halt_with Undefined s else f i s)"

definition xdg_output_manager_get_xdg_output :: "nat \<Rightarrow> nat \<Rightarrow> swaylock_state \<Rightarrow> swaylock_state" where
  "xdg_output_manager_get_xdg_output c output =
     with_output output
       (\<lambda>i s. let (r, s1) = new_resource c K_xdg_output s; sf = st_surface s1 i
              in emit (Down (Send_xdg_size r (sw_width sf) (sw_height sf)))
                   (on_surface i (\<lambda>sf. sf\<lparr>sw_xdg_output_resources := r # sw_xdg_output_resources sf\<rparr>)
                     (set_user_data r (Some i) s1)))"

definition nested_color_get_output :: "nat \<Rightarrow> nat \<Rightarrow> swaylock_state \<Rightarrow> swaylock_state" where
  "nested_color_get_output c output =
     with_output output
       (\<lambda>i s. let (r, s1) = new_resource c K_color_output s
              in on_surface i (\<lambda>sf. sf\<lparr>sw_color_output_resources := r # sw_color_output_resources sf\<rparr>)
                   (set_user_data r (Some i) s1))"

definition nested_color_output_get_image_description :: "nat \<Rightarrow> nat \<Rightarrow> swaylock_state \<Rightarrow> swaylock_state" where
  "nested_color_output_get_image_description c r =
     with_output r
       (\<lambda>i. run [(\<lambda>s. c_assert (sw_output_desc (st_surface s i) = Desc_current) s), create_image_desc c True])"

end
