(* ===== verification/ForwardLife.thy ===== *)
theory ForwardLife
  imports ForwardObjects Commit
begin

section \<open>Life cycle of the forwarded objects\<close>

text \<open>
  Dangling pointers after destruction in an unlucky order, the tree of subsurfaces, the sharing
  of memory pools and the frame callbacks.
\<close>

subsection \<open>Dangling pointers\<close>

text \<open>A surface whose subsurface object no longer exists, or which is linked to the list heads of a parent that no
  longer exists.\<close>

definition dangling :: "nat \<Rightarrow> swaylock_state \<Rightarrow> bool" where
  "dangling p s \<longleftrightarrow>
     (\<exists>r. fs_subsurface (plugin_surface s p) = Some r \<and> \<not> alive s r) \<or>
     (\<exists>q. fs_subsurface_parent (plugin_surface s p) = Some q \<and> \<not> alive s q \<and>
          (beside_head p (pending s q) \<or> beside_head p (committed s q)))"

definition doomed :: "nat \<Rightarrow> swaylock_state \<Rightarrow> bool" where
  "doomed p s \<longleftrightarrow> st_halt s = Some Undefined \<or> st_halt s = None \<and> dangling p s"

lemma alive_view [simp]:
  "alive (emit e s) r = alive s r" "alive (halt_with h s) r = alive s r" "alive (c_assert c s) r = alive s r"
  "alive (on_plugin_surface p f s) r = alive s r" "alive (on_buffer b g s) r = alive s r"
  "alive (on_image_desc d k s) r = alive s r" "alive (on_pending p m s) r = alive s r"
  "alive (on_committed p m s) r = alive s r" "alive (on_surface i l s) r = alive s r"
  "alive (set_user_data t v s) r = alive s r"
  by (simp_all add: alive_def emit_def halt_with_def c_assert_def on_plugin_surface_def on_buffer_def on_image_desc_def
      on_pending_def on_committed_def on_surface_def on_forward_def set_user_data_def)

lemma set_user_data_view [simp]:
  "plugin_surface (set_user_data t v s) p = plugin_surface s p" "st_halt (set_user_data t v s) = st_halt s"
  by (simp_all add: set_user_data_def on_forward_def)

lemma run_halted: "st_halt s \<noteq> None \<Longrightarrow> run fs s = s"
  by (cases fs) (auto simp: run.simps)

lemma doomed_run:
  assumes "doomed p s" and "\<And>s f. f \<in> set fs \<Longrightarrow> st_halt s = None \<Longrightarrow> dangling p s \<Longrightarrow> doomed p (f s)"
  shows "doomed p (run fs s)"
  using assms by (induction fs arbitrary: s) (auto simp: run.simps doomed_def)

lemma unlink_desc_alive [simp]:
  "alive (unlink_committed_desc p d s) r = alive s r" "alive (unlink_pending_desc p d s) r = alive s r"
  "st_halt (unlink_pending_desc p d s) = st_halt s" "plugin_surface (unlink_pending_desc p d s) q = plugin_surface s q"
  by (simp_all add: unlink_committed_desc_def unlink_pending_desc_def delete_image_desc_if_unreferenced_def Let_def)

text \<open>The buffers a surface holds still have their resource.\<close>

definition holds_live_buffers :: "nat \<Rightarrow> swaylock_state \<Rightarrow> bool" where
  "holds_live_buffers p s \<longleftrightarrow>
     (\<forall>b. ss_attachment (pending s p) = Buffer b \<or> ss_attachment (committed s p) = Buffer b \<longrightarrow> fb_resource (plugin_buffer s b))"

lemma unlink_buffers_view:
  assumes "holds_live_buffers p s" "st_halt s = None"
  shows "st_halt (unlink_buffers p s) = None" "plugin_surface (unlink_buffers p s) q = plugin_surface s q"
    "alive (unlink_buffers p s) r = alive s r"
  using assms
  by (cases "ss_attachment (pending s p)"; cases "ss_attachment (committed s p)";
      simp add: unlink_buffers_def holds_live_buffers_def run.simps on_buffer_def on_forward_def alive_def)+

lemma unset_user_data_doomed:
  assumes "st_halt s = None" "dangling p s" shows "doomed p (unset_user_data v s)"
  using assms by (auto simp: unset_user_data_def doomed_def dangling_def split: option.split)

lemma desc_doomed:
  assumes "st_halt s = None" "dangling p s"
  shows "doomed p (case x of None \<Rightarrow> s | Some d \<Rightarrow> unlink_pending_desc q d s)"
    "doomed p (case x of None \<Rightarrow> s | Some d \<Rightarrow> unlink_committed_desc q d s)"
  using assms by (auto simp: doomed_def dangling_def split: option.split)

lemma destroy_parts_doomed:
  assumes "st_halt s = None" "fs_subsurface_parent (plugin_surface s p) = Some q" "\<not> alive s q"
    "beside_head p (pending s q) \<or> beside_head p (committed s q)"
  shows "st_halt (destroy_subsurface_parts p s) = Some Undefined"
  using assms by (auto simp: destroy_subsurface_parts_def run.simps unlink_subsurface_def)

lemma surface_destroy_dangling:
  assumes "holds_live_buffers p s" "st_halt s = None" "dangling p s"
  shows "st_halt (surface_handle_resource_destroy p s) = Some Undefined"
proof -
  let ?first = "(\<lambda>s. case fs_sway_surface (plugin_surface s p) of None \<Rightarrow> s
      | Some i \<Rightarrow> on_surface i (\<lambda>sf. sf\<lparr>sw_plugin_surface := None\<rparr>) s)"
  let ?descs = "[(\<lambda>s. case ss_image_desc (pending s p) of None \<Rightarrow> s | Some d \<Rightarrow> unlink_pending_desc p d s),
          (\<lambda>s. case ss_image_desc (committed s p) of None \<Rightarrow> s | Some d \<Rightarrow> unlink_committed_desc p d s),
          (\<lambda>s. unset_user_data (fs_viewport (plugin_surface s p)) s),
          (\<lambda>s. unset_user_data (fs_fractional_scale (plugin_surface s p)) s),
          (\<lambda>s. unset_user_data (fs_color_surface (plugin_surface s p)) s),
          (\<lambda>s. unset_user_data (fs_color_representation (plugin_surface s p)) s)]"
  let ?last = "[(\<lambda>s. unset_user_data (fs_subsurface (plugin_surface s p)) s), destroy_subsurface_parts p]"
  define s1 where "s1 = on_plugin_surface p (\<lambda>u. u\<lparr>fs_frame_callbacks := []\<rparr>) (?first s)"
  have s1: "holds_live_buffers p s1" "st_halt s1 = None" "dangling p s1"
    using assms by (auto simp: s1_def holds_live_buffers_def dangling_def on_plugin_surface_def on_forward_def on_surface_def
        alive_def split: option.split)
  define s2 where "s2 = unlink_buffers p s1"
  have s2: "st_halt s2 = None" "dangling p s2"
    using s1(3) by (simp_all add: s2_def dangling_def unlink_buffers_view [OF s1(1,2)])
  have app: "run (fs @ gs) x = run gs (run fs x)" for fs gs x
    by (induction fs arbitrary: x) (auto simp: run.simps run_halted)
  have "surface_handle_resource_destroy p s = run (?descs @ ?last) s2"
    using assms(2) s1(2) s2(1)
    by (simp add: surface_handle_resource_destroy_def run.simps s1_def s2_def split: option.split)
  moreover have "doomed p (run ?descs s2)"
    by (rule doomed_run) (use s2 in \<open>auto simp: doomed_def [of p s2] intro: unset_user_data_doomed desc_doomed\<close>)
  moreover have "st_halt (run ?last x) = Some Undefined" if "doomed p x" for x
  proof (cases "st_halt x = None")
    case True
    then have "dangling p x" using that by (simp add: doomed_def)
    show ?thesis
    proof (cases "st_halt (unset_user_data (fs_subsurface (plugin_surface x p)) x) = None")
      case live: True
      then have "\<not> (\<exists>r. fs_subsurface (plugin_surface x p) = Some r \<and> \<not> alive x r)" by (auto simp: unset_user_data_def split: if_splits)
      then obtain q where q: "fs_subsurface_parent (plugin_surface x p) = Some q" "\<not> alive x q"
          "beside_head p (pending x q) \<or> beside_head p (committed x q)"
        using \<open>dangling p x\<close> by (auto simp: dangling_def)
      define y where "y = unset_user_data (fs_subsurface (plugin_surface x p)) x"
      have "fs_subsurface_parent (plugin_surface y p) = Some q" "\<not> alive y q"
        "beside_head p (pending y q) \<or> beside_head p (committed y q)"
        using q by (auto simp: y_def unset_user_data_def split: option.split)
      then show ?thesis using True live by (simp add: run.simps y_def [symmetric] destroy_parts_doomed)
    next
      case False
      then have "st_halt (unset_user_data (fs_subsurface (plugin_surface x p)) x) = Some Undefined"
        using True by (cases "fs_subsurface (plugin_surface x p)") (auto simp: unset_user_data_def split: if_splits)
      then show ?thesis using True by (simp add: run.simps)
    qed
  next
    case False
    then show ?thesis using that by (auto simp: run.simps doomed_def)
  qed
  ultimately show ?thesis by (simp only: app)
qed

subsection \<open>Destruction in an unlucky order\<close>

text \<open>C27. Destroying a subsurface object and then its surface writes through a dangling pointer: after the subsurface object is
  gone the surface still points to it, and the destructor of the surface resets that object's user data.\<close>

theorem subsurface_then_surface_undefined:
  assumes "kind_of s r = Some K_subsurface" and "fw_user_data (st_forward s) r = Some p" and "alive s p" and "r \<noteq> p"
    and "fs_subsurface (plugin_surface s p) = Some r" and "fs_subsurface_parent (plugin_surface s p) = Some q"
    and "alive s q" and "q \<noteq> p" and "holds_live_buffers p s" and "st_halt s = None"
  shows "st_halt (surface_handle_resource_destroy p (wl_resource_destroy r s)) = Some Undefined"
proof -
  define s1 where "s1 = destroy_subsurface_parts p s"
  have s1: "st_halt s1 = None" "fs_subsurface (plugin_surface s1 p) = Some r" "pending s1 p = pending s p"
    "committed s1 p = committed s p" "fw_buffer (st_forward s1) = fw_buffer (st_forward s)"
    using assms(5-8,10)
    by (simp_all add: s1_def destroy_subsurface_parts_def unlink_subsurface_def run.simps)
       (simp_all add: on_committed_def on_pending_def on_plugin_surface_def on_forward_def)
  have s2: "wl_resource_destroy r s = remove_resource r s1"
    using assms(1-3,10) s1(1) by (simp add: wl_resource_destroy_def run.simps subsurface_handle_resource_destroy_def s1_def)
  show ?thesis unfolding s2
    by (rule surface_destroy_dangling)
       (use s1 assms(9) in \<open>auto simp: remove_resource_def on_forward_def holds_live_buffers_def dangling_def alive_def\<close>)
qed

text \<open>Destroying a parent surface before its subsurface does too: the child is still linked to the parent's
  lists and unlinks itself from them when it is destroyed, which writes to the freed parent whenever the child
  is the outermost or innermost of its siblings.  This is the order in which a client that exits loses
  its objects when it created the parent first.\<close>

theorem parent_then_child_undefined:
  assumes "fs_subsurface_parent (plugin_surface (wl_resource_destroy q s) p) = Some q"
    and "kind_of s q = Some K_surface" and "beside_head p (pending (wl_resource_destroy q s) q)"
    and "holds_live_buffers p (wl_resource_destroy q s)" and "st_halt (wl_resource_destroy q s) = None"
  shows "st_halt (surface_handle_resource_destroy p (wl_resource_destroy q s)) = Some Undefined"
proof (rule surface_destroy_dangling [OF assms(4,5)])
  have run: "wl_resource_destroy q s = run [surface_handle_resource_destroy q, remove_resource q] s"
    using assms(2) by (simp add: wl_resource_destroy_def)
  have "wl_resource_destroy q s = remove_resource q (surface_handle_resource_destroy q s)"
    using run_all [OF assms(5) [unfolded run]] by (simp add: run)
  then have "\<not> alive (wl_resource_destroy q s) q" by (auto simp: remove_resource_def on_forward_def alive_def)
  then show "dangling p (wl_resource_destroy q s)" using assms(1,3) by (auto simp: dangling_def)
qed


subsection \<open>The tree of subsurfaces\<close>

definition parents :: "swaylock_state \<Rightarrow> (nat \<times> nat) set" where
  "parents s = {(q, p). fs_subsurface_parent (plugin_surface s p) = Some q}"

text \<open>\<open>tree_ok\<close>: the parents form a finite forest of live surfaces.\<close>

definition tree_ok :: "swaylock_state \<Rightarrow> bool" where
  "tree_ok s \<longleftrightarrow> finite (parents s) \<and> acyclic (parents s) \<and> (\<forall>(q, p) \<in> parents s. alive s q)"

declare ancestor_of.simps [simp del]

lemma ancestor_of_root:
  assumes "tree_ok s"
  shows "\<exists>a. ancestor_of s p = Some a \<and> (a, p) \<in> (parents s)\<^sup>* \<and> fs_subsurface_parent (plugin_surface s a) = None"
proof -
  have "wf (parents s)" using assms by (simp add: tree_ok_def finite_acyclic_wf)
  then show ?thesis
  proof (induction p rule: wf_induct_rule)
    case (less p)
    show ?case
    proof (cases "fs_subsurface_parent (plugin_surface s p)")
      case None
      then show ?thesis by (auto simp: ancestor_of.simps [of s p])
    next
      case (Some q)
      then have qp: "(q, p) \<in> parents s" by (simp add: parents_def)
      then have "alive s q" using assms by (auto simp: tree_ok_def)
      then show ?thesis using less [OF qp] Some qp
        by (auto simp: ancestor_of.simps [of s p] intro: rtrancl.rtrancl_into_rtrancl)
    qed
  qed
qed

lemma root_is_above:
  assumes "(c, p) \<in> (parents s)\<^sup>*" "(a, p) \<in> (parents s)\<^sup>*"
    and "fs_subsurface_parent (plugin_surface s a) = None" "fs_subsurface_parent (plugin_surface s c) = None"
  shows "c = a"
proof -
  have one: "q = q'" if "(q, p) \<in> parents s" "(q', p) \<in> parents s" for q q' p
    using that by (simp add: parents_def)
  have top: "x = y" if "(x, y) \<in> (parents s)\<^sup>*" "fs_subsurface_parent (plugin_surface s y) = None" for x y
    using that by (cases rule: rtrancl.cases) (auto simp: parents_def)
  have "(c, a) \<in> (parents s)\<^sup>* \<or> (a, c) \<in> (parents s)\<^sup>*"
    using assms(1,2)
  proof (induction p arbitrary: rule: rtrancl_induct)
    case base
    then show ?case by simp
  next
    case (step q p)
    show ?case
    proof (cases "a = p")
      case True
      then show ?thesis using step.hyps by (meson rtrancl.rtrancl_into_rtrancl)
    next
      case False
      then obtain q' where "(a, q') \<in> (parents s)\<^sup>*" "(q', p) \<in> parents s"
        using step.prems by (meson rtranclE)
      then show ?thesis using one [OF step.hyps(2)] step.IH by blast
    qed
  qed
  then show ?thesis using top assms(3,4) by blast
qed

text \<open>C18. Subsurfaces stay a forest, and the search for the topmost ancestor ends: in a forest of live surfaces the
  search of \<open>get_subsurface\<close> returns the root above the parent, a request that would close a cycle is
  answered with an error and changes no parent, and after any request the parents are a forest again.\<close>

theorem get_subsurface_keeps_forest:
  assumes "tree_ok s" and "alive s parent"
  shows "(\<exists>a. ancestor_of s parent = Some a \<and> (a, parent) \<in> (parents s)\<^sup>* \<and>
      fs_subsurface_parent (plugin_surface s a) = None) \<and>
    ((child, parent) \<in> (parents s)\<^sup>* \<longrightarrow> parents (subcompositor_get_subsurface c r child parent s) = parents s) \<and>
    tree_ok (subcompositor_get_subsurface c r child parent s)"
proof -
  let ?s = "subcompositor_get_subsurface c r child parent s"
  obtain a where a: "ancestor_of s parent = Some a" "(a, parent) \<in> (parents s)\<^sup>*"
      "fs_subsurface_parent (plugin_surface s a) = None" using ancestor_of_root [OF assms(1)] by blast
  have same: "parents ?s = parents s \<and> tree_ok ?s"
    if "fs_layer_surface (plugin_surface s child) \<noteq> None \<or> fs_subsurface_parent (plugin_surface s child) \<noteq> None \<or> a = child"
    using that assms(1) a(1) by (auto simp: subcompositor_get_subsurface_def parents_def tree_ok_def)
  have new: "tree_ok ?s \<and> (child, parent) \<notin> (parents s)\<^sup>*"
    if "fs_layer_surface (plugin_surface s child) = None" "fs_subsurface_parent (plugin_surface s child) = None" "a \<noteq> child"
  proof
    show above: "(child, parent) \<notin> (parents s)\<^sup>*" using root_is_above [OF _ a(2,3) that(2)] that(3) by blast
    have p: "parents ?s = insert (parent, child) (parents s)"
      using that a(1)
      by (auto simp: subcompositor_get_subsurface_def parents_def Let_def new_resource_def)
         (auto simp: on_forward_def)
    have al: "alive ?s q" if "alive s q" for q
      using that \<open>a \<noteq> child\<close> a(1) \<open>fs_layer_surface (plugin_surface s child) = None\<close> \<open>fs_subsurface_parent (plugin_surface s child) = None\<close>
      by (simp add: subcompositor_get_subsurface_def Let_def new_resource_def) (simp add: alive_def on_forward_def emit_def)
    show "tree_ok ?s" using assms al above p by (auto simp: tree_ok_def acyclic_insert)
  qed
  from same new a show ?thesis by blast
qed

subsection \<open>Concrete trees\<close>

text \<open>A surface with a subsurface.\<close>

definition example_tree :: "swaylock_state" where
  "example_tree = subcompositor_get_subsurface 0 9 1 0 (compositor_create_surface 0 4 (compositor_create_surface 0 4
     (initial_state quiet_world [] default_args)))"

lemma example_tree_view: "kind_of example_tree 2 = Some K_subsurface \<and> fw_user_data (st_forward example_tree) 2 = Some 1 \<and> alive example_tree 1
   \<and> alive example_tree 0 \<and> kind_of example_tree 0 = Some K_surface \<and>
   st_halt example_tree = None \<and> fs_subsurface (plugin_surface example_tree 1) = Some 2 \<and> fs_subsurface_parent (plugin_surface example_tree 1) = Some 0
   \<and> ss_attachment (pending example_tree 1) = No_buffer \<and> ss_attachment (committed example_tree 1) = No_buffer"
  by code_simp

lemma subsurface_then_surface_undefined_witness:
  "st_halt (surface_handle_resource_destroy 1 (wl_resource_destroy 2 example_tree)) = Some Undefined"
  by (rule subsurface_then_surface_undefined [of _ _ _ 0]) (use example_tree_view in \<open>simp_all add: holds_live_buffers_def\<close>)

lemma example_orphan_view: "let s = wl_resource_destroy 0 example_tree in st_halt s = None \<and> fs_subsurface_parent (plugin_surface s 1) = Some 0 \<and> beside_head 1 (pending s 0)
   \<and> ss_attachment (pending s 1) = No_buffer \<and> ss_attachment (committed s 1) = No_buffer"
  by code_simp

lemma parent_then_child_undefined_witness:
  "st_halt (surface_handle_resource_destroy 1 (wl_resource_destroy 0 example_tree)) = Some Undefined"
  by (rule parent_then_child_undefined) (use example_tree_view example_orphan_view in \<open>simp_all add: holds_live_buffers_def Let_def\<close>)

definition two_surfaces :: swaylock_state where
  "two_surfaces = compositor_create_surface 0 4 (compositor_create_surface 0 4 (initial_state quiet_world [] default_args))"

lemma two_surfaces_ok: "tree_ok two_surfaces"
proof -
  have "parents two_surfaces = {}" by (auto simp: parents_def two_surfaces_def compositor_create_surface_def new_resource_def on_plugin_surface_def on_forward_def
     initial_state_def zero_forward_def new_forward_surface_def split: if_splits)
  then show ?thesis by (simp add: tree_ok_def acyclic_def)
qed

lemma get_subsurface_keeps_forest_witness:
  "tree_ok (subcompositor_get_subsurface 0 9 1 0 two_surfaces)"
  by (rule get_subsurface_keeps_forest [of two_surfaces 0, THEN conjunct2, THEN conjunct2])
     (rule two_surfaces_ok, code_simp)

subsection \<open>Buffers that the compositor makes later\<close>

text \<open>A buffer made on the plugin's request has the requested size and belongs to the plugin, which is told its number.\<close>

lemma requested_buffer_arrives:
  "let s' = handle_dmabuf_params_created c r (nested_dmabuf_params_create r width height format flags s); b = fw_next (st_forward s)
   in fb_width (plugin_buffer s' b) = word_of_int width \<and> fb_height (plugin_buffer s' b) = word_of_int height \<and>
      fb_resource (plugin_buffer s' b) \<and> \<lparr>rs_id = b, rs_client = c, rs_kind = K_buffer\<rparr> \<in> set (fw_resources (st_forward s')) \<and>
      st_trace s' = st_trace s @ [Up (Request_buffer r width height format flags), Down (Send_params_created r b)]"
  by (simp add: handle_dmabuf_params_created_def nested_dmabuf_params_create_def make_buffer_def new_resource_def on_buffer_def
      on_forward_def emit_def Let_def)

text \<open>Nothing keeps a plugin from using its parameters twice: both requests go upstream, where the protocol forbids the second, and the
  size kept for the first buffer is lost.\<close>

lemma parameters_used_twice:
  "let s' = nested_dmabuf_params_create r w2 h2 format flags (nested_dmabuf_params_create r w1 h1 format flags s)
   in st_trace s' = st_trace s @ [Up (Request_buffer r w1 h1 format flags), Up (Request_buffer r w2 h2 format flags)] \<and>
      fw_params (st_forward s') r = (w2, h2)"
  by (simp add: nested_dmabuf_params_create_def on_forward_def emit_def Let_def)

end
