(* ===== verification/ShmPools.thy ===== *)
theory ShmPools
  imports ForwardLife
begin

text \<open>Sharing of shared memory pools (\<open>src/forward.c\<close>): several pools that plugin clients make of one file stand for one
  pool of the upstream compositor, counted and freed with its last user.\<close>

text \<open>The nested pools that share an upstream pool.\<close>

definition pool_user :: "swaylock_state \<Rightarrow> nat \<Rightarrow> wl_resource \<Rightarrow> bool" where
  "pool_user s e x \<longleftrightarrow> rs_kind x = K_shm_pool \<and> fw_user_data (st_forward s) (rs_id x) = Some e"

definition pool_users :: "swaylock_state \<Rightarrow> nat \<Rightarrow> nat" where
  "pool_users s e = length (filter (pool_user s e) (fw_resources (st_forward s)))"

text \<open>\<open>pools_ok\<close>: numbers are fresh, every nested pool has an upstream pool, the count of an upstream pool
  is the number of its users, the shared ones are in use, and no two of them stand for the same file.\<close>

definition pools_ok :: "swaylock_state \<Rightarrow> bool" where
  "pools_ok s \<longleftrightarrow>
     (let w = st_forward s in
      distinct (map rs_id (fw_resources w)) \<and> (\<forall>x \<in> set (fw_resources w). rs_id x < fw_next w) \<and>
      (\<forall>x \<in> set (fw_resources w). rs_kind x = K_shm_pool \<longrightarrow> fw_user_data w (rs_id x) \<noteq> None) \<and>
      (\<forall>e. pool_refcount (fw_pool w e) = int (pool_users s e)) \<and>
      (\<forall>e. e \<ge> fw_next w \<longrightarrow> pool_users s e = 0) \<and>
      (\<forall>e \<in> set (fw_shm_pools w). 0 < pool_users s e \<and> pool_identity (fw_pool w e) \<noteq> None) \<and>
      (\<forall>e \<in> set (fw_shm_pools w). \<forall>e' \<in> set (fw_shm_pools w).
         pool_identity (fw_pool w e) = pool_identity (fw_pool w e') \<longrightarrow> e = e'))"

datatype pool_call = Create nat "(nat \<times> nat) option" int | Resize nat int | Destroy nat

fun do_pool_call :: "pool_call \<Rightarrow> swaylock_state \<Rightarrow> swaylock_state" where
  "do_pool_call (Create c identity sz) s = shm_create_pool c identity sz s"
| "do_pool_call (Resize r sz) s = nested_shm_pool_resize r sz s"
| "do_pool_call (Destroy r) s = (if kind_of s r = Some K_shm_pool then wl_resource_destroy r s else s)"

lemma pool_users_cong:
  assumes "fw_resources (st_forward s') = fw_resources (st_forward s)" "fw_user_data (st_forward s') = fw_user_data (st_forward s)"
  shows "pool_users s' e = pool_users s e"
  using assms by (simp add: pool_users_def pool_user_def [abs_def])

lemma grow_pool_view:
  "fw_resources (st_forward (grow_pool e sz s)) = fw_resources (st_forward s)"
  "fw_user_data (st_forward (grow_pool e sz s)) = fw_user_data (st_forward s)"
  "fw_next (st_forward (grow_pool e sz s)) = fw_next (st_forward s)"
  "fw_shm_pools (st_forward (grow_pool e sz s)) = fw_shm_pools (st_forward s)"
  "pool_refcount (shm_pool (grow_pool e sz s) k) = pool_refcount (shm_pool s k)"
  "pool_identity (shm_pool (grow_pool e sz s) k) = pool_identity (shm_pool s k)"
  by (auto simp: grow_pool_def on_pool_def on_forward_def emit_def)

lemma pools_ok_resize: "pools_ok s \<Longrightarrow> pools_ok (nested_shm_pool_resize r sz s)"
proof (cases "fw_user_data (st_forward s) r")
  case (Some e)
  assume ok: "pools_ok s"
  have "pool_users (grow_pool e sz s) k = pool_users s k" for k by (rule pool_users_cong) (simp_all add: grow_pool_view)
  then show ?thesis using ok by (simp add: nested_shm_pool_resize_def Some pools_ok_def Let_def grow_pool_view)
next
  case None
  assume ok: "pools_ok s"
  have "pool_users (halt_with Undefined s) k = pool_users s k" for k by (rule pool_users_cong) simp_all
  then show ?thesis using ok by (simp add: nested_shm_pool_resize_def None pools_ok_def)
qed

text \<open>A new user of a pool.\<close>

lemma pool_users_new:
  assumes "fw_resources (st_forward s') = fw_resources (st_forward s) @ [\<lparr>rs_id = r, rs_client = c, rs_kind = K_shm_pool\<rparr>]"
    and "fw_user_data (st_forward s') = (fw_user_data (st_forward s))(r := Some e)"
    and "\<forall>x \<in> set (fw_resources (st_forward s)). rs_id x \<noteq> r"
  shows "pool_users s' k = pool_users s k + (if k = e then 1 else 0)"
proof -
  have "filter (pool_user s' k) (fw_resources (st_forward s)) = filter (pool_user s k) (fw_resources (st_forward s))"
    using assms(2,3) by (intro filter_cong) (auto simp: pool_user_def)
  then show ?thesis using assms(1,2) by (simp add: pool_users_def) (simp add: pool_user_def)
qed

lemma pools_ok_create:
  assumes ok: "pools_ok s"
  shows "pools_ok (shm_create_pool c identity sz s)"
proof -
  define r where "r = fw_next (st_forward s)"
  define s1 where "s1 = snd (new_resource c K_shm_pool s)"
  have s1: "new_resource c K_shm_pool s = (r, s1)" by (simp add: r_def s1_def new_resource_def Let_def)
  have w1: "st_forward s1 = (st_forward s)\<lparr>fw_resources := fw_resources (st_forward s) @
      [\<lparr>rs_id = r, rs_client = c, rs_kind = K_shm_pool\<rparr>], fw_next := Suc r\<rparr>"
    by (simp add: s1_def new_resource_def on_forward_def r_def Let_def)
  have fresh: "\<forall>x \<in> set (fw_resources (st_forward s)). rs_id x \<noteq> r" using ok by (auto simp: pools_ok_def r_def Let_def)
  show ?thesis
  proof (cases "if identity = None then None
            else find (\<lambda>e. pool_identity (shm_pool s1 e) = identity) (fw_shm_pools (st_forward s1))")
    case (Some e)
    then have e: "e \<in> set (fw_shm_pools (st_forward s))" by (auto simp: find_Some_iff w1 split: if_splits)
    define s' where "s' = set_user_data r (Some e) (on_pool e (\<lambda>q. q\<lparr>pool_refcount := pool_refcount q + 1\<rparr>) (grow_pool e sz s1))"
    have eq: "shm_create_pool c identity sz s = s'" using Some by (simp add: shm_create_pool_def s1 Let_def s'_def)
    have v: "fw_resources (st_forward s') = fw_resources (st_forward s) @ [\<lparr>rs_id = r, rs_client = c, rs_kind = K_shm_pool\<rparr>]"
      "fw_user_data (st_forward s') = (fw_user_data (st_forward s))(r := Some e)" "fw_next (st_forward s') = Suc r"
      "fw_shm_pools (st_forward s') = fw_shm_pools (st_forward s)"
      "pool_refcount (shm_pool s' k) = pool_refcount (shm_pool s k) + (if k = e then 1 else 0)"
      "pool_identity (shm_pool s' k) = pool_identity (shm_pool s k)" for k
      by (simp_all add: s'_def set_user_data_def on_pool_def on_forward_def grow_pool_view w1)
    note u = pool_users_new [OF v(1,2) fresh]
    have "0 < pool_users s e" using ok e by (simp add: pools_ok_def Let_def)
    moreover have "pool_users s k = 0" if "fw_next (st_forward s) \<le> k" for k using ok that by (simp add: pools_ok_def Let_def)
    ultimately have lt: "e < fw_next (st_forward s)" by (metis not_less less_not_refl)
    have conv: "pools_ok s'" using ok e fresh lt unfolding pools_ok_def Let_def v u r_def
      by (simp add: less_Suc_eq image_iff) metis
    show ?thesis unfolding eq by (rule conv)
  next
    case None
    define e where "e = Suc r"
    let ?s = "shm_create_pool c identity sz s"
    have v: "fw_resources (st_forward ?s) = fw_resources (st_forward s) @ [\<lparr>rs_id = r, rs_client = c, rs_kind = K_shm_pool\<rparr>]"
      "fw_user_data (st_forward ?s) = (fw_user_data (st_forward s))(r := Some e)" "fw_next (st_forward ?s) = Suc e"
      "fw_shm_pools (st_forward ?s) = (if identity = None then fw_shm_pools (st_forward s) else e # fw_shm_pools (st_forward s))"
      "fw_pool (st_forward ?s) = (fw_pool (st_forward s))(e := \<lparr>pool_identity = identity, pool_size = sz, pool_refcount = 1\<rparr>)"
      using None by (simp_all add: shm_create_pool_def s1 Let_def set_user_data_def on_forward_def emit_def w1 e_def)
    note u = pool_users_new [OF v(1,2) fresh]
    have e0: "pool_users s e = 0" using ok by (auto simp: pools_ok_def Let_def e_def r_def)
    then have eni: "e \<notin> set (fw_shm_pools (st_forward s))" using ok by (auto simp: pools_ok_def Let_def)
    have new: "pool_identity (shm_pool s k) \<noteq> identity" if "k \<in> set (fw_shm_pools (st_forward s))" "identity \<noteq> None" for k
      using None that by (auto simp: find_None_iff w1)
    show ?thesis using ok fresh e0 eni new
      by (auto simp: pools_ok_def Let_def v u r_def e_def less_Suc_eq)
  qed
qed

lemma kind_of_in:
  assumes "kind_of s r = Some k" shows "\<exists>x \<in> set (fw_resources (st_forward s)). rs_id x = r \<and> rs_kind x = k"
  using assms by (auto simp: kind_of_def find_Some_iff)

lemma filter_remove_one:
  assumes "distinct (map f xs)" "x \<in> set xs"
  shows "length (filter P (filter (\<lambda>y. f y \<noteq> f x) xs)) = length (filter P xs) - (if P x then 1 else 0)"
  using assms
proof (induction xs)
  case (Cons y ys)
  show ?case
  proof (cases "y = x")
    case True
    then have "\<forall>z \<in> set ys. f z \<noteq> f x" using Cons.prems(1) by (metis distinct.simps(2) image_eqI list.set_map list.simps(9))
    then have "filter (\<lambda>y. f y \<noteq> f x) ys = ys" by (simp add: filter_id_conv)
    then show ?thesis using True by simp
  next
    case False
    then have x: "x \<in> set ys" "f y \<noteq> f x" using Cons.prems by auto
    then have "0 < length (filter P ys)" if "P x" using that by (auto simp: filter_empty_conv)
    then show ?thesis using Cons x False by (auto simp: Suc_diff_le)
  qed
qed simp

lemma pools_ok_destroy:
  assumes ok: "pools_ok s" and kind: "kind_of s r = Some K_shm_pool" and halt: "st_halt s = None"
  shows "pools_ok (wl_resource_destroy r s)"
proof -
  obtain x where x: "x \<in> set (fw_resources (st_forward s))" "rs_id x = r" "rs_kind x = K_shm_pool"
    using kind_of_in [OF kind] by auto
  obtain e where e: "fw_user_data (st_forward s) r = Some e" using ok x by (auto simp: pools_ok_def Let_def)
  define s1 where "s1 = shm_pool_handle_resource_destroy r s"
  define n where "n = pool_refcount (shm_pool s e) - 1"
  have s1: "st_halt s1 = None" "fw_resources (st_forward s1) = fw_resources (st_forward s)"
    "fw_user_data (st_forward s1) = fw_user_data (st_forward s)" "fw_next (st_forward s1) = fw_next (st_forward s)"
    "fw_pool (st_forward s1) = (fw_pool (st_forward s))(e := (shm_pool s e)\<lparr>pool_refcount := n\<rparr>)"
    "fw_shm_pools (st_forward s1) = (if n > 0 then fw_shm_pools (st_forward s) else removeAll e (fw_shm_pools (st_forward s)))"
    using halt by (simp_all add: s1_def shm_pool_handle_resource_destroy_def e Let_def on_pool_def on_forward_def emit_def n_def)
  define s' where "s' = remove_resource r s1"
  have eq: "wl_resource_destroy r s = s'"
    using halt s1(1) by (simp add: wl_resource_destroy_def kind run.simps s1_def s'_def)
  have s': "fw_resources (st_forward s') = filter (\<lambda>y. rs_id y \<noteq> rs_id x) (fw_resources (st_forward s))"
    "fw_user_data (st_forward s') = fw_user_data (st_forward s)" "fw_next (st_forward s') = fw_next (st_forward s)"
    "fw_pool (st_forward s') = fw_pool (st_forward s1)" "fw_shm_pools (st_forward s') = fw_shm_pools (st_forward s1)"
    by (simp_all add: s'_def remove_resource_def on_forward_def s1 x(2))
  have dist: "distinct (map rs_id (fw_resources (st_forward s)))" using ok by (simp add: pools_ok_def Let_def)
  have mine: "pool_user s k x \<longleftrightarrow> k = e" for k using x e by (auto simp: pool_user_def)
  have "pool_user s' = pool_user s" by (simp add: pool_user_def [abs_def] s')
  then have u: "pool_users s' k = pool_users s k - (if k = e then 1 else 0)" for k
    using filter_remove_one [OF dist x(1), of "pool_user s k"] mine [of k] by (simp add: pool_users_def s')
  have "0 < pool_users s e" using x(1) mine by (auto simp: pool_users_def filter_empty_conv)
  moreover have rc: "pool_refcount (shm_pool s k) = int (pool_users s k)" for k using ok by (simp add: pools_ok_def Let_def)
  ultimately have n: "0 < n \<longleftrightarrow> 1 < pool_users s e" "n = int (pool_users s' e)" using u [of e] by (auto simp: n_def)
  have shared: "k \<in> set (fw_shm_pools (st_forward s))" "k = e \<Longrightarrow> 1 < pool_users s e"
    if "k \<in> set (fw_shm_pools (st_forward s'))" for k using that by (auto simp: s' s1(6) n(1) split: if_splits)
  have id: "pool_identity (shm_pool s' k) = pool_identity (shm_pool s k)" for k by (simp add: s' s1(5))
  have "pool_refcount (shm_pool s' k) = int (pool_users s' k)" for k
    using rc [of k] u [of k] n(2) by (cases "k = e") (simp_all add: s' s1(5))
  moreover have "distinct (map rs_id (fw_resources (st_forward s')))" using dist by (simp add: s' distinct_map_filter)
  moreover have "\<forall>y \<in> set (fw_resources (st_forward s')). rs_id y < fw_next (st_forward s')"
    "\<forall>y \<in> set (fw_resources (st_forward s')). rs_kind y = K_shm_pool \<longrightarrow> fw_user_data (st_forward s') (rs_id y) \<noteq> None"
    "\<forall>k. k \<ge> fw_next (st_forward s') \<longrightarrow> pool_users s' k = 0"
    using ok u by (simp_all add: pools_ok_def Let_def s')
  moreover have "0 < pool_users s' k \<and> pool_identity (shm_pool s' k) \<noteq> None" if "k \<in> set (fw_shm_pools (st_forward s'))" for k
    using shared [OF that] ok u [of k] by (auto simp: pools_ok_def Let_def id)
  moreover have "k = k'" if "k \<in> set (fw_shm_pools (st_forward s'))" "k' \<in> set (fw_shm_pools (st_forward s'))"
      "pool_identity (shm_pool s' k) = pool_identity (shm_pool s' k')" for k k'
    using shared(1) [OF that(1)] shared(1) [OF that(2)] that(3) ok unfolding id by (auto simp: pools_ok_def Let_def)
  ultimately show ?thesis unfolding eq pools_ok_def Let_def by blast
qed

lemma pools_ok_call:
  assumes "pools_ok s" "st_halt s = None" shows "pools_ok (do_pool_call call s)"
  using assms pools_ok_create pools_ok_resize pools_ok_destroy by (cases call) auto



end
