(* ===== verification/Requests.thy ===== *)
theory Requests
  imports Outputs ShmPools
begin

section \<open>What a plugin client can ask for\<close>

text \<open>
  The requests of a plugin client as one type, and their dispatch to the handlers.  The library looks objects up among those of
  the client and checks their interfaces; a request on anything else never reaches a handler.
\<close>

datatype client_request =
    Bind_output nat
  | Create_wl_surface int
  | Attach_buffer nat "nat option" int int
  | Damage_surface nat int int int int
  | Damage_surface_buffer nat int int int int
  | Frame nat
  | Set_transform nat int
  | Set_scale nat int
  | Commit_surface nat
  | Get_wl_subsurface nat nat nat
  | Set_position nat int int
  | Set_sync nat
  | Set_desync nat
  | Place_subsurface_above nat nat
  | Place_subsurface_below nat nat
  | Create_shm_pool "(nat \<times> nat) option" int
  | Resize_shm_pool nat int
  | Create_pool_buffer nat int int
  | Create_dmabuf_params
  | Add_dmabuf_plane nat int u32 u32 u32 u32 u32
  | Create_dmabuf nat int int u32 u32
  | Create_dmabuf_immed nat int int
  | Create_region
  | Create_data_source
  | Get_data_device
  | Get_viewport nat nat
  | Set_source nat int int int int
  | Set_destination nat int int
  | Get_fractional_scale nat nat
  | Get_color_surface nat nat
  | Set_image_desc nat nat u32
  | Unset_image_desc nat
  | Destroy_color_surface nat
  | Create_image_desc
  | Get_color_output nat
  | Get_output_image_desc nat
  | Get_color_representation nat nat
  | Set_alpha nat u32
  | Set_coefficients nat u32 u32
  | Set_chroma nat u32
  | Get_xdg_output nat
  | Get_layer_surface nat "nat option"
  | Ack nat u32
  | Destroy_object nat

definition owns :: "swaylock_state \<Rightarrow> nat \<Rightarrow> nat \<Rightarrow> resource_kind \<Rightarrow> bool" where
  "owns s c r k \<longleftrightarrow> \<lparr>rs_id = r, rs_client = c, rs_kind = k\<rparr> \<in> set (fw_resources (st_forward s))"

definition on_object ::
  "nat \<Rightarrow> nat \<Rightarrow> resource_kind \<Rightarrow> (swaylock_state \<Rightarrow> swaylock_state) \<Rightarrow> swaylock_state \<Rightarrow> swaylock_state" where
  "on_object c r k f s = (if owns s c r k then f s else s)"

text \<open>The kinds whose destroy request destroys the object; that of a layer surface does nothing, and that of a colour
  surface is a request of its own.\<close>

definition destroyable :: "resource_kind \<Rightarrow> bool" where
  "destroyable k \<longleftrightarrow> k \<notin> {K_layer_surface, K_color_surface, K_callback}"

fun handle_request :: "nat \<Rightarrow> client_request \<Rightarrow> swaylock_state \<Rightarrow> swaylock_state" where
  "handle_request c (Bind_output i) s = (if global_filter s c (Some i) then bind_wl_output c i s else s)"
| "handle_request c (Create_wl_surface v) s = compositor_create_surface c v s"
| "handle_request c (Attach_buffer p None x y) s = on_object c p K_surface (nested_surface_attach p None x y) s"
| "handle_request c (Attach_buffer p (Some b) x y) s =
     on_object c p K_surface (on_object c b K_buffer (nested_surface_attach p (Some b) x y)) s"
| "handle_request c (Damage_surface p x y w h) s = on_object c p K_surface (nested_surface_damage p x y w h) s"
| "handle_request c (Damage_surface_buffer p x y w h) s = on_object c p K_surface (nested_surface_damage_buffer p x y w h) s"
| "handle_request c (Frame p) s = on_object c p K_surface (nested_surface_frame c p) s"
| "handle_request c (Set_transform p t) s = on_object c p K_surface (nested_surface_set_buffer_transform p t) s"
| "handle_request c (Set_scale p v) s = on_object c p K_surface (nested_surface_set_buffer_scale p v) s"
| "handle_request c (Commit_surface p) s = on_object c p K_surface (nested_surface_commit p) s"
| "handle_request c (Get_wl_subsurface resource p q) s =
     on_object c p K_surface (on_object c q K_surface (subcompositor_get_subsurface c resource p q)) s"
| "handle_request c (Set_position r x y) s = on_object c r K_subsurface (nested_subsurface_set_position r x y) s"
| "handle_request c (Set_sync r) s = on_object c r K_subsurface (nested_subsurface_set_sync r) s"
| "handle_request c (Set_desync r) s = on_object c r K_subsurface (nested_subsurface_set_desync r) s"
| "handle_request c (Place_subsurface_above r p) s =
     on_object c r K_subsurface (on_object c p K_surface (nested_subsurface_place_above r p)) s"
| "handle_request c (Place_subsurface_below r p) s =
     on_object c r K_subsurface (on_object c p K_surface (nested_subsurface_place_below r p)) s"
| "handle_request c (Create_shm_pool identity sz) s = shm_create_pool c identity sz s"
| "handle_request c (Resize_shm_pool r sz) s = on_object c r K_shm_pool (nested_shm_pool_resize r sz) s"
| "handle_request c (Create_pool_buffer r w h) s = on_object c r K_shm_pool (nested_shm_pool_create_buffer c r w h) s"
| "handle_request c Create_dmabuf_params s = nested_linux_dmabuf_create_params c s"
| "handle_request c (Add_dmabuf_plane r fd plane off stride hi lo) s =
     on_object c r K_dmabuf_params (nested_dmabuf_params_add r fd plane off stride hi lo) s"
| "handle_request c (Create_dmabuf r w h fmt fl) s = on_object c r K_dmabuf_params (nested_dmabuf_params_create r w h fmt fl) s"
| "handle_request c (Create_dmabuf_immed r w h) s = on_object c r K_dmabuf_params (nested_dmabuf_params_create_immed c w h) s"
| "handle_request c Create_region s = compositor_create_region c s"
| "handle_request c Create_data_source s = nested_ddm_create_data_source c s"
| "handle_request c Get_data_device s = nested_ddm_get_data_device c s"
| "handle_request c (Get_viewport resource p) s = on_object c p K_surface (nested_viewporter_get_viewport c resource p) s"
| "handle_request c (Set_source r x y w h) s = on_object c r K_viewport (nested_viewport_set_source r x y w h) s"
| "handle_request c (Set_destination r w h) s = on_object c r K_viewport (nested_viewport_set_destination r w h) s"
| "handle_request c (Get_fractional_scale resource p) s = on_object c p K_surface (nested_get_fractional_scale c resource p) s"
| "handle_request c (Get_color_surface resource p) s = on_object c p K_surface (nested_color_get_surface c resource p) s"
| "handle_request c (Set_image_desc r d intent) s =
     on_object c r K_color_surface (on_object c d K_image_desc (nested_color_surface_set_image_desc r d intent)) s"
| "handle_request c (Unset_image_desc r) s = on_object c r K_color_surface (nested_color_surface_unset_image_desc r) s"
| "handle_request c (Destroy_color_surface r) s = on_object c r K_color_surface (nested_color_surface_destroy r) s"
| "handle_request c Create_image_desc s = create_image_desc c False s"
| "handle_request c (Get_color_output r) s = on_object c r K_output (nested_color_get_output c r) s"
| "handle_request c (Get_output_image_desc r) s = on_object c r K_color_output (nested_color_output_get_image_description c r) s"
| "handle_request c (Get_color_representation resource p) s = on_object c p K_surface (nested_color_rep_get_surface c resource p) s"
| "handle_request c (Set_alpha r v) s = on_object c r K_color_representation (nested_color_rep_surface_set_alpha_mode r v) s"
| "handle_request c (Set_coefficients r v w) s =
     on_object c r K_color_representation (nested_color_rep_surface_set_coefficients_and_range r v w) s"
| "handle_request c (Set_chroma r v) s =
     on_object c r K_color_representation (nested_color_rep_surface_set_chroma_location r v) s"
| "handle_request c (Get_xdg_output r) s = on_object c r K_output (xdg_output_manager_get_xdg_output c r) s"
| "handle_request c (Get_layer_surface p None) s = on_object c p K_surface (wlr_layer_shell_get_layer_surface c p None) s"
| "handle_request c (Get_layer_surface p (Some r)) s =
     on_object c p K_surface (on_object c r K_output (wlr_layer_shell_get_layer_surface c p (Some r))) s"
| "handle_request c (Ack r serial) s = on_object c r K_layer_surface (zwlr_layer_surface_ack_configure c r serial) s"
| "handle_request c (Destroy_object r) s =
     (case kind_of s r of
        None \<Rightarrow> s
      | Some k \<Rightarrow> if destroyable k then on_object c r k (wl_resource_destroy r) s else s)"

text \<open>What the nested server dispatches: the first object of a client, its requests, and the end of its connection.\<close>

datatype client_event =
    First_object nat
  | Request nat client_request
  | Hang_up nat

fun handle_client_event :: "(nat list \<Rightarrow> nat list) \<Rightarrow> client_event \<Rightarrow> swaylock_state \<Rightarrow> swaylock_state" where
  "handle_client_event by_id (First_object c) s =
     (if c \<in> set (sv_clients (st_server s)) \<and> bc_resource_create_listening (client s c)
      then client_resource_create c (bc_client (client s c)) s else s)"
| "handle_client_event by_id (Request c r) s = (if c \<in> set (sv_clients (st_server s)) then handle_request c r s else s)"
| "handle_client_event by_id (Hang_up c) s = (if c \<in> set (sv_clients (st_server s)) then wl_client_destroy by_id c s else s)"

end
