(* ===== verification/Frames.thy ===== *)
theory Frames
  imports Requests
begin

section \<open>Handlers that leave the wiring alone\<close>

text \<open>
  Most handlers neither touch the event loop nor the records that tie outputs, clients and timers together, nor
  anything of the locker's own side: the password, the indicator states, the keyboards, the grace period and the lock.
  \<open>plain s s'\<close> says so of the states before and after.  One lemma per handler, collected in
  \<open>frames\<close>; the rules of composition are in \<open>framing\<close>.
\<close>

fun session_effect :: "effect \<Rightarrow> bool" where
  "session_effect (Sys (Send_request _)) = True"
| "session_effect (Up Lock_session) = True"
| "session_effect (Up Unlock_and_destroy) = True"
| "session_effect _ = False"

text \<open>The state without the nested server and the outputs.\<close>

definition plugin_core :: "swaylock_state \<Rightarrow> swaylock_state" where
  "plugin_core s = s\<lparr>st_eventloop := loop_create, st_surface := (\<lambda>_. zero_surface),
     st_server := \<lparr>sv_display = True, sv_clients = [], sv_client = (\<lambda>_. zero_client), sv_main_client = None, sv_next_client = 0\<rparr>,
     st_forward := zero_forward, st_start_clientless_mode := False, st_stale_wl_output_resources := [],
     st_stale_xdg_output_resources := [], st_stale_color_output_resources := [],
     st_world := (st_world s)\<lparr>w_calls := 0\<rparr>, st_trace := filter session_effect (st_trace s), st_halt := None\<rparr>"

text \<open>The fields by which outputs and clients refer to each other and to their timers.\<close>

definition output_links :: "swaylock_surface \<Rightarrow> nat option \<times> nat option \<times> bool \<times> bool" where
  [simp]: "output_links sf = (sw_client sf, sw_client_submission_timer sf, sw_created sf, sw_ext_session_lock_surface sf)"

definition client_links :: "swaylock_bg_client \<Rightarrow> nat \<times> nat option \<times> nat option" where
  [simp]: "client_links b = (bc_client b, bc_unique_output b, bc_client_connect_timer b)"

definition same_links :: "swaylock_state \<Rightarrow> swaylock_state \<Rightarrow> bool" where
  "same_links s s' \<longleftrightarrow>
     (\<forall>i. output_links (st_surface s' i) = output_links (st_surface s i)) \<and>
     (\<forall>c. client_links (client s' c) = client_links (client s c)) \<and>
     sv_clients (st_server s') = sv_clients (st_server s) \<and> sv_main_client (st_server s') = sv_main_client (st_server s) \<and>
     sv_next_client (st_server s') = sv_next_client (st_server s)"

definition plain :: "swaylock_state \<Rightarrow> swaylock_state \<Rightarrow> bool" where
  "plain s s' \<longleftrightarrow>
     plugin_core s' = plugin_core s \<and> same_links s s' \<and> st_eventloop s' = st_eventloop s \<and>
     (\<exists>tr. st_trace s' = st_trace s @ tr) \<and> (st_halt s \<noteq> None \<longrightarrow> st_halt s' \<noteq> None)"

named_theorems frames
named_theorems framing

lemma plain_refl [simp, framing]: "plain s s"
  by (simp add: plain_def same_links_def)

lemma plain_trans: "plain a b \<Longrightarrow> plain b c \<Longrightarrow> plain a c"
  by (auto simp: plain_def same_links_def)

lemma plain_same:
  assumes "plain s s'" and "plugin_core s'' = plugin_core s'" and "same_links s' s''" and "st_eventloop s'' = st_eventloop s'"
    and "st_trace s'' = st_trace s'" and "st_halt s' \<noteq> None \<Longrightarrow> st_halt s'' \<noteq> None"
  shows "plain s s''"
  using assms plain_trans [of s s' s''] by (simp add: plain_def)

lemma plain_emit [framing]: "\<not> session_effect e \<Longrightarrow> plain s s' \<Longrightarrow> plain s (emit e s')"
  by (auto simp: plain_def plugin_core_def same_links_def emit_def)

lemma plain_on_surface [framing]:
  "plain s s' \<Longrightarrow> (\<And>sf. output_links (g sf) = output_links sf) \<Longrightarrow> plain s (on_surface j g s')"
  by (erule plain_same) (auto simp: plugin_core_def same_links_def on_surface_def)

lemma plain_forget_plugin [frames]: "plain s s' \<Longrightarrow> plain s (on_surface j (\<lambda>sf. sf\<lparr>sw_plugin_surface := None\<rparr>) s')"
  by (erule plain_on_surface) simp

lemma plain_on_client [framing]:
  "plain s s' \<Longrightarrow> (\<And>b. client_links (g b) = client_links b) \<Longrightarrow> plain s (on_client c g s')"
  by (erule plain_same) (auto simp: plugin_core_def same_links_def on_client_def on_server_def)

lemma plain_basic [frames]:
  assumes "plain s s'"
  shows "plain s (halt_with h s')" "plain s (c_assert b s')" "plain s (on_forward fw s')"
    "plain s (on_plugin_surface p u s')" "plain s (on_buffer k fb s')" "plain s (on_image_desc d i s')"
    "plain s (on_pending p m s')" "plain s (on_committed p m s')" "plain s (on_pool e q s')"
    "plain s (next_call s')"
    "plain s (set_user_data r x s')" "plain s (remove_resource r s')"
    "plain s (s'\<lparr>st_start_clientless_mode := y\<rparr>)"
    "plain s (s'\<lparr>st_stale_xdg_output_resources := z, st_stale_wl_output_resources := z'\<rparr>)"
  by (rule plain_same [OF assms];
      simp add: plugin_core_def same_links_def halt_with_def c_assert_def on_forward_def on_plugin_surface_def on_buffer_def
      on_image_desc_def on_pending_def on_committed_def on_pool_def
      next_call_def set_user_data_def remove_resource_def)+

lemma plain_calls [frames]:
  assumes "plain s s'"
  shows "plain s (snd (sys_ret s'))" "plain s (snd (clock_gettime s'))"
    "plain s (snd (new_resource c k s'))"
  by (rule plain_same [OF assms];
      simp add: plugin_core_def same_links_def sys_ret_def clock_gettime_def next_call_def new_resource_def on_forward_def
        split_beta Let_def)+

lemma plain_run [framing]:
  assumes "plain s s'" and "\<And>s' f. f \<in> set fs \<Longrightarrow> plain s s' \<Longrightarrow> plain s (f s')"
  shows "plain s (run fs s')"
  using assms by (induction fs arbitrary: s') (auto simp: run.simps)

lemma plain_fold [framing]:
  assumes "plain s s'" and "\<And>x s'. plain s s' \<Longrightarrow> plain s (f x s')"
  shows "plain s (fold f xs s')"
  using assms by (induction xs arbitrary: s') auto

subsection \<open>Drawing\<close>

lemma plain_shm_open: "plain s s' \<Longrightarrow> plain s (snd (shm_open_loop n s'))"
proof (induction n s' rule: shm_open_loop.induct)
  case (2 n s')
  let ?t = "snd (sys_ret (snd (clock_gettime s')))"
  have t: "plain s ?t" using 2(2) by (intro framing frames)
  have "plain s (snd (shm_open_loop n ?t))" if "0 < n" "fst (sys_ret (snd (clock_gettime s'))) = - EEXIST"
    using that t by (intro 2(1)) (auto simp: EEXIST_def prod_eq_iff)
  with t show ?case by (auto simp: split_beta Let_def)
qed simp

lemma plain_anonymous_shm_open [frames]: "plain s s' \<Longrightarrow> plain s (snd (anonymous_shm_open s'))"
  by (simp add: anonymous_shm_open_def plain_shm_open)

lemma plain_create_buffer [frames]:
  assumes "plain s s'"
  shows "plain s (snd (create_buffer ref buf w h s'))" "plain s (snd (destroy_buffer ref buf s'))"
    "plain s (set_indicator_buffer i k b s')"
  using assms
  by (auto simp: create_buffer_def destroy_buffer_def set_indicator_buffer_def Let_def split_beta intro!: framing frames split: option.split attachment.split)

lemma plain_get_next_buffer [frames]: "plain s s' \<Longrightarrow> plain s (snd (get_next_buffer i w h s'))"
  by (auto simp: get_next_buffer_def Let_def split_beta intro!: framing frames split: option.split attachment.split)

lemma plain_render_frame [frames]: "plain s s' \<Longrightarrow> plain s (snd (render_frame i s'))"
  by (auto simp: render_frame_def Let_def split_beta intro!: framing frames split: option.split attachment.split)

lemma plain_render [frames]: "plain s s' \<Longrightarrow> plain s (render i s')"
  by (auto simp: render_def Let_def split_beta intro!: framing frames split: option.split attachment.split)

subsection \<open>Surfaces of the plugin\<close>

lemma plain_free_plugin_buffer [frames]: "plain s s' \<Longrightarrow> plain s (free_plugin_buffer b s')"
  by (auto simp: free_plugin_buffer_def Let_def split_beta intro!: framing frames split: option.split attachment.split)

lemma plain_drop_pending_buffer [frames]: "plain s s' \<Longrightarrow> plain s (drop_pending_buffer p b s')"
  by (auto simp: drop_pending_buffer_def Let_def split_beta intro!: framing frames split: option.split attachment.split)

lemma plain_nested_surface_attach [frames]:
  assumes "plain s s'"
  shows "plain s (nested_surface_attach p b x y s')" "plain s (nested_surface_damage p x y w h s')"
    "plain s (nested_surface_damage_buffer p x y w h s')" "plain s (nested_surface_frame c p s')"
    "plain s (nested_surface_set_buffer_transform p t s')" "plain s (nested_surface_set_buffer_scale p v s')"
  using assms
  by (auto simp: nested_surface_attach_def nested_surface_damage_def nested_surface_damage_buffer_def
      nested_surface_frame_def nested_surface_set_buffer_transform_def nested_surface_set_buffer_scale_def Let_def split_beta intro!: framing frames split: option.split attachment.split)

lemma plain_add_serial_pair [frames]: "plain s s' \<Longrightarrow> plain s (add_serial_pair p u d w h l s')"
  by (auto simp: add_serial_pair_def Let_def split_beta intro!: framing frames split: option.split attachment.split)

lemma plain_delete_image_desc_if_unreferenced [frames]: "plain s s' \<Longrightarrow> plain s (delete_image_desc_if_unreferenced d s')"
  by (auto simp: delete_image_desc_if_unreferenced_def Let_def split_beta intro!: framing frames split: option.split attachment.split)

lemma plain_unlink_pending_desc [frames]:
  assumes "plain s s'"
  shows "plain s (unlink_pending_desc p d s')" "plain s (unlink_committed_desc p d s')" "plain s (apply_scale p bg s')"
    "plain s (apply_transform p bg s')" "plain s (apply_viewport_dest p bg s')"
    "plain s (apply_viewport_source p bg s')" "plain s (apply_color_rep p bg s')"
  using assms
  by (auto simp: unlink_pending_desc_def unlink_committed_desc_def apply_scale_def apply_transform_def
      apply_viewport_dest_def apply_viewport_source_def apply_color_rep_def Let_def split_beta intro!: framing frames split: option.split attachment.split)

lemma plain_swap_committed_desc [frames]: "plain s s' \<Longrightarrow> plain s (swap_committed_desc p x y s')"
  by (auto simp: swap_committed_desc_def Let_def split_beta intro!: framing frames split: option.split attachment.split)

lemma plain_apply_image_desc [frames]:
  assumes "plain s s'"
  shows "plain s (apply_image_desc p bg s')" "plain s (unlink_committed_buffer p s')"
    "plain s (attach_pending_buffer p bg b s')"
  using assms
  by (auto simp: apply_image_desc_def unlink_committed_buffer_def attach_pending_buffer_def Let_def split_beta intro!: framing frames split: option.split attachment.split)

lemma plain_apply_attachment [frames]:
  assumes "plain s s'"
  shows "plain s (apply_attachment p bg s')" "plain s (apply_offset p bg s')" "plain s (apply_damage p bg s')"
    "plain s (apply_pending_subsurf_entry e p s')"
  using assms
  by (auto simp: apply_attachment_def apply_offset_def apply_damage_def apply_pending_subsurf_entry_def Let_def split_beta intro!: framing frames split: option.split attachment.split)

lemma plain_apply_stack [framing]: "plain s s' \<Longrightarrow> (\<And>q. \<not> session_effect (Surf (Subsurface 0) (place q))) \<Longrightarrow>
    plain s (apply_stack place g p es sibling s')"
proof (induction es arbitrary: sibling s')
  case (Cons e es)
  have "plain s (run [apply_pending_subsurf_entry e p, emit (Surf (Subsurface e) (place sibling)), on_committed p (g e)] s')"
    using Cons.prems(1) by (auto intro!: framing frames)
  then show ?case using Cons by (simp add: Let_def)
qed simp

lemma plain_apply_subsurfaces [frames]:
  assumes "plain s s'"
  shows "plain s (apply_subsurfaces p bg s')" "plain s (start_presentation_clock i s')"
  using assms
  by (auto simp: apply_subsurfaces_def start_presentation_clock_def Let_def split_beta intro!: framing frames split: option.split attachment.split)

lemma plain_apply_frame_callbacks [frames]: "plain s s' \<Longrightarrow> plain s (apply_frame_callbacks p bg s')"
  by (auto simp: apply_frame_callbacks_def Let_def split_beta intro!: framing frames split: option.split attachment.split)

lemma plain_apply_pending_surface_updates [frames]:
  assumes "plain s s'"
  shows "plain s (apply_pending_surface_updates p bg s')" "plain s (initial_configure p i s')"
    "plain s (ack_pending_configure i s')"
  using assms
  by (auto simp: apply_pending_surface_updates_def initial_configure_def ack_pending_configure_def Let_def split_beta intro!: framing frames split: option.split attachment.split)

subsection \<open>The other objects of the plugin\<close>

lemma plain_compositor_create_surface [frames]:
  assumes "plain s s'"
  shows "plain s (compositor_create_surface c v s')" "plain s (unset_user_data r s')"
    "plain s (unlink_subsurface p s')"
  using assms
  by (auto simp: compositor_create_surface_def unset_user_data_def unlink_subsurface_def Let_def split_beta intro!: framing frames split: option.split attachment.split)

lemma plain_destroy_subsurface_parts [frames]:
  assumes "plain s s'"
  shows "plain s (destroy_subsurface_parts p s')" "plain s (unlink_buffers p s')"
  using assms
  by (auto simp: destroy_subsurface_parts_def unlink_buffers_def Let_def split_beta intro!: framing frames split: option.split attachment.split)

lemma plain_branch:
  "(b \<Longrightarrow> plain s x) \<Longrightarrow> (\<not> b \<Longrightarrow> plain s y) \<Longrightarrow> plain s (if b then x else y)"
  "plain s n \<Longrightarrow> (\<And>v. plain s (g v)) \<Longrightarrow> plain s (case q of None \<Rightarrow> n | Some v \<Rightarrow> g v)"
  by (auto split: option.split)

lemma plain_steps:
  "plain s s' \<Longrightarrow> plain s (run [] s')"
  "plain s s' \<Longrightarrow> (\<And>x. plain s x \<Longrightarrow> plain s (f x)) \<Longrightarrow> (\<And>x. plain s x \<Longrightarrow> plain s (run fs x)) \<Longrightarrow>
   plain s (run (f # fs) s')"
  by (simp_all add: run.simps)

lemma plain_surface_handle_resource_destroy [frames]:
  "plain s s' \<Longrightarrow> plain s (surface_handle_resource_destroy p s')"
  unfolding surface_handle_resource_destroy_def
  by (rule plain_steps plain_branch frames framing | assumption | simp only: session_effect.simps not_False_eq_True)+

lemma plain_subcompositor_get_subsurface [frames]:
  "plain s s' \<Longrightarrow> plain s (subcompositor_get_subsurface c r p q s')"
  unfolding subcompositor_get_subsurface_def Let_def split_beta 
  by (rule plain_branch framing frames | assumption | simp only: session_effect.simps not_False_eq_True)+

lemma plain_on_subsurface [framing]:
  assumes "plain s s'" and "\<And>p q x. plain s x \<Longrightarrow> plain s (g p q x)"
  shows "plain s (on_subsurface r g s')"
  using assms(1) by (auto simp: on_subsurface_def intro!: framing frames assms(2) split: option.split)

lemma plain_with_surface [framing]:
  "plain s s' \<Longrightarrow> (\<And>p x. plain s x \<Longrightarrow> plain s (g p x)) \<Longrightarrow> (\<And>x. plain s x \<Longrightarrow> plain s (h x)) \<Longrightarrow>
   plain s (with_surface r g h s')"
  by (auto simp: with_surface_def intro!: framing frames split: option.split)

lemma plain_with_output [framing]:
  "plain s s' \<Longrightarrow> (\<And>i x. plain s x \<Longrightarrow> plain s (g i x)) \<Longrightarrow> plain s (with_output r g s')"
  by (auto simp: with_output_def intro!: framing frames split: option.split)

lemma plain_nested_subsurface_set_position [frames]:
  assumes "plain s s'"
  shows "plain s (nested_subsurface_set_position r x y s')" "plain s (nested_subsurface_set_sync r s')"
    "plain s (nested_subsurface_set_desync r s')" "plain s (place_beside f g r p q t s')"
  using assms
  by (auto simp: nested_subsurface_set_position_def nested_subsurface_set_sync_def nested_subsurface_set_desync_def
      place_beside_def Let_def split_beta intro!: framing frames split: option.split attachment.split)

lemma plain_nested_subsurface_place_above [frames]:
  assumes "plain s s'"
  shows "plain s (nested_subsurface_place_above r p s')" "plain s (nested_subsurface_place_below r p s')"
    "plain s (subsurface_handle_resource_destroy r s')" "plain s (handle_buffer_release b s')"
    "plain s (forget_buffer b p s')"
  using assms
  by (auto simp: nested_subsurface_place_above_def nested_subsurface_place_below_def
      subsurface_handle_resource_destroy_def handle_buffer_release_def forget_buffer_def Let_def split_beta intro!: framing frames split: option.split attachment.split)

lemma plain_buffer_handle_resource_destroy [frames]:
  assumes "plain s s'"
  shows "plain s (buffer_handle_resource_destroy b s')" "plain s (snd (make_buffer c w h s'))"
  using assms
  by (auto simp: buffer_handle_resource_destroy_def make_buffer_def Let_def split_beta intro!: framing frames split: option.split attachment.split)

lemma plain_params [frames]:
  assumes "plain s s'"
  shows "plain s (create_plugin_buffer c w h s')" "plain s (nested_linux_dmabuf_create_params c s')"
    "plain s (nested_dmabuf_params_add r fd k x y hi lo s')" "plain s (nested_dmabuf_params_create r w h fmt fl s')"
    "plain s (linux_dmabuf_params_handle_resource_destroy r s')" "plain s (handle_dmabuf_params_created c r s')"
    "plain s (handle_dmabuf_params_failed r s')" "plain s (compositor_create_region c s')"
    "plain s (nested_ddm_create_data_source c s')" "plain s (nested_ddm_get_data_device c s')"
  using assms
  by (auto simp: create_plugin_buffer_def nested_linux_dmabuf_create_params_def nested_dmabuf_params_add_def
      nested_dmabuf_params_create_def linux_dmabuf_params_handle_resource_destroy_def handle_dmabuf_params_created_def
      handle_dmabuf_params_failed_def compositor_create_region_def nested_ddm_create_data_source_def
      nested_ddm_get_data_device_def Let_def split_beta intro!: framing frames)

lemma plain_nested_shm_pool_create_buffer [frames]:
  assumes "plain s s'"
  shows "plain s (nested_shm_pool_create_buffer c r w h s')" "plain s (nested_dmabuf_params_create_immed c w h s')"
    "plain s (grow_pool e n s')"
  using assms
  by (auto simp: nested_shm_pool_create_buffer_def nested_dmabuf_params_create_immed_def grow_pool_def Let_def split_beta intro!: framing frames split: option.split attachment.split)

lemma plain_shm_create_pool [frames]:
  assumes "plain s s'"
  shows "plain s (shm_create_pool c x n s')" "plain s (nested_shm_pool_resize r n s')"
    "plain s (shm_pool_handle_resource_destroy r s')"
  using assms
  by (auto simp: shm_create_pool_def nested_shm_pool_resize_def shm_pool_handle_resource_destroy_def Let_def split_beta intro!: framing frames split: option.split attachment.split)

lemma plain_nested_viewport_set_source [frames]:
  assumes "plain s s'"
  shows "plain s (nested_viewport_set_source r x y w h s')" "plain s (nested_viewport_set_destination r w h s')"
  using assms
  by (auto simp: nested_viewport_set_source_def nested_viewport_set_destination_def Let_def split_beta intro!: framing frames split: option.split attachment.split)

lemma plain_already_exists [frames]: "plain s s' \<Longrightarrow> plain s (already_exists r m x s')"
  by (auto simp: already_exists_def Let_def split_beta intro!: framing frames split: option.split attachment.split)

lemma plain_nested_viewporter_get_viewport [frames]:
  assumes "plain s s'"
  shows "plain s (nested_viewporter_get_viewport c r p s')" "plain s (viewport_handle_resource_destroy r s')"
    "plain s (nested_get_fractional_scale c r p s')" "plain s (fractional_scale_handle_resource_destroy r s')"
    "plain s (nested_color_surface_set_image_desc r d i s')" "plain s (nested_color_surface_unset_image_desc r s')"
    "plain s (color_surface_handle_resource_destroy r s')" "plain s (nested_color_get_surface c r p s')"
  using assms
  by (auto simp: nested_viewporter_get_viewport_def viewport_handle_resource_destroy_def
      nested_get_fractional_scale_def fractional_scale_handle_resource_destroy_def
      nested_color_surface_set_image_desc_def nested_color_surface_unset_image_desc_def
      color_surface_handle_resource_destroy_def nested_color_get_surface_def Let_def split_beta intro!: framing frames split: option.split attachment.split)

lemma plain_create_image_desc [frames]:
  assumes "plain s s'"
  shows "plain s (create_image_desc c b s')" "plain s (image_desc_handle_resource_destroy d s')"
    "plain s (nested_color_rep_surface_set_alpha_mode r v s')"
    "plain s (nested_color_rep_surface_set_coefficients_and_range r v w s')"
    "plain s (nested_color_rep_surface_set_chroma_location r v s')" "plain s (color_rep_handle_resource_destroy r s')"
    "plain s (nested_color_rep_get_surface c r p s')" "plain s (frame_callback_handle_resource_destroy r s')"
  using assms
  by (auto simp: create_image_desc_def image_desc_handle_resource_destroy_def
      nested_color_rep_surface_set_alpha_mode_def nested_color_rep_surface_set_coefficients_and_range_def
      nested_color_rep_surface_set_chroma_location_def color_rep_handle_resource_destroy_def
      nested_color_rep_get_surface_def frame_callback_handle_resource_destroy_def Let_def split_beta intro!: framing frames split: option.split attachment.split)

lemma plain_output_resource_destroy [frames]: "plain s s' \<Longrightarrow> plain s (output_resource_destroy r s')"
  by (rule plain_same [where s' = s']) (simp_all add: plugin_core_def same_links_def output_resource_destroy_def)

lemma plain_destructor [frames]: "plain s s' \<Longrightarrow> plain s (destructor k r s')"
  by (cases k) (auto intro!: framing frames)

lemma plain_wl_resource_destroy [frames]: "plain s s' \<Longrightarrow> plain s (wl_resource_destroy r s')"
  by (auto simp: wl_resource_destroy_def Let_def split_beta intro!: framing frames split: option.split attachment.split)

lemma plain_nested_color_surface_destroy [frames]:
  assumes "plain s s'"
  shows "plain s (nested_color_surface_destroy r s')" "plain s (frame_done r s')"
  using assms
  by (auto simp: nested_color_surface_destroy_def frame_done_def Let_def split_beta intro!: framing frames split: option.split attachment.split)

subsection \<open>Clients and outputs\<close>

lemma plain_set_client_paused [frames]: "plain s s' \<Longrightarrow> plain s (set_client_paused c p s')"
  by (auto simp: set_client_paused_def Let_def split_beta intro!: framing frames split: option.split)

lemma plain_resume_all_clients [frames]:
  assumes "plain s s'"
  shows "plain s (resume_all_clients s')" "plain s (resume_client_for_surface i s')" "plain s (snd (set_cloexec s'))"
    "plain s (snd (spawn_command f n d s'))" "plain s (render_fallback_surface i s')" "plain s (ack_newest i s')"
  using assms
  by (auto simp: resume_all_clients_def resume_client_for_surface_def set_cloexec_def spawn_command_def
      render_fallback_surface_def ack_newest_def Let_def split_beta intro!: framing frames split: option.split attachment.split)

lemma plain_fallback_output [frames]:
  assumes "plain s s'"
  shows "plain s (fallback_output i s')" "plain s (record_ack p i e es s')"
  using assms
  by (auto simp: fallback_output_def record_ack_def Let_def split_beta intro!: framing frames split: option.split attachment.split)

lemma plain_zwlr_layer_surface_ack_configure [frames]:
  assumes "plain s s'"
  shows "plain s (zwlr_layer_surface_ack_configure c r n s')" "plain s (attach_layer_surface c p i s')"
  using assms
  by (auto simp: zwlr_layer_surface_ack_configure_def attach_layer_surface_def Let_def split_beta intro!: framing frames split: option.split attachment.split)

lemma plain_wlr_layer_shell_get_layer_surface [frames]:
  assumes "plain s s'"
  shows "plain s (wlr_layer_shell_get_layer_surface c p x s')" "plain s (fract_scale_preferred_scale i n s')"
    "plain s (reconfigure_plugin i n s')"
  using assms
  by (auto simp: wlr_layer_shell_get_layer_surface_def fract_scale_preferred_scale_def reconfigure_plugin_def Let_def split_beta intro!: framing frames split: option.split attachment.split)

lemma plain_forward_configure [frames]:
  assumes "plain s s'"
  shows "plain s (forward_configure i b n s')" "plain s (redraw_if_running i s')" "plain s (bind_wl_output c i s')"
    "plain s (xdg_output_manager_get_xdg_output c r s')" "plain s (nested_color_get_output c r s')"
    "plain s (nested_color_output_get_image_description c r s')" "plain s (bg_frame_handle_done g s')"
  using assms
  by (auto simp: forward_configure_def redraw_if_running_def bind_wl_output_def xdg_output_manager_get_xdg_output_def
      nested_color_get_output_def nested_color_output_get_image_description_def bg_frame_handle_done_def Let_def split_beta intro!: framing frames split: option.split attachment.split)

subsection \<open>Outputs\<close>

lemma plain_damage [frames]:
  assumes "plain s s'"
  shows "plain s (damage_surface i s')" "plain s (damage_state s')" "plain s (surface_frame_handle_done i s')"
    "plain s (buffer_release i k s')"
  using assms
  by (auto simp: damage_surface_def damage_state_def surface_frame_handle_done_def buffer_release_def set_indicator_buffer_def
      intro!: framing frames)

lemma plain_output_events [frames]:
  assumes "plain s s'"
  shows "plain s (handle_wl_output_geometry i w h p t s')" "plain s (handle_wl_output_mode i fl w h s')"
    "plain s (handle_wl_output_scale i v s')"
    "plain s (handle_wl_output_name i n s')" "plain s (handle_wl_output_description i d s')"
    "plain s (setup_color_management_for_surface i s')"
  using assms
  by (auto simp: handle_wl_output_geometry_def handle_wl_output_mode_def handle_wl_output_scale_def
      handle_wl_output_name_def handle_wl_output_description_def setup_color_management_for_surface_def
      intro!: framing frames)

lemma plain_global_optional [frames]: "plain s s' \<Longrightarrow> plain s (handle_global_optional g s')"
  by (cases g) (auto intro!: framing frames)

lemma plain_emits: "\<forall>e \<in> set es. \<not> session_effect e \<Longrightarrow> plain s s' \<Longrightarrow> plain s (fold emit es s')"
proof (induction es arbitrary: s')
  case (Cons e es)
  then show ?case using Cons.IH [OF _ plain_emit [of e s s']] by simp
qed simp

lemma output_objects_plain: "\<forall>e \<in> set (output_objects i sf). \<not> session_effect e"
  by (auto simp: output_objects_def)

lemma plain_release [frames]: "plain s s' \<Longrightarrow> plain s (release_output i s')"
  unfolding release_output_def Let_def
  by (intro framing frames plain_emits [OF output_objects_plain]) simp_all

lemma plain_removal [frames]:
  assumes "plain s s'"
  shows "plain s (close_plugin_surface i s')" "plain s (retire_output_objects i s')" "plain s (drop_frame_callback i s')"
  using assms
  by (auto simp: close_plugin_surface_def retire_output_objects_def drop_frame_callback_def Let_def
      intro!: framing frames split: option.split)

end
