(* ===== verification/Isolation.thy ===== *)
theory Isolation
  imports Frames
begin

section \<open>What plugin clients cannot reach\<close>

text \<open>
  Nothing a plugin client does touches the password, the indicator states, the keyboard and pointer
  state, the grace period or the lock itself: every handler that runs on behalf of a client, and every time-out of
  one, keeps \<open>plugin_core\<close>, the state without the nested server and the outputs.  The handlers of
  \<open>frames\<close> keep more than that; those that start and end clients and arm their timers have a lemma here.
\<close>

text \<open>\<open>evolves s s'\<close>: from \<open>s\<close> to \<open>s'\<close> the event loop changed by its four operations only, the trace grew,
  and a process that had ended did not come back to life.\<close>

definition evolves :: "swaylock_state \<Rightarrow> swaylock_state \<Rightarrow> bool" where
  "evolves s s' \<longleftrightarrow>
     (\<exists>cs. st_eventloop s' = fold do_call cs (st_eventloop s)) \<and> (\<exists>tr. st_trace s' = st_trace s @ tr) \<and>
     (st_halt s \<noteq> None \<longrightarrow> st_halt s' \<noteq> None)"

definition untouched :: "swaylock_state \<Rightarrow> swaylock_state \<Rightarrow> bool" where
  "untouched s s' \<longleftrightarrow> plugin_core s' = plugin_core s \<and> evolves s s'"

named_theorems isolation

lemma evolves_refl [simp]: "evolves s s"
  by (auto simp: evolves_def intro: exI [of _ "[]"])

lemma evolves_by:
  assumes "evolves s s'" and "st_eventloop s'' = fold do_call cs (st_eventloop s')" and "st_trace s'' = st_trace s' @ tr"
    and "st_halt s' \<noteq> None \<Longrightarrow> st_halt s'' \<noteq> None"
  shows "evolves s s''"
proof -
  obtain cs0 tr0 where "st_eventloop s' = fold do_call cs0 (st_eventloop s)" "st_trace s' = st_trace s @ tr0"
    using assms(1) by (auto simp: evolves_def)
  then have "st_eventloop s'' = fold do_call (cs0 @ cs) (st_eventloop s)" "st_trace s'' = st_trace s @ (tr0 @ tr)"
    using assms(2,3) by simp_all
  then show ?thesis using assms(1,4) unfolding evolves_def by blast
qed

lemma evolves_same:
  assumes "evolves s s'" and "st_eventloop s'' = st_eventloop s'" and "st_trace s'' = st_trace s'"
    and "st_halt s' \<noteq> None \<Longrightarrow> st_halt s'' \<noteq> None"
  shows "evolves s s''"
  using evolves_by [OF assms(1), of s'' "[]" "[]"] assms by simp

lemma evolves_trans: "evolves a b \<Longrightarrow> evolves b c \<Longrightarrow> evolves a c"
  using evolves_by [of a b c] unfolding evolves_def by blast

lemma untouched_refl [simp, isolation]: "untouched s s"
  by (simp add: untouched_def)

lemma untouched_trans: "untouched a b \<Longrightarrow> untouched b c \<Longrightarrow> untouched a c"
  using evolves_trans by (auto simp: untouched_def)

lemma untouched_same:
  assumes "untouched s s'" and "plugin_core s'' = plugin_core s'" and "st_eventloop s'' = st_eventloop s'"
    and "st_trace s'' = st_trace s'" and "st_halt s' \<noteq> None \<Longrightarrow> st_halt s'' \<noteq> None"
  shows "untouched s s''"
  using assms evolves_same [of s s' s''] by (simp add: untouched_def)

lemma evolves_emit: "evolves s s' \<Longrightarrow> evolves s (emit e s')"
  by (rule evolves_by [of _ _ _ "[]"]) (simp_all add: emit_def)

lemma untouched_emit [isolation]: "\<not> session_effect e \<Longrightarrow> untouched s s' \<Longrightarrow> untouched s (emit e s')"
  using evolves_emit [of s s' e] by (simp add: untouched_def plugin_core_def emit_def)

lemma untouched_basic [isolation]:
  assumes "untouched s s'"
  shows "untouched s (halt_with h s')" "untouched s (c_assert b s')" "untouched s (on_forward fw s')"
    "untouched s (on_plugin_surface p u s')" "untouched s (on_buffer k fb s')" "untouched s (on_image_desc d i s')"
    "untouched s (on_pending p m s')" "untouched s (on_committed p m s')" "untouched s (on_pool e q s')"
    "untouched s (on_surface j g s')" "untouched s (on_server v s')" "untouched s (on_client c b' s')"
    "untouched s (next_call s')"
    "untouched s (set_user_data r x s')" "untouched s (remove_resource r s')"
    "untouched s (s'\<lparr>st_start_clientless_mode := y\<rparr>)"
    "untouched s (s'\<lparr>st_stale_xdg_output_resources := z, st_stale_wl_output_resources := z'\<rparr>)"
  by (rule untouched_same [OF assms];
      simp add: plugin_core_def halt_with_def c_assert_def on_forward_def on_plugin_surface_def on_buffer_def
      on_image_desc_def on_pending_def on_committed_def on_pool_def on_surface_def on_server_def on_client_def
      next_call_def set_user_data_def remove_resource_def)+

lemma untouched_loop_call:
  assumes "untouched s s'" and "st_eventloop s'' = do_call c (st_eventloop s')" and "st_trace s'' = st_trace s'"
    and "st_halt s'' = st_halt s'" and "plugin_core s'' = plugin_core s'"
  shows "untouched s s''"
  using assms evolves_by [of s s' s'' "[c]" "[]"] by (simp add: untouched_def)

lemma untouched_loop [isolation]:
  assumes "untouched s s'"
  shows "untouched s (remove_timer t s')" "untouched s (snd (add_timer ms cb s'))"
    "untouched s (on_loop (\<lambda>L. snd (loop_remove_fd fd L)) s')"
proof -
  show "untouched s (remove_timer t s')"
    by (rule untouched_loop_call [OF assms, of _ "Remove_timer t"]) (simp_all add: remove_timer_def on_loop_def plugin_core_def)
  show "untouched s (snd (add_timer ms cb s'))"
    by (rule untouched_loop_call [OF assms, of _ "Add_timer (w_time (st_world s') (w_calls (st_world s'))) ms cb"])
       (simp_all add: add_timer_loop, simp add: add_timer_def clock_gettime_def next_call_def plugin_core_def split_beta Let_def)
  show "untouched s (on_loop (\<lambda>L. snd (loop_remove_fd fd L)) s')"
    by (rule untouched_loop_call [OF assms, of _ "Remove_fd fd"]) (simp_all add: on_loop_def plugin_core_def)
qed

lemma untouched_calls [isolation]:
  assumes "untouched s s'"
  shows "untouched s (snd (sys_ret s'))" "untouched s (snd (clock_gettime s'))"
    "untouched s (snd (new_resource c k s'))"
  by (rule untouched_same [OF assms];
      simp add: plugin_core_def sys_ret_def clock_gettime_def next_call_def new_resource_def on_forward_def split_beta Let_def)+

text \<open>The handlers of the collection \<open>frames\<close>.\<close>

lemma plain_untouched: "plain s s' \<Longrightarrow> untouched s s'"
  using evolves_by [of s s s' "[]"] by (auto simp: plain_def untouched_def)

lemma after_plain: "plain s' s'' \<Longrightarrow> untouched s s' \<Longrightarrow> untouched s s''"
  using plain_untouched untouched_trans by blast

lemmas untouched_frames [isolation] = frames [OF plain_refl, THEN after_plain]

lemma untouched_run [isolation]:
  assumes "untouched s s'" and "\<And>s' f. f \<in> set fs \<Longrightarrow> untouched s s' \<Longrightarrow> untouched s (f s')"
  shows "untouched s (run fs s')"
  using assms by (induction fs arbitrary: s') (auto simp: run.simps)

lemma untouched_fold [isolation]:
  assumes "untouched s s'" and "\<And>x s'. untouched s s' \<Longrightarrow> untouched s (f x s')"
  shows "untouched s (fold f xs s')"
  using assms by (induction xs arbitrary: s') auto

subsection \<open>Commits\<close>

lemma untouched_disarm_submission_timer [isolation]: "untouched s s' \<Longrightarrow> untouched s (disarm_submission_timer i s')"
  by (auto simp: disarm_submission_timer_def Let_def split_beta intro!: isolation split: option.split attachment.split)

lemma untouched_forward_commit [isolation]: "untouched s s' \<Longrightarrow> untouched s (forward_commit p i s')"
  by (auto simp: forward_commit_def Let_def split_beta intro!: isolation split: option.split attachment.split)

lemma untouched_check_size_and_commit [isolation]: "untouched s s' \<Longrightarrow> untouched s (check_size_and_commit p i s')"
  by (auto simp: check_size_and_commit_def Let_def split_beta intro!: isolation split: option.split surface_size.split)

lemma untouched_commit_layer_surface [isolation]: "untouched s s' \<Longrightarrow> untouched s (commit_layer_surface p i s')"
  by (auto simp: commit_layer_surface_def Let_def split_beta intro!: isolation split: option.split attachment.split)

lemma untouched_nested_surface_commit [isolation]: "untouched s s' \<Longrightarrow> untouched s (nested_surface_commit p s')"
  by (auto simp: nested_surface_commit_def Let_def split_beta intro!: isolation split: option.split attachment.split)

subsection \<open>Clients and outputs\<close>

lemma untouched_link_client [isolation]: "untouched s s' \<Longrightarrow> untouched s (link_client c i s')"
  by (auto simp: link_client_def Let_def split_beta intro!: isolation split: option.split attachment.split)

lemma untouched_add_client [isolation]: "untouched s s' \<Longrightarrow> untouched s (add_client pid i s')"
  by (auto simp: add_client_def Let_def split_beta intro!: isolation split: option.split attachment.split)

lemma untouched_run_plugin_command [isolation]: "untouched s s' \<Longrightarrow> untouched s (snd (run_plugin_command i s'))"
  by (auto simp: run_plugin_command_def Let_def split_beta intro!: isolation split: option.split attachment.split)

lemma untouched_client_resource_create [isolation]: "untouched s s' \<Longrightarrow> untouched s (client_resource_create c r s')"
  by (auto simp: client_resource_create_def Let_def split_beta intro!: isolation split: option.split attachment.split)

lemma untouched_cleanup_client [isolation]: "untouched s s' \<Longrightarrow> untouched s (cleanup_client c s')"
  by (auto simp: cleanup_client_def Let_def split_beta intro!: isolation split: option.split attachment.split)

lemma untouched_client_destroyed [isolation]: "untouched s s' \<Longrightarrow> untouched s (client_destroyed c r s')"
  by (auto simp: client_destroyed_def Let_def split_beta intro!: isolation split: option.split attachment.split)

lemma untouched_wl_client_destroy [isolation]: "untouched s s' \<Longrightarrow> untouched s (wl_client_destroy by_id c s')"
  by (auto simp: wl_client_destroy_def Let_def split_beta intro!: isolation split: option.split attachment.split)

lemma untouched_cancel_redraw_timer [isolation]: "untouched s s' \<Longrightarrow> untouched s (cancel_redraw_timer i s')"
  by (auto simp: cancel_redraw_timer_def Let_def split_beta intro!: isolation split: option.split attachment.split)

lemma untouched_stop_nested_server [isolation]: "untouched s s' \<Longrightarrow> untouched s (stop_nested_server s')"
  by (auto simp: stop_nested_server_def Let_def split_beta intro!: isolation split: option.split attachment.split)

lemma untouched_setup_clientless_mode [isolation]: "untouched s s' \<Longrightarrow> untouched s (setup_clientless_mode s')"
  by (auto simp: setup_clientless_mode_def Let_def split_beta intro!: isolation split: option.split attachment.split)

lemma untouched_client_timeout [isolation]: "untouched s s' \<Longrightarrow> untouched s (client_timeout by_id c s')"
  by (auto simp: client_timeout_def Let_def split_beta intro!: isolation split: option.split attachment.split)

lemma untouched_client_connection_timeout [isolation]: "untouched s s' \<Longrightarrow> untouched s (client_connection_timeout by_id c s')"
  by (auto simp: client_connection_timeout_def Let_def split_beta intro!: isolation split: option.split attachment.split)

lemma untouched_output_redraw_timeout [isolation]: "untouched s s' \<Longrightarrow> untouched s (output_redraw_timeout by_id i s')"
  by (auto simp: output_redraw_timeout_def Let_def split_beta intro!: isolation split: option.split attachment.split)

lemma untouched_arm_redraw_timer [isolation]: "untouched s s' \<Longrightarrow> untouched s (arm_redraw_timer i s')"
  by (auto simp: arm_redraw_timer_def Let_def split_beta intro!: isolation split: option.split attachment.split)

lemma untouched_ext_session_lock_surface_v1_handle_configure [isolation]: "untouched s s' \<Longrightarrow> untouched s (ext_session_lock_surface_v1_handle_configure i n w h s')"
  by (auto simp: ext_session_lock_surface_v1_handle_configure_def Let_def split_beta intro!: isolation split: option.split attachment.split)

lemma untouched_create_surface [isolation]: "untouched s s' \<Longrightarrow> untouched s (create_surface i s')"
  by (auto simp: create_surface_def Let_def split_beta intro!: isolation split: option.split attachment.split)

lemma untouched_init_surface_if_ready [isolation]: "untouched s s' \<Longrightarrow> untouched s (init_surface_if_ready i s')"
  by (auto simp: init_surface_if_ready_def Let_def split_beta intro!: isolation split: option.split attachment.split)

lemma untouched_drop_output_client [isolation]: "untouched s s' \<Longrightarrow> untouched s (drop_output_client by_id i s')"
  by (auto simp: drop_output_client_def Let_def split_beta intro!: isolation split: option.split attachment.split)

lemma untouched_drop_submission_timer [isolation]: "untouched s s' \<Longrightarrow> untouched s (drop_submission_timer i s')"
  by (auto simp: drop_submission_timer_def Let_def split_beta intro!: isolation split: option.split attachment.split)

lemma untouched_output_ready [isolation]:
  assumes "untouched s s'"
  shows "untouched s (handle_wl_output_done i s')"
  using assms by (auto simp: handle_wl_output_done_def intro!: isolation)

subsection \<open>Requests\<close>

lemma untouched_on_object [isolation]:
  "untouched s s' \<Longrightarrow> (\<And>x. untouched s x \<Longrightarrow> untouched s (g x)) \<Longrightarrow> untouched s (on_object c r k g s')"
  by (simp add: on_object_def)

lemma untouched_handle_request [isolation]: "untouched s s' \<Longrightarrow> untouched s (handle_request c r s')"
  by (cases "(c, r, s')" rule: handle_request.cases) (auto intro!: isolation split: option.split)

lemma untouched_client_event [isolation]: "untouched s s' \<Longrightarrow> untouched s (handle_client_event by_id e s')"
  by (cases e) (auto intro!: isolation)

lemma untouchedD:
  assumes "untouched s s'"
  shows "st_input_idle_timer s' = st_input_idle_timer s"
    "st_auth_idle_timer s' = st_auth_idle_timer s"
    "st_clear_password_timer s' = st_clear_password_timer s"
    "st_hidden_check_timer s' = st_hidden_check_timer s"
    "st_grace_timer s' = st_grace_timer s"
    "st_surfaces s' = st_surfaces s"
    "st_seat s' = st_seat s"
    "st_images s' = st_images s"
    "st_args s' = st_args s"
    "st_password s' = st_password s"
    "st_xkb s' = st_xkb s"
    "st_auth_state s' = st_auth_state s"
    "st_input_state s' = st_input_state s"
    "st_highlight_start s' = st_highlight_start s"
    "st_failed_attempts s' = st_failed_attempts s"
    "st_run_display s' = st_run_display s"
    "st_locked s' = st_locked s"
    "st_sleep_comm_r s' = st_sleep_comm_r s"
    "st_sleep_comm_w s' = st_sleep_comm_w s"
    "filter session_effect (st_trace s') = filter session_effect (st_trace s)"
proof -
  have eq: "plugin_core s' = plugin_core s" using assms by (simp add: untouched_def)
  show "st_input_idle_timer s' = st_input_idle_timer s"
    "st_auth_idle_timer s' = st_auth_idle_timer s"
    "st_clear_password_timer s' = st_clear_password_timer s"
    "st_hidden_check_timer s' = st_hidden_check_timer s"
    "st_grace_timer s' = st_grace_timer s"
    "st_surfaces s' = st_surfaces s"
    "st_seat s' = st_seat s"
    "st_images s' = st_images s"
    "st_args s' = st_args s"
    "st_password s' = st_password s"
    "st_xkb s' = st_xkb s"
    "st_auth_state s' = st_auth_state s"
    "st_input_state s' = st_input_state s"
    "st_highlight_start s' = st_highlight_start s"
    "st_failed_attempts s' = st_failed_attempts s"
    "st_run_display s' = st_run_display s"
    "st_locked s' = st_locked s"
    "st_sleep_comm_r s' = st_sleep_comm_r s"
    "st_sleep_comm_w s' = st_sleep_comm_w s"
    "filter session_effect (st_trace s') = filter session_effect (st_trace s)"
    using arg_cong [OF eq, of st_input_idle_timer]
      arg_cong [OF eq, of st_auth_idle_timer]
      arg_cong [OF eq, of st_clear_password_timer]
      arg_cong [OF eq, of st_hidden_check_timer]
      arg_cong [OF eq, of st_grace_timer]
      arg_cong [OF eq, of st_surfaces]
      arg_cong [OF eq, of st_seat]
      arg_cong [OF eq, of st_images]
      arg_cong [OF eq, of st_args]
      arg_cong [OF eq, of st_password]
      arg_cong [OF eq, of st_xkb]
      arg_cong [OF eq, of st_auth_state]
      arg_cong [OF eq, of st_input_state]
      arg_cong [OF eq, of st_highlight_start]
      arg_cong [OF eq, of st_failed_attempts]
      arg_cong [OF eq, of st_run_display]
      arg_cong [OF eq, of st_locked]
      arg_cong [OF eq, of st_sleep_comm_r]
      arg_cong [OF eq, of st_sleep_comm_w]
      arg_cong [OF eq, of st_trace] by (simp_all add: plugin_core_def)
qed


end
