(* ===== verification/Input.thy ===== *)
theory Input
  imports Timers Comm
begin

section \<open>Typing a password (password.c)\<close>

text \<open>
  The timers and the key handler of password.c on the program state.  Keysyms are the numbers of
  xkbcommon; the clock, \<open>rand\<close> and the answers of \<open>write\<close> come from the world.
\<close>

subsection \<open>The three timers\<close>

definition set_input_idle :: "swaylock_state \<Rightarrow> swaylock_state" where
  "set_input_idle s = damage_state (s\<lparr>st_input_idle_timer := None, st_input_state := INPUT_STATE_IDLE\<rparr>)"

definition set_auth_idle :: "swaylock_state \<Rightarrow> swaylock_state" where
  "set_auth_idle s = damage_state (s\<lparr>st_auth_idle_timer := None, st_auth_state := AUTH_STATE_IDLE\<rparr>)"

definition schedule_input_idle :: "swaylock_state \<Rightarrow> swaylock_state" where
  "schedule_input_idle s =
     (let s1 = (case st_input_idle_timer s of None \<Rightarrow> s | Some t \<Rightarrow> remove_timer t s);
          (t, s2) = add_timer 1500 Set_input_idle s1
      in s2\<lparr>st_input_idle_timer := Some t\<rparr>)"

definition cancel_input_idle :: "swaylock_state \<Rightarrow> swaylock_state" where
  "cancel_input_idle s =
     (case st_input_idle_timer s of
        None \<Rightarrow> s
      | Some t \<Rightarrow> (remove_timer t s)\<lparr>st_input_idle_timer := None\<rparr>)"

definition schedule_auth_idle :: "swaylock_state \<Rightarrow> swaylock_state" where
  "schedule_auth_idle s =
     (let s1 = (case st_auth_idle_timer s of None \<Rightarrow> s | Some t \<Rightarrow> remove_timer t s);
          (t, s2) = add_timer 3000 Set_auth_idle s1
      in s2\<lparr>st_auth_idle_timer := Some t\<rparr>)"

definition clear_password :: "swaylock_state \<Rightarrow> swaylock_state" where
  "clear_password s =
     (let s1 = schedule_input_idle (s\<lparr>st_clear_password_timer := None, st_input_state := INPUT_STATE_CLEAR\<rparr>)
      in damage_state (s1\<lparr>st_password := clear_password_buffer (st_password s1)\<rparr>))"

definition schedule_password_clear :: "swaylock_state \<Rightarrow> swaylock_state" where
  "schedule_password_clear s =
     (let s1 = (case st_clear_password_timer s of None \<Rightarrow> s | Some t \<Rightarrow> remove_timer t s);
          (t, s2) = add_timer 10000 Clear_password s1
      in s2\<lparr>st_clear_password_timer := Some t\<rparr>)"

definition cancel_password_clear :: "swaylock_state \<Rightarrow> swaylock_state" where
  "cancel_password_clear s =
     (case st_clear_password_timer s of
        None \<Rightarrow> s
      | Some t \<Rightarrow> (remove_timer t s)\<lparr>st_clear_password_timer := None\<rparr>)"

subsection \<open>Submitting\<close>

text \<open>\<open>write_comm_request\<close> of comm.c with the answers of the world; the bytes that went into the pipe
  are recorded.\<close>

definition send_request :: "swaylock_state \<Rightarrow> bool \<times> swaylock_state" where
  "send_request s =
     (case write_comm_request (w_ret (st_world s)) (st_password s) (w_calls (st_world s)) of
        None \<Rightarrow> (False, halt_with Hang s)
      | Some (st, pw, sent, k) \<Rightarrow>
          let s1 = emit (Sys (Send_request sent))
                     (s\<lparr>st_password := pw, st_world := (st_world s)\<lparr>w_calls := k\<rparr>\<rparr>)
          in if st = IO_assert then (False, halt_with Abort s1) else (st = IO_ok, s1))"

definition submit_password :: "swaylock_state \<Rightarrow> swaylock_state" where
  "submit_password s =
     (if a_ignore_empty (st_args s) \<and> pw_len (st_password s) = 0 then s
      else if st_auth_state s = AUTH_STATE_VALIDATING then s
      else
        let s1 = cancel_input_idle (cancel_password_clear
                   (s\<lparr>st_input_state := INPUT_STATE_IDLE, st_auth_state := AUTH_STATE_VALIDATING\<rparr>));
            (ok, s2) = send_request s1
        in if st_halt s2 \<noteq> None then s2
           else if \<not> ok then damage_state (schedule_auth_idle (s2\<lparr>st_auth_state := AUTH_STATE_INVALID\<rparr>))
           else damage_state s2)"

definition update_highlight :: "swaylock_state \<Rightarrow> swaylock_state" where
  "update_highlight s =
     (let (r, s1) = sys_ret s
      in s1\<lparr>st_highlight_start := (st_highlight_start s1 + word_of_int (r smod 1024) + 512) mod 2048\<rparr>)"

subsection \<open>Keys\<close>

definition XKB_KEY_KP_Enter :: u32 where "XKB_KEY_KP_Enter = 0xff8d"
definition XKB_KEY_Return :: u32 where "XKB_KEY_Return = 0xff0d"
definition XKB_KEY_Delete :: u32 where "XKB_KEY_Delete = 0xffff"
definition XKB_KEY_BackSpace :: u32 where "XKB_KEY_BackSpace = 0xff08"
definition XKB_KEY_Escape :: u32 where "XKB_KEY_Escape = 0xff1b"

text \<open>Caps Lock, then both Shift, Control, Meta, Alt and Super keys.\<close>

definition modifier_keys :: "u32 list" where
  "modifier_keys = [0xffe5, 0xffe1, 0xffe2, 0xffe3, 0xffe4, 0xffe7, 0xffe8, 0xffe9, 0xffea, 0xffeb, 0xffec]"

definition XKB_KEY_m :: u32 where "XKB_KEY_m = 0x6d"
definition XKB_KEY_d :: u32 where "XKB_KEY_d = 0x64"
definition XKB_KEY_j :: u32 where "XKB_KEY_j = 0x6a"
definition XKB_KEY_c :: u32 where "XKB_KEY_c = 0x63"
definition XKB_KEY_u :: u32 where "XKB_KEY_u = 0x75"

definition clear_by_key :: "swaylock_state \<Rightarrow> swaylock_state" where
  "clear_by_key s =
     damage_state (schedule_input_idle (cancel_password_clear
       (s\<lparr>st_password := clear_password_buffer (st_password s), st_input_state := INPUT_STATE_CLEAR\<rparr>)))"

definition erase_by_key :: "swaylock_state \<Rightarrow> swaylock_state" where
  "erase_by_key s =
     (let (erased, pw) = backspace (st_password s);
          s1 = s\<lparr>st_password := pw\<rparr>;
          s2 = (if erased \<and> pw_len pw \<noteq> 0
                then update_highlight (schedule_password_clear (s1\<lparr>st_input_state := INPUT_STATE_BACKSPACE\<rparr>))
                else cancel_password_clear (s1\<lparr>st_input_state := INPUT_STATE_CLEAR\<rparr>))
      in damage_state (schedule_input_idle s2))"

definition neutral_key :: "swaylock_state \<Rightarrow> swaylock_state" where
  "neutral_key s =
     damage_state (schedule_input_idle (schedule_password_clear (s\<lparr>st_input_state := INPUT_STATE_NEUTRAL\<rparr>)))"

definition letter_key :: "u32 \<Rightarrow> swaylock_state \<Rightarrow> swaylock_state" where
  "letter_key codepoint s =
     (if codepoint \<noteq> 0 then
        damage_state (update_highlight (schedule_input_idle (schedule_password_clear
          (s\<lparr>st_password := append_ch (st_password s) codepoint, st_input_state := INPUT_STATE_LETTER\<rparr>))))
      else s)"

definition swaylock_handle_key :: "u32 \<Rightarrow> u32 \<Rightarrow> swaylock_state \<Rightarrow> swaylock_state" where
  "swaylock_handle_key keysym codepoint s =
     (let control = x_control (st_xkb s) in
      if keysym = XKB_KEY_KP_Enter \<or> keysym = XKB_KEY_Return then submit_password s
      else if keysym = XKB_KEY_Delete \<or> keysym = XKB_KEY_BackSpace then
        (if control then clear_by_key s else erase_by_key s)
      else if keysym = XKB_KEY_Escape then clear_by_key s
      else if keysym \<in> set modifier_keys then neutral_key s
      else if (keysym = XKB_KEY_m \<or> keysym = XKB_KEY_d \<or> keysym = XKB_KEY_j) \<and> control then submit_password s
      else if (keysym = XKB_KEY_m \<or> keysym = XKB_KEY_d \<or> keysym = XKB_KEY_j \<or>
               keysym = XKB_KEY_c \<or> keysym = XKB_KEY_u) \<and> control then clear_by_key s
      else letter_key codepoint s)"

subsection \<open>Frames\<close>

lemma schedule_input_idle_frame [simp]:
  "st_auth_idle_timer (schedule_input_idle s) = st_auth_idle_timer s"
  "st_clear_password_timer (schedule_input_idle s) = st_clear_password_timer s"
  "st_hidden_check_timer (schedule_input_idle s) = st_hidden_check_timer s"
  "st_grace_timer (schedule_input_idle s) = st_grace_timer s"
  "st_surfaces (schedule_input_idle s) = st_surfaces s"
  "st_surface (schedule_input_idle s) = st_surface s"
  "st_seat (schedule_input_idle s) = st_seat s"
  "st_images (schedule_input_idle s) = st_images s"
  "st_args (schedule_input_idle s) = st_args s"
  "st_password (schedule_input_idle s) = st_password s"
  "st_xkb (schedule_input_idle s) = st_xkb s"
  "st_auth_state (schedule_input_idle s) = st_auth_state s"
  "st_input_state (schedule_input_idle s) = st_input_state s"
  "st_highlight_start (schedule_input_idle s) = st_highlight_start s"
  "st_failed_attempts (schedule_input_idle s) = st_failed_attempts s"
  "st_run_display (schedule_input_idle s) = st_run_display s"
  "st_locked (schedule_input_idle s) = st_locked s"
  "st_server (schedule_input_idle s) = st_server s"
  "st_forward (schedule_input_idle s) = st_forward s"
  "st_start_clientless_mode (schedule_input_idle s) = st_start_clientless_mode s"
  "st_sleep_comm_r (schedule_input_idle s) = st_sleep_comm_r s"
  "st_sleep_comm_w (schedule_input_idle s) = st_sleep_comm_w s"
  "st_stale_wl_output_resources (schedule_input_idle s) = st_stale_wl_output_resources s"
  "st_stale_xdg_output_resources (schedule_input_idle s) = st_stale_xdg_output_resources s"
  "st_stale_color_output_resources (schedule_input_idle s) = st_stale_color_output_resources s"
  "st_trace (schedule_input_idle s) = st_trace s"
  "st_halt (schedule_input_idle s) = st_halt s"
  by (simp_all add: schedule_input_idle_def Let_def split_beta split: option.split)

lemma cancel_input_idle_frame [simp]:
  "st_auth_idle_timer (cancel_input_idle s) = st_auth_idle_timer s"
  "st_clear_password_timer (cancel_input_idle s) = st_clear_password_timer s"
  "st_hidden_check_timer (cancel_input_idle s) = st_hidden_check_timer s"
  "st_grace_timer (cancel_input_idle s) = st_grace_timer s"
  "st_surfaces (cancel_input_idle s) = st_surfaces s"
  "st_surface (cancel_input_idle s) = st_surface s"
  "st_seat (cancel_input_idle s) = st_seat s"
  "st_images (cancel_input_idle s) = st_images s"
  "st_args (cancel_input_idle s) = st_args s"
  "st_password (cancel_input_idle s) = st_password s"
  "st_xkb (cancel_input_idle s) = st_xkb s"
  "st_auth_state (cancel_input_idle s) = st_auth_state s"
  "st_input_state (cancel_input_idle s) = st_input_state s"
  "st_highlight_start (cancel_input_idle s) = st_highlight_start s"
  "st_failed_attempts (cancel_input_idle s) = st_failed_attempts s"
  "st_run_display (cancel_input_idle s) = st_run_display s"
  "st_locked (cancel_input_idle s) = st_locked s"
  "st_server (cancel_input_idle s) = st_server s"
  "st_forward (cancel_input_idle s) = st_forward s"
  "st_start_clientless_mode (cancel_input_idle s) = st_start_clientless_mode s"
  "st_sleep_comm_r (cancel_input_idle s) = st_sleep_comm_r s"
  "st_sleep_comm_w (cancel_input_idle s) = st_sleep_comm_w s"
  "st_stale_wl_output_resources (cancel_input_idle s) = st_stale_wl_output_resources s"
  "st_stale_xdg_output_resources (cancel_input_idle s) = st_stale_xdg_output_resources s"
  "st_stale_color_output_resources (cancel_input_idle s) = st_stale_color_output_resources s"
  "st_world (cancel_input_idle s) = st_world s"
  "st_trace (cancel_input_idle s) = st_trace s"
  "st_halt (cancel_input_idle s) = st_halt s"
  by (simp_all add: cancel_input_idle_def Let_def split_beta split: option.split)

lemma schedule_auth_idle_frame [simp]:
  "st_input_idle_timer (schedule_auth_idle s) = st_input_idle_timer s"
  "st_clear_password_timer (schedule_auth_idle s) = st_clear_password_timer s"
  "st_hidden_check_timer (schedule_auth_idle s) = st_hidden_check_timer s"
  "st_grace_timer (schedule_auth_idle s) = st_grace_timer s"
  "st_surfaces (schedule_auth_idle s) = st_surfaces s"
  "st_surface (schedule_auth_idle s) = st_surface s"
  "st_seat (schedule_auth_idle s) = st_seat s"
  "st_images (schedule_auth_idle s) = st_images s"
  "st_args (schedule_auth_idle s) = st_args s"
  "st_password (schedule_auth_idle s) = st_password s"
  "st_xkb (schedule_auth_idle s) = st_xkb s"
  "st_auth_state (schedule_auth_idle s) = st_auth_state s"
  "st_input_state (schedule_auth_idle s) = st_input_state s"
  "st_highlight_start (schedule_auth_idle s) = st_highlight_start s"
  "st_failed_attempts (schedule_auth_idle s) = st_failed_attempts s"
  "st_run_display (schedule_auth_idle s) = st_run_display s"
  "st_locked (schedule_auth_idle s) = st_locked s"
  "st_server (schedule_auth_idle s) = st_server s"
  "st_forward (schedule_auth_idle s) = st_forward s"
  "st_start_clientless_mode (schedule_auth_idle s) = st_start_clientless_mode s"
  "st_sleep_comm_r (schedule_auth_idle s) = st_sleep_comm_r s"
  "st_sleep_comm_w (schedule_auth_idle s) = st_sleep_comm_w s"
  "st_stale_wl_output_resources (schedule_auth_idle s) = st_stale_wl_output_resources s"
  "st_stale_xdg_output_resources (schedule_auth_idle s) = st_stale_xdg_output_resources s"
  "st_stale_color_output_resources (schedule_auth_idle s) = st_stale_color_output_resources s"
  "st_trace (schedule_auth_idle s) = st_trace s"
  "st_halt (schedule_auth_idle s) = st_halt s"
  by (simp_all add: schedule_auth_idle_def Let_def split_beta split: option.split)

lemma schedule_password_clear_frame [simp]:
  "st_input_idle_timer (schedule_password_clear s) = st_input_idle_timer s"
  "st_auth_idle_timer (schedule_password_clear s) = st_auth_idle_timer s"
  "st_hidden_check_timer (schedule_password_clear s) = st_hidden_check_timer s"
  "st_grace_timer (schedule_password_clear s) = st_grace_timer s"
  "st_surfaces (schedule_password_clear s) = st_surfaces s"
  "st_surface (schedule_password_clear s) = st_surface s"
  "st_seat (schedule_password_clear s) = st_seat s"
  "st_images (schedule_password_clear s) = st_images s"
  "st_args (schedule_password_clear s) = st_args s"
  "st_password (schedule_password_clear s) = st_password s"
  "st_xkb (schedule_password_clear s) = st_xkb s"
  "st_auth_state (schedule_password_clear s) = st_auth_state s"
  "st_input_state (schedule_password_clear s) = st_input_state s"
  "st_highlight_start (schedule_password_clear s) = st_highlight_start s"
  "st_failed_attempts (schedule_password_clear s) = st_failed_attempts s"
  "st_run_display (schedule_password_clear s) = st_run_display s"
  "st_locked (schedule_password_clear s) = st_locked s"
  "st_server (schedule_password_clear s) = st_server s"
  "st_forward (schedule_password_clear s) = st_forward s"
  "st_start_clientless_mode (schedule_password_clear s) = st_start_clientless_mode s"
  "st_sleep_comm_r (schedule_password_clear s) = st_sleep_comm_r s"
  "st_sleep_comm_w (schedule_password_clear s) = st_sleep_comm_w s"
  "st_stale_wl_output_resources (schedule_password_clear s) = st_stale_wl_output_resources s"
  "st_stale_xdg_output_resources (schedule_password_clear s) = st_stale_xdg_output_resources s"
  "st_stale_color_output_resources (schedule_password_clear s) = st_stale_color_output_resources s"
  "st_trace (schedule_password_clear s) = st_trace s"
  "st_halt (schedule_password_clear s) = st_halt s"
  by (simp_all add: schedule_password_clear_def Let_def split_beta split: option.split)

lemma cancel_password_clear_frame [simp]:
  "st_input_idle_timer (cancel_password_clear s) = st_input_idle_timer s"
  "st_auth_idle_timer (cancel_password_clear s) = st_auth_idle_timer s"
  "st_hidden_check_timer (cancel_password_clear s) = st_hidden_check_timer s"
  "st_grace_timer (cancel_password_clear s) = st_grace_timer s"
  "st_surfaces (cancel_password_clear s) = st_surfaces s"
  "st_surface (cancel_password_clear s) = st_surface s"
  "st_seat (cancel_password_clear s) = st_seat s"
  "st_images (cancel_password_clear s) = st_images s"
  "st_args (cancel_password_clear s) = st_args s"
  "st_password (cancel_password_clear s) = st_password s"
  "st_xkb (cancel_password_clear s) = st_xkb s"
  "st_auth_state (cancel_password_clear s) = st_auth_state s"
  "st_input_state (cancel_password_clear s) = st_input_state s"
  "st_highlight_start (cancel_password_clear s) = st_highlight_start s"
  "st_failed_attempts (cancel_password_clear s) = st_failed_attempts s"
  "st_run_display (cancel_password_clear s) = st_run_display s"
  "st_locked (cancel_password_clear s) = st_locked s"
  "st_server (cancel_password_clear s) = st_server s"
  "st_forward (cancel_password_clear s) = st_forward s"
  "st_start_clientless_mode (cancel_password_clear s) = st_start_clientless_mode s"
  "st_sleep_comm_r (cancel_password_clear s) = st_sleep_comm_r s"
  "st_sleep_comm_w (cancel_password_clear s) = st_sleep_comm_w s"
  "st_stale_wl_output_resources (cancel_password_clear s) = st_stale_wl_output_resources s"
  "st_stale_xdg_output_resources (cancel_password_clear s) = st_stale_xdg_output_resources s"
  "st_stale_color_output_resources (cancel_password_clear s) = st_stale_color_output_resources s"
  "st_world (cancel_password_clear s) = st_world s"
  "st_trace (cancel_password_clear s) = st_trace s"
  "st_halt (cancel_password_clear s) = st_halt s"
  by (simp_all add: cancel_password_clear_def Let_def split_beta split: option.split)

lemma update_highlight_frame [simp]:
  "st_eventloop (update_highlight s) = st_eventloop s"
  "st_input_idle_timer (update_highlight s) = st_input_idle_timer s"
  "st_auth_idle_timer (update_highlight s) = st_auth_idle_timer s"
  "st_clear_password_timer (update_highlight s) = st_clear_password_timer s"
  "st_hidden_check_timer (update_highlight s) = st_hidden_check_timer s"
  "st_grace_timer (update_highlight s) = st_grace_timer s"
  "st_surfaces (update_highlight s) = st_surfaces s"
  "st_surface (update_highlight s) = st_surface s"
  "st_seat (update_highlight s) = st_seat s"
  "st_images (update_highlight s) = st_images s"
  "st_args (update_highlight s) = st_args s"
  "st_password (update_highlight s) = st_password s"
  "st_xkb (update_highlight s) = st_xkb s"
  "st_auth_state (update_highlight s) = st_auth_state s"
  "st_input_state (update_highlight s) = st_input_state s"
  "st_failed_attempts (update_highlight s) = st_failed_attempts s"
  "st_run_display (update_highlight s) = st_run_display s"
  "st_locked (update_highlight s) = st_locked s"
  "st_server (update_highlight s) = st_server s"
  "st_forward (update_highlight s) = st_forward s"
  "st_start_clientless_mode (update_highlight s) = st_start_clientless_mode s"
  "st_sleep_comm_r (update_highlight s) = st_sleep_comm_r s"
  "st_sleep_comm_w (update_highlight s) = st_sleep_comm_w s"
  "st_stale_wl_output_resources (update_highlight s) = st_stale_wl_output_resources s"
  "st_stale_xdg_output_resources (update_highlight s) = st_stale_xdg_output_resources s"
  "st_stale_color_output_resources (update_highlight s) = st_stale_color_output_resources s"
  "st_trace (update_highlight s) = st_trace s"
  "st_halt (update_highlight s) = st_halt s"
  by (simp_all add: update_highlight_def sys_ret_def next_call_def)

lemma timer_fields [simp]:
  "st_input_idle_timer (schedule_input_idle s) = Some (next_timer (st_eventloop s))"
  "st_input_idle_timer (cancel_input_idle s) = None"
  "st_auth_idle_timer (schedule_auth_idle s) = Some (next_timer (st_eventloop s))"
  "st_clear_password_timer (schedule_password_clear s) = Some (next_timer (st_eventloop s))"
  "st_clear_password_timer (cancel_password_clear s) = None"
  by (simp_all add: schedule_input_idle_def cancel_input_idle_def schedule_auth_idle_def schedule_password_clear_def
      cancel_password_clear_def Let_def split_beta add_timer_loop remove_timer_loop loop_remove_timer_def split: option.split)

lemma schedule_loops:
  "\<exists>now. st_eventloop (schedule_input_idle s) =
     snd (loop_add_timer now 1500 Set_input_idle (tmr.disarm (st_input_idle_timer s) (st_eventloop s)))"
  "\<exists>now. st_eventloop (schedule_auth_idle s) =
     snd (loop_add_timer now 3000 Set_auth_idle (tmr.disarm (st_auth_idle_timer s) (st_eventloop s)))"
  "\<exists>now. st_eventloop (schedule_password_clear s) =
     snd (loop_add_timer now 10000 Clear_password (tmr.disarm (st_clear_password_timer s) (st_eventloop s)))"
  by (auto simp: schedule_input_idle_def schedule_auth_idle_def schedule_password_clear_def Let_def split_beta
      add_timer_loop remove_timer_loop tmr.disarm_def split: option.split)

lemma timers_ok_schedule [preserves]:
  assumes "timers_ok X s"
  shows "timers_ok X (schedule_input_idle s)" "timers_ok X (schedule_auth_idle s)"
    "timers_ok X (schedule_password_clear s)"
proof -
  have "owner cb' (schedule_input_idle s) = owner cb' s" if "cb' \<noteq> Set_input_idle" for cb'
    using that by (cases cb') simp_all
  then show "timers_ok X (schedule_input_idle s)"
    using schedule_loops(1) [of s] timers_ok_rearm [OF assms, where cb = Set_input_idle] by auto
  have "owner cb' (schedule_auth_idle s) = owner cb' s" if "cb' \<noteq> Set_auth_idle" for cb'
    using that by (cases cb') simp_all
  then show "timers_ok X (schedule_auth_idle s)"
    using schedule_loops(2) [of s] timers_ok_rearm [OF assms, where cb = Set_auth_idle] by auto
  have "owner cb' (schedule_password_clear s) = owner cb' s" if "cb' \<noteq> Clear_password" for cb'
    using that by (cases cb') simp_all
  then show "timers_ok X (schedule_password_clear s)"
    using schedule_loops(3) [of s] timers_ok_rearm [OF assms, where cb = Clear_password] by auto
qed

lemma timers_ok_cancel [preserves]:
  assumes "timers_ok X s"
  shows "timers_ok X (cancel_input_idle s)" "timers_ok X (cancel_password_clear s)"
proof -
  have "owner cb' (cancel_input_idle s) = owner cb' s" if "cb' \<noteq> Set_input_idle" for cb'
    using that by (cases cb') simp_all
  then show "timers_ok X (cancel_input_idle s)"
    using timers_ok_disarm [OF assms, of "cancel_input_idle s" _ Set_input_idle] assms
    by (cases "st_input_idle_timer s") (auto simp: cancel_input_idle_def remove_timer_loop)
  have "owner cb' (cancel_password_clear s) = owner cb' s" if "cb' \<noteq> Clear_password" for cb'
    using that by (cases cb') simp_all
  then show "timers_ok X (cancel_password_clear s)"
    using timers_ok_disarm [OF assms, of "cancel_password_clear s" _ Clear_password] assms
    by (cases "st_clear_password_timer s") (auto simp: cancel_password_clear_def remove_timer_loop)
qed

subsection \<open>The invariant of typing\<close>

text \<open>The buffer holds a password; while it is not empty the timer that clears it is armed; an indicator state
  other than idle, and the message about a wrong password, have their timers armed.\<close>

definition typing_ok :: "swaylock_state \<Rightarrow> bool" where
  "typing_ok s \<longleftrightarrow>
     pw_inv (st_password s) \<and>
     (pw_len (st_password s) \<noteq> 0 \<longrightarrow> st_clear_password_timer s \<noteq> None) \<and>
     (st_input_state s \<noteq> INPUT_STATE_IDLE \<longrightarrow> st_input_idle_timer s \<noteq> None) \<and>
     (st_auth_state s = AUTH_STATE_INVALID \<longrightarrow> st_auth_idle_timer s \<noteq> None)"

text \<open>The invariant of the locker's input side; a process that has ended need not satisfy it.\<close>

definition lock_inv :: "nat set \<Rightarrow> swaylock_state \<Rightarrow> bool" where
  "lock_inv X s \<longleftrightarrow> (st_halt s = None \<longrightarrow> timers_ok X s \<and> typing_ok s)"

lemma typing_ok_damage [simp]: "typing_ok (damage_state s) = typing_ok s"
  by (simp add: typing_ok_def)

lemma lock_inv_damage [simp]: "lock_inv X (damage_state s) = lock_inv X s"
  by (simp add: lock_inv_def)

lemma owner_update_password [simp]:
  "owner cb (s\<lparr>st_password := pw, st_input_state := i\<rparr>) = owner cb s"
  "owner cb (s\<lparr>st_password := pw\<rparr>) = owner cb s"
  "owner cb (s\<lparr>st_input_state := i\<rparr>) = owner cb s"
  "owner cb (s\<lparr>st_auth_state := a\<rparr>) = owner cb s"
  "owner cb (s\<lparr>st_input_state := i, st_auth_state := a\<rparr>) = owner cb s"
  "owner cb (s\<lparr>st_highlight_start := h\<rparr>) = owner cb s"
  "owner cb (s\<lparr>st_world := w\<rparr>) = owner cb s"
  "owner cb (s\<lparr>st_password := pw, st_world := w\<rparr>) = owner cb s"
  "owner cb (s\<lparr>st_trace := tr\<rparr>) = owner cb s"
  "owner cb (s\<lparr>st_halt := x\<rparr>) = owner cb s"
  by (cases cb; simp)+

lemma timers_ok_update [simp]:
  "timers_ok X (s\<lparr>st_password := pw, st_input_state := i\<rparr>) = timers_ok X s"
  "timers_ok X (s\<lparr>st_password := pw\<rparr>) = timers_ok X s"
  "timers_ok X (s\<lparr>st_input_state := i\<rparr>) = timers_ok X s"
  "timers_ok X (s\<lparr>st_auth_state := a\<rparr>) = timers_ok X s"
  "timers_ok X (s\<lparr>st_input_state := i, st_auth_state := a\<rparr>) = timers_ok X s"
  "timers_ok X (s\<lparr>st_highlight_start := h\<rparr>) = timers_ok X s"
  "timers_ok X (s\<lparr>st_world := w\<rparr>) = timers_ok X s"
  "timers_ok X (s\<lparr>st_password := pw, st_world := w\<rparr>) = timers_ok X s"
  "timers_ok X (s\<lparr>st_trace := tr\<rparr>) = timers_ok X s"
  "timers_ok X (s\<lparr>st_halt := x\<rparr>) = timers_ok X s"
  by (simp_all add: timers_ok_def)

lemma timers_ok_highlight [simp]: "timers_ok X (update_highlight s) = timers_ok X s"
  by (simp add: update_highlight_def sys_ret_def next_call_def)

lemma send_request_cases:
  obtains (hang) "send_request s = (False, halt_with Hang s)"
  | (abort) sent k where "send_request s =
      (False, s\<lparr>st_world := (st_world s)\<lparr>w_calls := k\<rparr>, st_trace := st_trace s @ [Sys (Send_request sent)], st_halt := Some Abort\<rparr>)"
  | (sent) ok sent k where "send_request s =
      (ok, s\<lparr>st_password := clear_password_buffer (st_password s),
             st_world := (st_world s)\<lparr>w_calls := k\<rparr>, st_trace := st_trace s @ [Sys (Send_request sent)]\<rparr>)"
proof (cases "write_comm_request (w_ret (st_world s)) (st_password s) (w_calls (st_world s))")
  case None
  then show ?thesis using hang by (simp add: send_request_def)
next
  case (Some r)
  obtain st pw sent k where r: "r = (st, pw, sent, k)" by (cases r)
  have "if st = IO_assert then pw = st_password s else pw = clear_password_buffer (st_password s)"
    using Some r by (auto simp: write_comm_request_def Let_def split: option.splits if_splits)
  then show ?thesis
    using Some r abort sent
    by (cases "st = IO_assert") (auto simp: send_request_def halt_with_def emit_def)
qed

lemma submit_lock_inv:
  assumes "lock_inv X s" "st_halt s = None"
  shows "lock_inv X (submit_password s)"
proof -
  have inv: "timers_ok X s" "typing_ok s" using assms by (auto simp: lock_inv_def)
  let ?s1 = "cancel_input_idle (cancel_password_clear
      (s\<lparr>st_input_state := INPUT_STATE_IDLE, st_auth_state := AUTH_STATE_VALIDATING\<rparr>))"
  have t1: "timers_ok X ?s1" using inv(1) by (intro preserves) simp
  show ?thesis
  proof (rule send_request_cases [of ?s1])
    fix ok sent k
    let ?s2 = "?s1\<lparr>st_password := clear_password_buffer (st_password ?s1),
      st_world := (st_world ?s1)\<lparr>w_calls := k\<rparr>, st_trace := st_trace ?s1 @ [Sys (Send_request sent)]\<rparr>"
    assume r: "send_request ?s1 = (ok, ?s2)"
    have t2: "timers_ok X ?s2" using t1 by (metis timers_ok_update(8,9))
    have "timers_ok X (schedule_auth_idle (?s2\<lparr>st_auth_state := AUTH_STATE_INVALID\<rparr>))"
      by (rule preserves) (use t2 in simp)
    moreover have "pw_inv (clear_password_buffer (st_password s))"
      using inv(2) by (intro preserves) (simp add: typing_ok_def)
    ultimately show ?thesis
      using r t2 inv assms by (simp add: submit_password_def Let_def lock_inv_def typing_ok_def)
  qed (use inv assms in \<open>auto simp: submit_password_def Let_def lock_inv_def halt_with_def typing_ok_def\<close>)
qed

lemma erase_lock_inv:
  assumes "lock_inv X s"
  shows "lock_inv X (erase_by_key s)"
proof -
  obtain b pw where bs: "backspace (st_password s) = (b, pw)" by fastforce
  have "pw_inv pw" if "pw_inv (st_password s)" using backspace_inv [OF that] bs by simp
  moreover have "pw_len pw = 0" if "\<not> (b \<and> pw_len pw \<noteq> 0)"
    using that bs by (auto simp: backspace_def Let_def split: if_splits)
  ultimately show ?thesis
    using assms by (auto simp: erase_by_key_def bs Let_def lock_inv_def typing_ok_def intro!: preserves)
qed

lemma clear_key_lock_inv: "lock_inv X s \<Longrightarrow> lock_inv X (clear_by_key s)"
  by (auto simp: clear_by_key_def lock_inv_def typing_ok_def intro!: preserves)

lemma neutral_lock_inv: "lock_inv X s \<Longrightarrow> lock_inv X (neutral_key s)"
  by (auto simp: neutral_key_def lock_inv_def typing_ok_def intro!: preserves)

lemma letter_lock_inv: "lock_inv X s \<Longrightarrow> lock_inv X (letter_key c s)"
  by (auto simp: letter_key_def lock_inv_def typing_ok_def intro!: preserves)

lemma lock_inv_initial: "length mem = 1024 \<Longrightarrow> lock_inv {} (initial_state w mem args)"
  using timers_ok_initial [of w mem args] initial_password_repr [of mem]
  by (auto simp: lock_inv_def typing_ok_def pw_inv_def initial_state_def initial_password_def)

text \<open>C7. Every key keeps the invariant: in any state where the event loop and the timer fields agree and a
  non-empty password has its clearing timer armed, they still do after any key, whatever the clock,
  the random numbers and the pipe answer (unless the process has ended).\<close>

theorem handle_key_inv:
  assumes "lock_inv X s" and "st_halt s = None"
  shows "lock_inv X (swaylock_handle_key keysym codepoint s)"
  using assms submit_lock_inv erase_lock_inv clear_key_lock_inv neutral_lock_inv letter_lock_inv
  by (simp add: swaylock_handle_key_def Let_def)

lemma handle_key_inv_witness:
  "lock_inv {} (swaylock_handle_key 0x61 0x61 (initial_state quiet_world (replicate 1024 7) default_args))"
  by (rule handle_key_inv [OF lock_inv_initial]) (simp_all add: initial_state_def)

subsection \<open>Timer callbacks\<close>

lemma input_callbacks_inv:
  assumes inv: "lock_inv X s" "st_halt s = None" and t: "t \<notin> X"
  shows "armed (st_eventloop s) t = Some Set_input_idle \<Longrightarrow> lock_inv (insert t X) (set_input_idle s)"
    and "armed (st_eventloop s) t = Some Set_auth_idle \<Longrightarrow> lock_inv (insert t X) (set_auth_idle s)"
    and "armed (st_eventloop s) t = Some Clear_password \<Longrightarrow> lock_inv (insert t X) (clear_password s)"
proof -
  have ok: "timers_ok X s" "typing_ok s" using inv by (auto simp: lock_inv_def)
  have fires: "timers_ok (insert t X) s'"
    if "armed (st_eventloop s) t = Some cb" "st_eventloop s' = st_eventloop s" "owner cb s' = None"
      "\<And>cb'. cb' \<noteq> cb \<Longrightarrow> owner cb' s' = owner cb' s" for cb s'
    using timers_ok_fire [OF ok(1) that(1) t that(2-4)] by blast
  {
    assume a: "armed (st_eventloop s) t = Some Set_input_idle"
    let ?s = "s\<lparr>st_input_idle_timer := None, st_input_state := INPUT_STATE_IDLE\<rparr>"
    have "owner cb' ?s = owner cb' s" if "cb' \<noteq> Set_input_idle" for cb' using that by (cases cb') simp_all
    then have "timers_ok (insert t X) ?s" by (intro fires [OF a]) simp_all
    then show "lock_inv (insert t X) (set_input_idle s)"
      using ok(2) by (simp add: set_input_idle_def lock_inv_def typing_ok_def)
  next
    assume a: "armed (st_eventloop s) t = Some Set_auth_idle"
    let ?s = "s\<lparr>st_auth_idle_timer := None, st_auth_state := AUTH_STATE_IDLE\<rparr>"
    have "owner cb' ?s = owner cb' s" if "cb' \<noteq> Set_auth_idle" for cb' using that by (cases cb') simp_all
    then have "timers_ok (insert t X) ?s" by (intro fires [OF a]) simp_all
    then show "lock_inv (insert t X) (set_auth_idle s)"
      using ok(2) by (simp add: set_auth_idle_def lock_inv_def typing_ok_def)
  next
    assume a: "armed (st_eventloop s) t = Some Clear_password"
    let ?s = "s\<lparr>st_clear_password_timer := None, st_input_state := INPUT_STATE_CLEAR\<rparr>"
    have "owner cb' ?s = owner cb' s" if "cb' \<noteq> Clear_password" for cb' using that by (cases cb') simp_all
    then have "timers_ok (insert t X) ?s" by (intro fires [OF a]) simp_all
    then have "timers_ok (insert t X) (schedule_input_idle ?s)" by (rule preserves)
    then show "lock_inv (insert t X) (clear_password s)"
      using ok(2) by (auto simp: clear_password_def Let_def lock_inv_def typing_ok_def intro: preserves)
  }
qed

subsection \<open>What the keys do to the text\<close>

text \<open>The meaning of a key: submit, edit the text, or nothing.\<close>

datatype key_action = Submit | Edit "u32 edit" | No_edit

definition key_action :: "bool \<Rightarrow> u32 \<Rightarrow> u32 \<Rightarrow> key_action" where
  "key_action control keysym codepoint =
     (if keysym \<in> {0xff8d, 0xff0d} then Submit
      else if keysym \<in> {0xffff, 0xff08} then Edit (if control then Clear else Erase)
      else if keysym = 0xff1b then Edit Clear
      else if keysym \<in> set modifier_keys then No_edit
      else if control \<and> keysym \<in> {0x6d, 0x64, 0x6a} then Submit
      else if control \<and> keysym \<in> {0x63, 0x75} then Edit Clear
      else if codepoint = 0 then No_edit else Edit (Append codepoint))"

lemma handle_key_by_action:
  "swaylock_handle_key keysym codepoint s =
    (case key_action (x_control (st_xkb s)) keysym codepoint of
       Submit \<Rightarrow> submit_password s
     | Edit (Append c) \<Rightarrow> letter_key c s
     | Edit Erase \<Rightarrow> erase_by_key s
     | Edit Clear \<Rightarrow> clear_by_key s
     | No_edit \<Rightarrow> if keysym \<in> set modifier_keys then neutral_key s else s)"
  unfolding swaylock_handle_key_def key_action_def XKB_KEY_KP_Enter_def XKB_KEY_Return_def
      XKB_KEY_Delete_def XKB_KEY_BackSpace_def XKB_KEY_Escape_def XKB_KEY_m_def XKB_KEY_d_def XKB_KEY_j_def
      XKB_KEY_c_def XKB_KEY_u_def
  by (cases "x_control (st_xkb s)") (simp_all add: Let_def letter_key_def)

lemma key_action_append: "key_action control keysym codepoint = Edit (Append c) \<Longrightarrow> c = codepoint \<and> c \<noteq> 0"
  by (auto simp: key_action_def split: if_splits)

lemma submit_text:
  assumes "pw_repr (st_password s) cps"
  shows "if (a_ignore_empty (st_args s) \<and> cps = []) \<or> st_auth_state s = AUTH_STATE_VALIDATING
      then submit_password s = s
      else pw_repr (st_password (submit_password s)) [] \<or> st_halt (submit_password s) \<noteq> None \<or> st_halt s \<noteq> None"
proof -
  note r = pw_reprD [OF assms]
  have clr: "pw_repr (clear_password_buffer (st_password s)) []"
    using r(1,2) by (intro clear_password_buffer_repr) auto
  show ?thesis
    using clr pw_repr_empty_iff [OF assms]
    by (rule_tac send_request_cases [of "cancel_input_idle (cancel_password_clear
          (s\<lparr>st_input_state := INPUT_STATE_IDLE, st_auth_state := AUTH_STATE_VALIDATING\<rparr>))"])
       (auto simp: submit_password_def Let_def halt_with_def)
qed

text \<open>C17. Functional behaviour of the keys: a key edits the held text exactly as its meaning says (a character is appended if it fits,
  erased, or the text is cleared), keys without text leave it alone, and submitting leaves it empty, unless the submission is
  ignored (empty password with \<open>ignore-empty-password\<close>, or a check is running) or the process ends.\<close>

theorem handle_key_text:
  assumes "pw_repr (st_password s) cps"
  shows "let s' = swaylock_handle_key keysym codepoint s in
    (case key_action (x_control (st_xkb s)) keysym codepoint of
       No_edit \<Rightarrow> pw_repr (st_password s') cps
     | Edit e \<Rightarrow> pw_repr (st_password s') (edit_spec (pw_fits (st_password s) codepoint) e cps)
     | Submit \<Rightarrow>
         if (a_ignore_empty (st_args s) \<and> cps = []) \<or> st_auth_state s = AUTH_STATE_VALIDATING then s' = s
         else pw_repr (st_password s') [] \<or> st_halt s' \<noteq> None \<or> st_halt s \<noteq> None)"
proof -
  note r = pw_reprD [OF assms]
  have clear: "pw_repr (st_password (clear_by_key s)) []"
    using r(1,2) by (simp add: clear_by_key_def) (intro clear_password_buffer_repr, auto)
  have erase: "pw_repr (st_password (erase_by_key s)) (butlast cps)"
    using backspace_repr(1) [OF assms] by (simp add: erase_by_key_def split_beta Let_def)
  have neutral: "st_password (neutral_key s) = st_password s" by (simp add: neutral_key_def)
  have letter: "pw_repr (st_password (letter_key c s)) (if pw_fits (st_password s) c then cps @ [c] else cps)"
    if "c \<noteq> 0" for c using that append_ch_repr [OF assms that] by (simp add: letter_key_def)
  show ?thesis
  proof (cases "key_action (x_control (st_xkb s)) keysym codepoint")
    case Submit
    then show ?thesis using submit_text [OF assms] by (simp add: handle_key_by_action Let_def)
  next
    case (Edit e)
    then show ?thesis
      using clear erase letter key_action_append [of "x_control (st_xkb s)" keysym codepoint]
      by (cases e) (auto simp: handle_key_by_action Let_def)
  next
    case No_edit
    then show ?thesis using assms neutral by (simp add: handle_key_by_action Let_def)
  qed
qed

lemma handle_key_text_witness:
  "pw_repr (st_password (swaylock_handle_key 0x61 0x61 (initial_state quiet_world (replicate 1024 7) default_args))) [0x61]"
proof -
  let ?s = "initial_state quiet_world (replicate 1024 7) default_args"
  have "pw_repr (st_password ?s) []" by (simp add: initial_state_def initial_password_repr)
  note step = handle_key_text [OF this, of "0x61" "0x61"]
  have "key_action (x_control (st_xkb ?s)) 0x61 0x61 = Edit (Append 0x61)" by code_simp
  moreover have "pw_fits (st_password ?s) 0x61"
    by (simp add: initial_state_def initial_password_def pw_fits_def utf8_chsize_def)
  ultimately show ?thesis using step by (simp add: Let_def)
qed

text \<open>C29. An unanswered check can be overtaken: submitting does not cancel the timer that ends the
  "wrong password" message, so when that timer of an earlier failure fires during the check, the state falls back to
  idle while the request is still unanswered, and the next submission (which the validating state is
  there to refuse) writes another request.\<close>

theorem auth_idle_overtakes_check:
  assumes "lock_inv {} s" "st_halt s = None" "st_auth_state s = AUTH_STATE_INVALID"
    and "\<not> (a_ignore_empty (st_args s) \<and> pw_len (st_password s) = 0)"
    and "fst (send_request (cancel_input_idle (cancel_password_clear
           (s\<lparr>st_input_state := INPUT_STATE_IDLE, st_auth_state := AUTH_STATE_VALIDATING\<rparr>))))"
  shows "\<exists>t. st_auth_state (submit_password s) = AUTH_STATE_VALIDATING \<and>
    armed (st_eventloop (submit_password s)) t = Some Set_auth_idle \<and>
    st_auth_state (set_auth_idle (submit_password s)) = AUTH_STATE_IDLE"
proof -
  have inv: "timers_ok {} s" "typing_ok s" using assms(1,2) by (auto simp: lock_inv_def)
  let ?s1 = "cancel_input_idle (cancel_password_clear
      (s\<lparr>st_input_state := INPUT_STATE_IDLE, st_auth_state := AUTH_STATE_VALIDATING\<rparr>))"
  have t1: "timers_ok {} ?s1" using inv(1) by (intro preserves) simp
  obtain sent k where r: "send_request ?s1 = (True, ?s1\<lparr>st_password := clear_password_buffer (st_password ?s1),
      st_world := (st_world ?s1)\<lparr>w_calls := k\<rparr>, st_trace := st_trace ?s1 @ [Sys (Send_request sent)]\<rparr>)"
    using assms(5) by (rule_tac send_request_cases [of ?s1]) auto
  obtain t where t: "st_auth_idle_timer s = Some t" using inv(2) assms(3) by (auto simp: typing_ok_def)
  have "\<not> (a_ignore_empty (st_args s) \<and> pw_len (st_password s) = 0)" using assms(4) .
  then have sub: "submit_password s = damage_state (snd (send_request ?s1))"
    using r assms(2,3) unfolding submit_password_def Let_def by auto
  have "timers_ok {} (submit_password s)"
    unfolding sub using r t1 by simp
  moreover have "owner Set_auth_idle (submit_password s) = Some t" by (simp add: sub r t)
  ultimately have "armed (st_eventloop (submit_password s)) t = Some Set_auth_idle"
    by (auto simp: timers_ok_def tmr.tracks_but_def)
  moreover have "st_auth_state (submit_password s) = AUTH_STATE_VALIDATING" by (simp add: sub r)
  ultimately show ?thesis by (auto simp: set_auth_idle_def)
qed

lemma auth_idle_overtakes_check_witness:
  "\<exists>s t. st_auth_state (submit_password s) = AUTH_STATE_VALIDATING \<and>
    armed (st_eventloop (submit_password s)) t = Some Set_auth_idle \<and>
    st_auth_state (set_auth_idle (submit_password s)) = AUTH_STATE_IDLE"
proof -
  let ?w = "quiet_world\<lparr>w_ret := (\<lambda>k. if k = 0 then 8 else 1)\<rparr>"
  let ?s0 = "initial_state ?w (replicate 1024 7) default_args"
  let ?s = "?s0\<lparr>st_eventloop := snd (loop_add_timer zero_time 3000 Set_auth_idle loop_create),
      st_auth_idle_timer := Some 0, st_auth_state := AUTH_STATE_INVALID\<rparr>"
  have "timers_ok {} ?s"
    by (rule timers_ok_arm [OF timers_ok_initial [of ?w "replicate 1024 7" default_args],
          where cb = Set_auth_idle and now = zero_time and ms = 3000])
       (simp_all add: initial_state_def loop_create_def, case_tac cb', simp_all)
  then have inv: "lock_inv {} ?s"
    using initial_password_repr [of "replicate 1024 7"]
    by (auto simp: lock_inv_def typing_ok_def pw_inv_def initial_state_def initial_password_def)
  have wr: "\<exists>pw' sent k. write_comm_request (\<lambda>k. if k = 0 then 8 else 1) (initial_password mem) 0 = Some (IO_ok, pw', sent, k)"
    if "length mem = 1024" for mem
    using that by (simp add: write_comm_request_def write_full.simps [of _ _ 0] write_full.simps [of _ _ 8]
        write_full.simps [of _ _ "Suc 0"] initial_password_def size_bytes_def Let_def)
  have sent: "fst (send_request (cancel_input_idle (cancel_password_clear
      (?s\<lparr>st_input_state := INPUT_STATE_IDLE, st_auth_state := AUTH_STATE_VALIDATING\<rparr>))))"
    using wr [of "replicate 1024 7"]
    by (auto simp: send_request_def cancel_input_idle_def cancel_password_clear_def initial_state_def quiet_world_def
        emit_def Let_def)
  show ?thesis
    using auth_idle_overtakes_check [OF inv _ _ _ sent]
    by (intro exI [of _ ?s]) (simp add: initial_state_def default_args_def)
qed

end
