(* ===== verification/Seat.thy ===== *)
theory Seat
  imports Input
begin

section \<open>Keyboards and pointers (seat.c)\<close>

text \<open>
  The listeners of a seat.  What xkbcommon computes from the keymap (the symbol and the code point of a key,
  which layouts and modifiers are active) is an argument; positions are \<open>wl_fixed_t\<close> values, in 1/256 of a
  pixel.
\<close>

definition WL_SEAT_CAPABILITY_POINTER :: u32 where "WL_SEAT_CAPABILITY_POINTER = 1"
definition WL_SEAT_CAPABILITY_KEYBOARD :: u32 where "WL_SEAT_CAPABILITY_KEYBOARD = 2"

subsection \<open>Keyboard\<close>

datatype keymap_event = No_keymap | Xkb_v1 "(string option \<times> bool) list option"

text \<open>A keymap that cannot be mapped ends the program; \<open>map_fails\<close> is the outcome of \<open>mmap\<close>.  One
  that xkbcommon cannot compile (\<open>Xkb_v1 None\<close>) fails an assertion.\<close>

fun keyboard_keymap :: "keymap_event \<Rightarrow> bool \<Rightarrow> swaylock_state \<Rightarrow> swaylock_state" where
  "keyboard_keymap No_keymap map_fails s = s\<lparr>st_xkb := (st_xkb s)\<lparr>x_layouts := None\<rparr>\<rparr>"
| "keyboard_keymap (Xkb_v1 layouts) map_fails s =
     (if map_fails then halt_with (Exit 1) s
      else case layouts of
             None \<Rightarrow> halt_with Abort s
           | Some ls \<Rightarrow> s\<lparr>st_xkb := (st_xkb s)\<lparr>x_layouts := Some ls\<rparr>\<rparr>)"

definition stop_repeat :: "nat \<Rightarrow> swaylock_state \<Rightarrow> swaylock_state" where
  "stop_repeat i s =
     (case se_repeat_timer (st_seat s i) of
        None \<Rightarrow> s
      | Some t \<Rightarrow> on_seat i (\<lambda>k. k\<lparr>se_repeat_timer := None\<rparr>) (remove_timer t s))"

definition keyboard_leave :: "nat \<Rightarrow> swaylock_state \<Rightarrow> swaylock_state" where
  "keyboard_leave i s = stop_repeat i s"

definition start_repeat :: "nat \<Rightarrow> int \<Rightarrow> swaylock_state \<Rightarrow> swaylock_state" where
  "start_repeat i ms s =
     (let (t, s1) = add_timer ms (Keyboard_repeat i) s in on_seat i (\<lambda>k. k\<lparr>se_repeat_timer := Some t\<rparr>) s1)"

definition keyboard_repeat :: "nat \<Rightarrow> swaylock_state \<Rightarrow> swaylock_state" where
  "keyboard_repeat i s =
     (let s1 = start_repeat i (se_repeat_period_ms (st_seat s i)) s
      in swaylock_handle_key (se_repeat_sym (st_seat s1 i)) (se_repeat_codepoint (st_seat s1 i)) s1)"

definition keyboard_key :: "nat \<Rightarrow> u32 \<Rightarrow> u32 \<Rightarrow> bool \<Rightarrow> swaylock_state \<Rightarrow> swaylock_state" where
  "keyboard_key i keysym codepoint pressed s =
     (if x_layouts (st_xkb s) = None then s
      else if pressed \<and> st_grace_timer s \<noteq> None then s\<lparr>st_run_display := False\<rparr>
      else
        let s1 = (if pressed then swaylock_handle_key keysym codepoint s else s)
        in if st_halt s1 \<noteq> None then s1
           else
             let s2 = stop_repeat i s1
             in if pressed \<and> se_repeat_period_ms (st_seat s2 i) > 0
                then start_repeat i (se_repeat_delay_ms (st_seat s2 i))
                       (on_seat i (\<lambda>k. k\<lparr>se_repeat_sym := keysym, se_repeat_codepoint := codepoint\<rparr>) s2)
                else s2)"

text \<open>\<open>layouts\<close>, \<open>caps_lock\<close> and \<open>control\<close> are xkbcommon's answers after the update.\<close>

definition keyboard_modifiers ::
  "nat \<Rightarrow> (string option \<times> bool) list \<Rightarrow> bool \<Rightarrow> bool \<Rightarrow> swaylock_state \<Rightarrow> swaylock_state" where
  "keyboard_modifiers layout layouts caps_lock control s =
     (case x_layouts (st_xkb s) of
        None \<Rightarrow> s
      | Some old \<Rightarrow>
          let layout_same = (layout < length old \<and> snd (old ! layout));
              s1 = s\<lparr>st_xkb := (st_xkb s)\<lparr>x_layouts := Some layouts\<rparr>\<rparr>;
              s2 = (if caps_lock \<noteq> x_caps_lock (st_xkb s1) \<or> \<not> layout_same
                    then damage_state (s1\<lparr>st_xkb := (st_xkb s1)\<lparr>x_caps_lock := caps_lock\<rparr>\<rparr>) else s1)
          in s2\<lparr>st_xkb := (st_xkb s2)\<lparr>x_control := control\<rparr>\<rparr>)"

definition keyboard_repeat_info :: "nat \<Rightarrow> int \<Rightarrow> int \<Rightarrow> swaylock_state \<Rightarrow> swaylock_state" where
  "keyboard_repeat_info i rate delay =
     on_seat i (\<lambda>k. k\<lparr>se_repeat_period_ms := (if rate \<le> 0 then -1 else 1000 sdiv rate), se_repeat_delay_ms := delay\<rparr>)"

subsection \<open>Pointer\<close>

definition wl_pointer_enter :: "nat \<Rightarrow> int \<Rightarrow> int \<Rightarrow> swaylock_state \<Rightarrow> swaylock_state" where
  "wl_pointer_enter i x y s =
     (let s1 = emit (Up (Hide_cursor i)) s in
      if st_grace_timer s1 = None then s1
      else
        let (now, s2) = clock_gettime s1
        in on_seat i (\<lambda>k. k\<lparr>se_last_interval := tv_sec now, se_interval_start := (x, y), se_last_mouse := (x, y)\<rparr>) s2)"

definition wl_fixed_to_rat :: "int \<Rightarrow> rat" where
  "wl_fixed_to_rat f = of_int f / 256"

text \<open>The squared distance from where the pointer was at the beginning of the second, against the squared
  threshold.\<close>

definition deliberate_motion :: "swaylock_args \<Rightarrow> int \<times> int \<Rightarrow> int \<Rightarrow> int \<Rightarrow> bool" where
  "deliberate_motion args start x y \<longleftrightarrow>
     (let dx = wl_fixed_to_rat (x - fst start); dy = wl_fixed_to_rat (y - snd start); thresh = a_grace_pointer_hysteresis args
      in dx * dx + dy * dy \<ge> thresh * thresh)"

definition wl_pointer_motion :: "nat \<Rightarrow> int \<Rightarrow> int \<Rightarrow> swaylock_state \<Rightarrow> swaylock_state" where
  "wl_pointer_motion i x y s =
     (if st_grace_timer s = None then s
      else
        let (now, s1) = clock_gettime s;
            s2 = (if tv_sec now \<noteq> se_last_interval (st_seat s1 i)
                  then on_seat i (\<lambda>k. k\<lparr>se_last_interval := tv_sec now, se_interval_start := se_last_mouse k\<rparr>) s1 else s1);
            s3 = (if deliberate_motion (st_args s2) (se_interval_start (st_seat s2 i)) x y
                  then s2\<lparr>st_run_display := False\<rparr> else s2)
        in on_seat i (\<lambda>k. k\<lparr>se_last_mouse := (x, y)\<rparr>) s3)"

definition wl_pointer_button :: "swaylock_state \<Rightarrow> swaylock_state" where
  "wl_pointer_button s = (if st_grace_timer s \<noteq> None then s\<lparr>st_run_display := False\<rparr> else s)"

definition seat_handle_capabilities :: "nat \<Rightarrow> u32 \<Rightarrow> swaylock_state \<Rightarrow> swaylock_state" where
  "seat_handle_capabilities i caps =
     on_seat i (\<lambda>k. k\<lparr>se_pointer := (caps AND WL_SEAT_CAPABILITY_POINTER \<noteq> 0),
                      se_keyboard := (caps AND WL_SEAT_CAPABILITY_KEYBOARD \<noteq> 0)\<rparr>)"

end
