(* ===== verification/Locker.thy ===== *)
theory Locker
  imports Isolation Seat
begin

section \<open>The whole program (main.c)\<close>

text \<open>
  The callbacks of the event loop, the events of the compositor, the grace period, and the two main loops as a machine that
  takes one round of \<open>loop_poll\<close> per step.  What the sources deliver in a round is a \<open>round_input\<close>.
\<close>

definition EXIT_FAILURE :: int where "EXIT_FAILURE = 1"

subsection \<open>The password child, signals and the grace period\<close>

definition comm_in :: "u16 \<Rightarrow> byte list \<Rightarrow> swaylock_state \<Rightarrow> swaylock_state" where
  "comm_in mask_bits pipe s =
     (if mask_bits AND POLLIN \<noteq> 0 then
        (case read_comm_reply (w_ret (st_world s)) pipe (w_calls (st_world s)) of
           None \<Rightarrow> halt_with Hang s
         | Some (reply, rest, k) \<Rightarrow>
             let s1 = s\<lparr>st_world := (st_world s)\<lparr>w_calls := k\<rparr>\<rparr>
             in case reply of
                  None \<Rightarrow> halt_with (Exit EXIT_FAILURE) s1
                | Some auth_success \<Rightarrow>
                    if auth_success then s1\<lparr>st_run_display := False\<rparr>
                    else
                      let s2 = schedule_auth_idle (s1\<lparr>st_auth_state := AUTH_STATE_INVALID\<rparr>)
                      in damage_state (s2\<lparr>st_failed_attempts := st_failed_attempts s2 + 1\<rparr>))
      else if mask_bits AND (POLLHUP OR POLLERR) \<noteq> 0 then halt_with (Exit EXIT_FAILURE) s
      else s)"

definition term_in :: "swaylock_state \<Rightarrow> swaylock_state" where
  "term_in s = s\<lparr>st_run_display := False\<rparr>"

definition forget_sleep_pipe :: "swaylock_state \<Rightarrow> swaylock_state" where
  "forget_sleep_pipe s =
     (emit (Sys (Close (st_sleep_comm_w s))) (emit (Sys (Close (st_sleep_comm_r s))) s))
       \<lparr>st_sleep_comm_r := -1, st_sleep_comm_w := -1\<rparr>"

definition unwatch_sleep :: "swaylock_state \<Rightarrow> swaylock_state" where
  "unwatch_sleep s = on_loop (\<lambda>L. snd (loop_remove_fd (st_sleep_comm_r s) L)) s"

definition grace_timeout :: "swaylock_state \<Rightarrow> swaylock_state" where
  "grace_timeout s = forget_sleep_pipe (unwatch_sleep (s\<lparr>st_grace_timer := None\<rparr>))"

definition lock_in :: "swaylock_state \<Rightarrow> swaylock_state" where
  "lock_in s =
     (case st_grace_timer s of
        None \<Rightarrow> s
      | Some t \<Rightarrow> forget_sleep_pipe (unwatch_sleep ((remove_timer t s)\<lparr>st_grace_timer := None\<rparr>)))"

text \<open>The descriptor is removed from the loop after the field was reset.\<close>

definition sleep_in :: "swaylock_state \<Rightarrow> swaylock_state" where
  "sleep_in s =
     unwatch_sleep
       (case st_grace_timer s of
          None \<Rightarrow> s
        | Some t \<Rightarrow> forget_sleep_pipe ((remove_timer t s)\<lparr>st_grace_timer := None\<rparr>))"

subsection \<open>Events of the compositor\<close>

datatype upstream_event =
    Global_output nat u32
  | Global_optional optional_global
  | Global_remove u32
  | Output_geometry nat int int int int
  | Output_mode nat u32 int int
  | Output_done nat
  | Output_scale nat int
  | Output_name nat string
  | Output_description nat string
  | Output_desc_done nat
  | Session_locked
  | Session_finished
  | Lock_configure nat u32 u32 u32
  | Preferred_scale nat u32
  | Indicator_frame_done nat
  | Indicator_release nat nat
  | Plugin_frame_done nat
  | Plugin_buffer_release nat
  | Dmabuf_params_created nat
  | Dmabuf_params_failed nat
  | Keymap keymap_event bool
  | Keyboard_leave nat
  | Key nat u32 u32 bool
  | Modifiers nat "(string option \<times> bool) list" bool bool
  | Repeat_info nat int int
  | Pointer_enter nat int int
  | Pointer_motion nat int int
  | Pointer_button nat
  | Capabilities nat u32

text \<open>The colour description of an output is complete.\<close>

definition output_desc_done :: "nat \<Rightarrow> swaylock_state \<Rightarrow> swaylock_state" where
  "output_desc_done i s = init_surface_if_ready i (on_surface i (\<lambda>sf. sf\<lparr>sw_output_desc := Desc_current\<rparr>) s)"

definition ext_session_lock_v1_handle_locked :: "swaylock_state \<Rightarrow> swaylock_state" where
  "ext_session_lock_v1_handle_locked s = s\<lparr>st_locked := True\<rparr>"

definition ext_session_lock_v1_handle_finished :: "swaylock_state \<Rightarrow> swaylock_state" where
  "ext_session_lock_v1_handle_finished s = halt_with (Exit 2) s"

text \<open>No event arrives on an object that was destroyed or not made yet; the number of a new output is fresh.\<close>

definition at_output :: "nat \<Rightarrow> (nat \<Rightarrow> swaylock_state \<Rightarrow> swaylock_state) \<Rightarrow> swaylock_state \<Rightarrow> swaylock_state" where
  "at_output i f s = (if i \<in> set (st_surfaces s) then f i s else s)"

fun handle_upstream :: "(nat list \<Rightarrow> nat list) \<Rightarrow> upstream_event \<Rightarrow> swaylock_state \<Rightarrow> swaylock_state" where
  "handle_upstream by_id (Global_output i name) s = (if i \<in> set (st_surfaces s) then s else handle_global_output i name s)"
| "handle_upstream by_id (Global_optional g) s = handle_global_optional g s"
| "handle_upstream by_id (Global_remove name) s = handle_global_remove by_id name s"
| "handle_upstream by_id (Output_geometry i w h p t) s = at_output i (\<lambda>i. handle_wl_output_geometry i w h p t) s"
| "handle_upstream by_id (Output_mode i fl w h) s = at_output i (\<lambda>i. handle_wl_output_mode i fl w h) s"
| "handle_upstream by_id (Output_done i) s = at_output i handle_wl_output_done s"
| "handle_upstream by_id (Output_scale i f) s = at_output i (\<lambda>i. handle_wl_output_scale i f) s"
| "handle_upstream by_id (Output_name i n) s = at_output i (\<lambda>i. handle_wl_output_name i n) s"
| "handle_upstream by_id (Output_description i d) s = at_output i (\<lambda>i. handle_wl_output_description i d) s"
| "handle_upstream by_id (Output_desc_done i) s = at_output i output_desc_done s"
| "handle_upstream by_id Session_locked s = ext_session_lock_v1_handle_locked s"
| "handle_upstream by_id Session_finished s = ext_session_lock_v1_handle_finished s"
| "handle_upstream by_id (Lock_configure i n w h) s =
     at_output i (\<lambda>i s. if sw_ext_session_lock_surface (st_surface s i)
        then ext_session_lock_surface_v1_handle_configure i n w h s else s) s"
| "handle_upstream by_id (Preferred_scale i n) s = at_output i (\<lambda>i. fract_scale_preferred_scale i n) s"
| "handle_upstream by_id (Indicator_frame_done i) s = at_output i surface_frame_handle_done s"
| "handle_upstream by_id (Indicator_release i k) s = at_output i (\<lambda>i. buffer_release i k) s"
| "handle_upstream by_id (Plugin_frame_done g) s =
     (if fw_frame_callbacks (st_forward s) g = None then s else bg_frame_handle_done g s)"
| "handle_upstream by_id (Plugin_buffer_release b) s = handle_buffer_release b s"
| "handle_upstream by_id (Dmabuf_params_created r) s =
     (case find (\<lambda>x. rs_id x = r \<and> rs_kind x = K_dmabuf_params) (fw_resources (st_forward s)) of
        None \<Rightarrow> s
      | Some x \<Rightarrow> handle_dmabuf_params_created (rs_client x) r s)"
| "handle_upstream by_id (Dmabuf_params_failed r) s =
     (if kind_of s r = Some K_dmabuf_params then handle_dmabuf_params_failed r s else s)"
| "handle_upstream by_id (Keymap e fails) s = keyboard_keymap e fails s"
| "handle_upstream by_id (Keyboard_leave i) s = keyboard_leave i s"
| "handle_upstream by_id (Key i y c p) s = keyboard_key i y c p s"
| "handle_upstream by_id (Modifiers l ls caps ctl) s = keyboard_modifiers l ls caps ctl s"
| "handle_upstream by_id (Repeat_info i r d) s = keyboard_repeat_info i r d s"
| "handle_upstream by_id (Pointer_enter i x y) s = wl_pointer_enter i x y s"
| "handle_upstream by_id (Pointer_motion i x y) s = wl_pointer_motion i x y s"
| "handle_upstream by_id (Pointer_button i) s = wl_pointer_button s"
| "handle_upstream by_id (Capabilities i caps) s = seat_handle_capabilities i caps s"

subsection \<open>The callbacks\<close>

text \<open>\<open>ri_ready\<close> is what \<open>poll\<close> reports for each source; the other fields are what the sources hold.\<close>

record round_input =
  ri_flush_ok :: bool
  ri_poll :: poll_result
  ri_ready :: "fd_cb \<Rightarrow> u16"
  ri_upstream :: "upstream_event list"
  ri_upstream_ok :: bool
  ri_reply :: "byte list"
  ri_nested :: "client_event list"
  ri_clock :: timespec

definition display_in :: "(nat list \<Rightarrow> nat list) \<Rightarrow> upstream_event list \<Rightarrow> bool \<Rightarrow> swaylock_state \<Rightarrow> swaylock_state" where
  "display_in by_id events dispatch_ok s =
     run [run (map (handle_upstream by_id) events),
          (\<lambda>s. if dispatch_ok then s else s\<lparr>st_run_display := False\<rparr>)] s"

definition dispatch_nested :: "(nat list \<Rightarrow> nat list) \<Rightarrow> client_event list \<Rightarrow> swaylock_state \<Rightarrow> swaylock_state" where
  "dispatch_nested by_id events s =
     run [run (map (handle_client_event by_id) events),
          (\<lambda>s. if st_start_clientless_mode s then setup_clientless_mode s else s)] s"

fun run_fd :: "(nat list \<Rightarrow> nat list) \<Rightarrow> round_input \<Rightarrow> fd_cb \<Rightarrow> int \<Rightarrow> u16 \<Rightarrow> swaylock_state \<Rightarrow> swaylock_state" where
  "run_fd by_id inp Display_in fd m s = display_in by_id (ri_upstream inp) (ri_upstream_ok inp) s"
| "run_fd by_id inp Comm_in fd m s = comm_in m (ri_reply inp) s"
| "run_fd by_id inp Dispatch_nested fd m s = dispatch_nested by_id (ri_nested inp) s"
| "run_fd by_id inp Term_in fd m s = term_in s"
| "run_fd by_id inp Lock_in fd m s = lock_in s"
| "run_fd by_id inp Sleep_in fd m s = sleep_in s"

text \<open>A timer of a client or an output that was freed would use a dangling pointer.\<close>

fun run_timer :: "(nat list \<Rightarrow> nat list) \<Rightarrow> timer_cb \<Rightarrow> swaylock_state \<Rightarrow> swaylock_state" where
  "run_timer by_id Set_input_idle s = set_input_idle s"
| "run_timer by_id Set_auth_idle s = set_auth_idle s"
| "run_timer by_id Clear_password s = clear_password s"
| "run_timer by_id (Keyboard_repeat i) s = keyboard_repeat i s"
| "run_timer by_id (Client_connection_timeout c) s =
     (if c \<in> set (sv_clients (st_server s)) then client_connection_timeout by_id c s else halt_with Undefined s)"
| "run_timer by_id (Output_redraw_timeout i) s =
     (if i \<in> set (st_surfaces s) then output_redraw_timeout by_id i s else halt_with Undefined s)"
| "run_timer by_id Grace_timeout s = grace_timeout s"
| "run_timer by_id Hidden_check_timeout s = hidden_check_timeout s"

subsection \<open>The main loops\<close>

definition halted :: "swaylock_state \<Rightarrow> bool" where
  "halted s \<longleftrightarrow> st_halt s \<noteq> None"

definition poll_round :: "(nat list \<Rightarrow> nat list) \<Rightarrow> round_input \<Rightarrow> swaylock_state \<Rightarrow> swaylock_state" where
  "poll_round by_id inp s =
     loop_poll (run_fd by_id inp) (run_timer by_id) st_eventloop on_loop halted (halt_with (Exit EXIT_FAILURE)) (\<lambda>_ s. s)
       (ri_poll inp) (map (\<lambda>ev. ri_ready inp (fe_callback ev)) (fd_events (st_eventloop s))) (ri_clock inp) (ri_clock inp) s"

text \<open>The locker goes on in the child of the \<open>fork\<close>; the parent waits for one byte of it, and exits.\<close>

definition daemonize :: "swaylock_state \<Rightarrow> swaylock_state" where
  "daemonize s =
     (let (p, s1) = sys_ret s in
      if p \<noteq> 0 then halt_with (Exit 1) s1
      else
        let (f, s2) = sys_ret s1 in
        if f = 0 then
          let (d, s3) = sys_ret s2 in
          if d \<noteq> 0 then halt_with (Exit 1) s3
          else let (n, s4) = sys_ret s3 in if n \<noteq> 1 then halt_with (Exit 1) s4 else s4
        else
          let (n, s3) = sys_ret s2; (success, s4) = sys_ret s3
          in halt_with (Exit (if n \<noteq> 1 \<or> success = 0 then 1 else 0)) s4)"

text \<open>The helper that watches for a suspension, on two pipes; the result is the pair of the ends that the locker
  keeps.  The second pipe is not made when the first one failed.\<close>

definition two_pipes :: "swaylock_state \<Rightarrow> ((int \<times> int) \<times> int \<times> int) option \<times> swaylock_state" where
  "two_pipes s =
     (let (p1, s1) = sys_ret s in
      if p1 \<noteq> 0 then (None, s1)
      else
        let (r0, s2) = sys_ret s1; (r1, s3) = sys_ret s2; (p2, s4) = sys_ret s3
        in if p2 \<noteq> 0 then (None, s4)
           else let (w0, s5) = sys_ret s4; (w1, s6) = sys_ret s5 in (Some ((r0, r1), w0, w1), s6))"

definition close_fds :: "int list \<Rightarrow> swaylock_state \<Rightarrow> swaylock_state" where
  "close_fds = fold (\<lambda>fd. emit (Sys (Close fd)))"

definition start_sleep_watcher :: "swaylock_state \<Rightarrow> (int \<times> int) option \<times> swaylock_state" where
  "start_sleep_watcher s =
     (let (pipes, s1) = two_pipes s in
      case pipes of
        None \<Rightarrow> (None, s1)
      | Some ((r0, r1), w0, w1) \<Rightarrow>
          let (c1, s2) = set_cloexec s1; (c2, s3) = (if c1 then set_cloexec s2 else (False, s2)) in
          if \<not> c2 then (None, close_fds [r0, r1, w0, w1] s3)
          else
            let (sp, s4) = sys_ret s3 in
            if sp = -1 then (None, close_fds [r0, r1, w0, w1] s4)
            else (Some (r0, w1), close_fds [r1, w0] s4))"

definition grace_delay :: "rat \<Rightarrow> int" where
  "grace_delay grace_time = (let ms = \<lceil>grace_time * 1000\<rceil> in if ms \<ge> 2 ^ 31 - 1 then 2 ^ 31 - 1 else ms)"

definition start_grace :: "swaylock_state \<Rightarrow> swaylock_state" where
  "start_grace s =
     (if a_grace_time (st_args s) \<le> 0 then s
      else
        let (fds, s1) = start_sleep_watcher s
        in case fds of
             None \<Rightarrow> s1
           | Some (r, w) \<Rightarrow>
               let (t, s2) = add_timer (grace_delay (a_grace_time (st_args s1))) Grace_timeout s1
               in on_loop (loop_add_fd r POLLIN Sleep_in)
                    (s2\<lparr>st_sleep_comm_r := r, st_sleep_comm_w := w, st_grace_timer := Some t\<rparr>))"

definition announce_ready :: "swaylock_state \<Rightarrow> swaylock_state" where
  "announce_ready s =
     (if a_ready_fd (st_args s) < 0 then s
      else
        let (n, s1) = sys_ret (emit (Sys (Write_ready (a_ready_fd (st_args s)))) s)
        in if n \<noteq> 1 then halt_with (Exit 2) s1
           else (emit (Sys (Close (a_ready_fd (st_args s1)))) s1)\<lparr>st_args := (st_args s1)\<lparr>a_ready_fd := -1\<rparr>\<rparr>)"

definition post_lock :: "swaylock_state \<Rightarrow> swaylock_state" where
  "post_lock s =
     run [announce_ready, (\<lambda>s. if a_daemonize (st_args s) then daemonize s else s), start_grace, arm_hidden_check] s"

definition unlock_session :: "swaylock_state \<Rightarrow> swaylock_state" where
  "unlock_session s = halt_with (Exit 0) (emit (Up Unlock_and_destroy) (resume_all_clients s))"

text \<open>\<open>Locking\<close> is the loop that waits for the compositor's confirmation, \<open>Running\<close> the loop of the locked
  session, \<open>Done\<close> after the end of the second loop.\<close>

datatype phase = Locking | Running | Done

fun stays :: "phase \<Rightarrow> swaylock_state \<Rightarrow> bool" where
  "stays Locking s = (\<not> st_locked s \<and> st_run_display s)"
| "stays Running s = st_run_display s"
| "stays Done s = False"

fun leave :: "phase \<Rightarrow> swaylock_state \<Rightarrow> phase \<times> swaylock_state" where
  "leave Locking s = (Running, post_lock s)"
| "leave Running s = (Done, unlock_session s)"
| "leave Done s = (Done, s)"

definition main_step :: "(nat list \<Rightarrow> nat list) \<Rightarrow> round_input \<Rightarrow> phase \<times> swaylock_state \<Rightarrow> phase \<times> swaylock_state" where
  "main_step by_id inp m =
     (let (ph, s) = m in
      if halted s then m
      else if stays ph s \<and> ri_flush_ok inp then (ph, poll_round by_id inp s)
      else leave ph s)"

text \<open>What can be reached from \<open>m\<close> with inputs that satisfy \<open>P\<close>.\<close>

inductive reached ::
  "(nat list \<Rightarrow> nat list) \<Rightarrow> (round_input \<Rightarrow> bool) \<Rightarrow> phase \<times> swaylock_state \<Rightarrow> phase \<times> swaylock_state \<Rightarrow> bool"
  for by_id P m where
  reached_start: "reached by_id P m m"
| reached_step: "reached by_id P m m' \<Longrightarrow> P inp \<Longrightarrow> reached by_id P m (main_step by_id inp m')"

subsection \<open>Start\<close>

definition add_sources :: "swaylock_state \<Rightarrow> swaylock_state" where
  "add_sources s =
     fold (\<lambda>cb. on_loop (loop_add_fd (w_fd (st_world s) cb) POLLIN cb)) [Display_in, Comm_in, Dispatch_nested, Term_in, Lock_in] s"

text \<open>The last part of \<open>main\<close> before the loops, once the globals are bound: the sources, the lock surfaces, the
  command for all outputs.\<close>

definition start_program :: "swaylock_state \<Rightarrow> swaylock_state" where
  "start_program s =
     run [emit (Up Lock_session),
          add_sources,
          (\<lambda>s. s\<lparr>st_sleep_comm_r := -1, st_sleep_comm_w := -1\<rparr>),
          (\<lambda>s. run (map (\<lambda>i s. run [c_assert (\<not> sw_created (st_surface s i)), create_surface i] s) (st_surfaces s)) s),
          (\<lambda>s. if a_plugin_per_output (st_args s) then s
               else let (ok, s1) = run_plugin_command None s in if ok then s1 else setup_clientless_mode s1),
          (\<lambda>s. s\<lparr>st_run_display := True\<rparr>)] s"

end
