(* ===== verification/Session.thy ===== *)
theory Session
  imports Locker
begin

section \<open>The session stays locked\<close>

text \<open>
  Outside a grace period, only a reply of the password child, a signal, or the loss of the compositor ends the lock:
  every other callback keeps the session locked (\<open>keeps\<close>).  The callbacks of the timers also satisfy the
  contract of the event loop.
\<close>

definition unlocks :: "effect \<Rightarrow> bool" where
  "unlocks e \<longleftrightarrow> e = Up Unlock_and_destroy"

text \<open>\<open>keeps s s'\<close>: the loop, the trace and the end of the process evolve properly, no unlocking was asked for, and
  without a grace period there is still none and the main loop goes on as before; a loop that was told to end is
  not told to go on.\<close>

definition keeps :: "swaylock_state \<Rightarrow> swaylock_state \<Rightarrow> bool" where
  "keeps s s' \<longleftrightarrow>
     evolves s s' \<and> filter unlocks (st_trace s') = filter unlocks (st_trace s) \<and>
     (st_grace_timer s = None \<longrightarrow> st_grace_timer s' = None \<and> st_run_display s' = st_run_display s) \<and>
     (st_run_display s' \<longrightarrow> st_run_display s)"

named_theorems keeping

lemma keeps_refl [simp, keeping]: "keeps s s"
  by (simp add: keeps_def)

lemma keeps_trans: "keeps a b \<Longrightarrow> keeps b c \<Longrightarrow> keeps a c"
  using evolves_trans by (auto simp: keeps_def)

lemma unlocks_session: "filter unlocks (filter session_effect es) = filter unlocks es"
proof (induction es)
  case (Cons e es)
  have "session_effect e" if "unlocks e" using that by (simp add: unlocks_def)
  then show ?case using Cons by auto
qed simp

lemma untouched_keeps: "untouched s s' \<Longrightarrow> keeps s s'"
  using untouchedD [of s s'] unlocks_session [of "st_trace s"] unlocks_session [of "st_trace s'"]
  by (simp add: keeps_def untouched_def)

lemma keeps_then: "keeps s s' \<Longrightarrow> untouched s' s'' \<Longrightarrow> keeps s s''"
  using untouched_keeps keeps_trans by blast

lemma keeps_same:
  assumes "keeps s s'" and "st_eventloop s'' = st_eventloop s'" and "st_trace s'' = st_trace s'"
    and "st_halt s' \<noteq> None \<Longrightarrow> st_halt s'' \<noteq> None"
    and "st_grace_timer s' = None \<Longrightarrow> st_grace_timer s'' = None \<and> st_run_display s'' = st_run_display s'"
    and "st_run_display s'' \<Longrightarrow> st_run_display s'"
  shows "keeps s s''"
  using assms evolves_same [of s s' s''] by (simp add: keeps_def)

lemma keeps_fields [keeping]:
  assumes "keeps s s'"
  shows "keeps s (s'\<lparr>st_password := pw\<rparr>)" "keeps s (s'\<lparr>st_auth_state := a\<rparr>)" "keeps s (s'\<lparr>st_input_state := i\<rparr>)"
    "keeps s (s'\<lparr>st_failed_attempts := n\<rparr>)" "keeps s (s'\<lparr>st_xkb := x\<rparr>)" "keeps s (s'\<lparr>st_highlight_start := h\<rparr>)"
    "keeps s (s'\<lparr>st_input_idle_timer := t\<rparr>)" "keeps s (s'\<lparr>st_auth_idle_timer := t\<rparr>)"
    "keeps s (s'\<lparr>st_clear_password_timer := t\<rparr>)" "keeps s (s'\<lparr>st_hidden_check_timer := t\<rparr>)"
    "keeps s (s'\<lparr>st_surfaces := is\<rparr>)" "keeps s (s'\<lparr>st_world := w\<rparr>)" "keeps s (s'\<lparr>st_locked := l\<rparr>)"
    "keeps s (s'\<lparr>st_sleep_comm_r := r, st_sleep_comm_w := r'\<rparr>)" "keeps s (on_seat j k s')"
    "keeps s (s'\<lparr>st_grace_timer := None\<rparr>)" "keeps s (halt_with e s')"
    "keeps s (s'\<lparr>st_password := pw, st_world := w\<rparr>)" "keeps s (s'\<lparr>st_input_state := i, st_auth_state := a\<rparr>)"
  by (rule keeps_same [OF assms]; simp add: on_seat_def halt_with_def)+

lemma keeps_emit [keeping]: "\<not> unlocks e \<Longrightarrow> keeps s s' \<Longrightarrow> keeps s (emit e s')"
  using evolves_emit [of s s' e] by (simp add: keeps_def emit_def)

lemma keeps_isolated [keeping]:
  assumes "keeps s s'"
  shows "keeps s (remove_timer t s')" "keeps s (snd (add_timer ms cb s'))" "keeps s (on_surface i f s')"
    "keeps s (on_loop (\<lambda>L. snd (loop_remove_fd fd L)) s')" "keeps s (snd (clock_gettime s'))" "keeps s (snd (sys_ret s'))"
    "keeps s (next_call s')" "keeps s (set_client_paused c p s')" "keeps s (render i s')"
  by (rule keeps_then [OF assms]; intro isolation)+

lemma keeps_run [keeping]:
  assumes "keeps s s'" and "\<And>s' f. f \<in> set fs \<Longrightarrow> keeps s s' \<Longrightarrow> keeps s (f s')"
  shows "keeps s (run fs s')"
  using assms by (induction fs arbitrary: s') (auto simp: run.simps)

lemma keeps_fold [keeping]:
  assumes "keeps s s'" and "\<And>x s'. keeps s s' \<Longrightarrow> keeps s (f x s')"
  shows "keeps s (fold f xs s')"
  using assms by (induction xs arbitrary: s') auto

subsection \<open>Keyboard and pointer\<close>

lemma keeps_damage_surface [keeping]: "keeps s s' \<Longrightarrow> keeps s (damage_surface i s')"
  by (auto simp: damage_surface_def Let_def split_beta unlocks_def intro!: keeping split: option.split prod.split)

lemma keeps_damage_state [keeping]: "keeps s s' \<Longrightarrow> keeps s (damage_state s')"
  by (auto simp: damage_state_def Let_def split_beta unlocks_def intro!: keeping split: option.split prod.split)

lemma keeps_set_input_idle [keeping]:
  assumes "keeps s s'"
  shows "keeps s (set_input_idle s')" "keeps s (set_auth_idle s')" "keeps s (schedule_input_idle s')"
    "keeps s (cancel_input_idle s')" "keeps s (schedule_auth_idle s')" "keeps s (cancel_password_clear s')"
    "keeps s (schedule_password_clear s')"
  using assms
  by (auto simp: set_input_idle_def set_auth_idle_def schedule_input_idle_def cancel_input_idle_def
      schedule_auth_idle_def cancel_password_clear_def schedule_password_clear_def Let_def split_beta unlocks_def intro!: keeping split: option.split prod.split)

lemma keeps_clear_password [keeping]: "keeps s s' \<Longrightarrow> keeps s (clear_password s')"
  by (auto simp: clear_password_def Let_def split_beta unlocks_def intro!: keeping split: option.split prod.split)

lemma keeps_send_request [keeping]: "keeps s s' \<Longrightarrow> keeps s (snd (send_request s'))"
  by (auto simp: send_request_def Let_def unlocks_def intro!: keeping split: option.split)

lemma keeps_submit_password [keeping]:
  assumes "keeps s s'"
  shows "keeps s (submit_password s')" "keeps s (update_highlight s')" "keeps s (clear_by_key s')"
  using assms
  by (auto simp: submit_password_def update_highlight_def clear_by_key_def Let_def split_beta unlocks_def intro!: keeping split: option.split prod.split)

lemma keeps_erase_by_key [keeping]:
  assumes "keeps s s'"
  shows "keeps s (erase_by_key s')" "keeps s (neutral_key s')" "keeps s (letter_key c s')"
  using assms
  by (auto simp: erase_by_key_def neutral_key_def letter_key_def Let_def split_beta unlocks_def intro!: keeping split: option.split prod.split)

lemma keeps_handle_key [keeping]: "keeps s s' \<Longrightarrow> keeps s (swaylock_handle_key k c s')"
  by (auto simp: swaylock_handle_key_def Let_def intro!: keeping)

lemma keeps_keymap [keeping]: "keeps s s' \<Longrightarrow> keeps s (keyboard_keymap e b s')"
  by (cases e) (auto intro!: keeping split: option.split)

lemma keeps_stop_repeat [keeping]: "keeps s s' \<Longrightarrow> keeps s (stop_repeat i s')"
  by (auto simp: stop_repeat_def Let_def split_beta unlocks_def intro!: keeping split: option.split prod.split)

lemma keeps_keyboard_leave [keeping]:
  assumes "keeps s s'"
  shows "keeps s (keyboard_leave i s')" "keeps s (start_repeat i ms s')"
  using assms
  by (auto simp: keyboard_leave_def start_repeat_def Let_def split_beta unlocks_def intro!: keeping split: option.split prod.split)

lemma keeps_keyboard_repeat [keeping]:
  assumes "keeps s s'"
  shows "keeps s (keyboard_repeat i s')" "keeps s (keyboard_modifiers l ls b b2 s')"
    "keeps s (keyboard_repeat_info i r d s')" "keeps s (wl_pointer_enter i x y s')"
    "keeps s (seat_handle_capabilities i c s')"
  using assms
  by (auto simp: keyboard_repeat_def keyboard_modifiers_def keyboard_repeat_info_def wl_pointer_enter_def
      seat_handle_capabilities_def Let_def split_beta unlocks_def intro!: keeping split: option.split prod.split)

text \<open>In a grace period a key or the pointer ends the lock; there \<open>keeps\<close> asks nothing of the flag.\<close>

lemma keeps_grace_input: "keeps s s' \<Longrightarrow> st_grace_timer s' \<noteq> None \<Longrightarrow> keeps s (s'\<lparr>st_run_display := False\<rparr>)"
  using evolves_same [of s s' "s'\<lparr>st_run_display := False\<rparr>"] by (auto simp: keeps_def)

lemma keeps_keyboard_key [keeping]: "keeps s s' \<Longrightarrow> keeps s (keyboard_key i k c p s')"
  unfolding keyboard_key_def Let_def by (auto intro!: keeping keeps_grace_input)

lemma keeps_pointer_button [keeping]: "keeps s s' \<Longrightarrow> keeps s (wl_pointer_button s')"
  by (auto simp: wl_pointer_button_def intro: keeps_grace_input)

lemma keeps_pointer_motion [keeping]: "keeps s s' \<Longrightarrow> keeps s (wl_pointer_motion i x y s')"
  unfolding wl_pointer_motion_def Let_def split_beta
  by (auto intro!: keeping keeps_grace_input; simp add: clock_gettime_def next_call_def on_seat_def)

subsection \<open>Timers and outputs\<close>

lemma keeps_hidden_scan [keeping]: "keeps s s' \<Longrightarrow> keeps s (snd (hidden_scan is c b s'))"
proof (induction "is" arbitrary: b s')
  case (Cons i "is")
  then show ?case by (auto simp: Let_def split_beta intro!: keeping Cons.IH)
qed simp

lemma keeps_client_is_hidden [keeping]: "keeps s s' \<Longrightarrow> keeps s (snd (client_is_hidden c s'))"
  by (auto simp: client_is_hidden_def Let_def split_beta unlocks_def intro!: keeping split: option.split prod.split)

lemma keeps_check_client [keeping]:
  assumes "keeps s s'"
  shows "keeps s (check_client c s')" "keeps s (arm_hidden_check s')"
  using assms
  by (auto simp: check_client_def arm_hidden_check_def Let_def split_beta unlocks_def intro!: keeping split: option.split prod.split)

lemma keeps_hidden_check_timeout [keeping]:
  assumes "keeps s s'"
  shows "keeps s (hidden_check_timeout s')" "keeps s (forget_sleep_pipe s')" "keeps s (unwatch_sleep s')"
  using assms
  by (auto simp: hidden_check_timeout_def forget_sleep_pipe_def unwatch_sleep_def Let_def split_beta unlocks_def intro!: keeping split: option.split prod.split)

lemma keeps_grace_timeout [keeping]:
  assumes "keeps s s'"
  shows "keeps s (grace_timeout s')" "keeps s (lock_in s')" "keeps s (sleep_in s')"
    "keeps s (ext_session_lock_v1_handle_locked s')" "keeps s (ext_session_lock_v1_handle_finished s')"
    "keeps s (surface_frame_handle_done i s')" "keeps s (set_indicator_buffer i k b s')"
  using assms
  by (auto simp: grace_timeout_def lock_in_def sleep_in_def ext_session_lock_v1_handle_locked_def
      ext_session_lock_v1_handle_finished_def surface_frame_handle_done_def set_indicator_buffer_def Let_def split_beta unlocks_def intro!: keeping split: option.split prod.split)

lemma keeps_buffer_release [keeping]: "keeps s s' \<Longrightarrow> keeps s (buffer_release i k s')"
  by (auto simp: buffer_release_def Let_def split_beta unlocks_def intro!: keeping split: option.split prod.split)

lemma untouched_desc_done [isolation]: "untouched s s' \<Longrightarrow> untouched s (output_desc_done i s')"
  by (auto simp: output_desc_done_def intro!: isolation)

lemma keeps_removal [keeping]:
  assumes "keeps s s'"
  shows "keeps s (close_plugin_surface i s')" "keeps s (drop_output_client by_id i s')"
    "keeps s (retire_output_objects i s')" "keeps s (release_output i s')"
  by (rule keeps_then [OF assms]; intro isolation)+

lemma keeps_drops [keeping]:
  assumes "keeps s s'"
  shows "keeps s (drop_frame_callback i s')" "keeps s (drop_submission_timer i s')"
  using assms by (auto simp: drop_frame_callback_def drop_submission_timer_def unlocks_def intro!: keeping split: option.split)

lemma keeps_destroy_surface [keeping]: "keeps s s' \<Longrightarrow> keeps s (destroy_surface by_id i s')"
  by (auto simp: destroy_surface_def intro!: keeping)

lemma keeps_global_remove [keeping]: "keeps s s' \<Longrightarrow> keeps s (handle_global_remove by_id n s')"
  by (auto simp: handle_global_remove_def intro!: keeping split: option.split)

lemma keeps_outputs [keeping]:
  assumes "keeps s s'"
  shows "keeps s (handle_wl_output_geometry i w h p t s')" "keeps s (handle_wl_output_mode i fl w h s')"
    "keeps s (handle_wl_output_done i s')" "keeps s (handle_wl_output_scale i v s')"
    "keeps s (handle_wl_output_name i n s')" "keeps s (handle_wl_output_description i d s')"
    "keeps s (output_desc_done i s')" "keeps s (setup_color_management_for_surface i s')"
    "keeps s (handle_global_optional g s')" "keeps s (ext_session_lock_surface_v1_handle_configure i u w' h' s')"
    "keeps s (fract_scale_preferred_scale i u s')" "keeps s (bg_frame_handle_done k s')" "keeps s (handle_buffer_release k s')"
    "keeps s (handle_dmabuf_params_created k' k s')" "keeps s (handle_dmabuf_params_failed k s')"
  by (rule keeps_then [OF assms]; intro isolation; simp)+

lemma keeps_global_output [keeping]: "keeps s s' \<Longrightarrow> keeps s (handle_global_output i n s')"
  by (auto simp: handle_global_output_def Let_def intro!: keeping)

lemma keeps_at_output [keeping]: "keeps s s' \<Longrightarrow> keeps s (f i s') \<Longrightarrow> keeps s (at_output i f s')"
  by (simp add: at_output_def)

lemma keeps_upstream [keeping]: "keeps s s' \<Longrightarrow> keeps s (handle_upstream by_id e s')"
  by (cases e) (auto intro!: keeping split: option.split)

lemma keeps_client_event [keeping]: "keeps s s' \<Longrightarrow> keeps s (handle_client_event by_id e s')"
  by (rule keeps_then) (auto intro: isolation)

lemma keeps_nested [keeping]: "keeps s s' \<Longrightarrow> keeps s (dispatch_nested by_id es s')"
  by (rule keeps_then) (auto simp: dispatch_nested_def intro!: isolation)

lemma keeps_client_timers [keeping]:
  assumes "keeps s s'"
  shows "keeps s (client_connection_timeout by_id c s')" "keeps s (output_redraw_timeout by_id i s')"
  by (rule keeps_then [OF assms]; intro isolation)+

lemma keeps_timer [keeping]: "keeps s s' \<Longrightarrow> keeps s (run_timer by_id cb s')"
  by (cases cb) (auto intro!: keeping)


subsection \<open>The contract of the event loop\<close>

interpretation host: loop_host st_eventloop on_loop halted "run_timer by_id" for by_id
proof
  fix cb s
  have "evolves s (run_timer by_id cb s)" using keeps_timer [of s s by_id cb] by (simp add: keeps_def)
  then show "\<exists>cs. st_eventloop (run_timer by_id cb s) = fold do_call cs (st_eventloop s)"
    and "halted s \<Longrightarrow> halted (run_timer by_id cb s)" by (simp_all add: evolves_def halted_def)
qed (simp_all add: on_loop_def halted_def)

lemma evolves_loop_ok: "evolves s s' \<Longrightarrow> loop_ok (st_eventloop s) \<Longrightarrow> loop_ok (st_eventloop s')"
  by (auto simp: evolves_def intro: loop_calls_ok)

text \<open>No signal was delivered: the entry of the signal pipe has nothing to report.\<close>

definition term_silent :: "('t, fd_cb) event_loop \<Rightarrow> bool" where
  "term_silent L \<longleftrightarrow>
     (\<forall>n < length (fd_events L). fe_callback (fd_events L ! n) = Term_in \<longrightarrow> pfd_revents (fds L ! n) = 0)"

lemma remove_fd_scan_nth:
  "n < length evs \<Longrightarrow> fe_callback (snd (remove_fd_scan fd ps evs) ! n) = fe_callback (evs ! n)"
proof (induction fd ps evs arbitrary: n rule: remove_fd_scan.induct)
  case (1 fd p ps ev evs)
  then show ?case by (cases n) (auto simp: split_beta)
qed auto

lemma term_silent_call: "loop_ok L \<Longrightarrow> term_silent L \<Longrightarrow> term_silent (do_call c L)"
proof (cases c)
  case (Remove_fd fd)
  assume "loop_ok L" "term_silent L"
  then show ?thesis using Remove_fd
    by (auto simp: term_silent_def loop_remove_fd_def split_beta remove_fd_scan_nth)
qed (auto simp: term_silent_def loop_add_fd_def loop_add_timer_def loop_remove_timer_def split_beta nth_append loop_ok_def)

lemma term_silent_calls: "loop_ok L \<Longrightarrow> term_silent L \<Longrightarrow> term_silent (fold do_call cs L)"
  by (induction cs arbitrary: L) (auto intro: term_silent_call loop_call_ok)

lemma set_revents_nth:
  "length rs = length ps \<Longrightarrow> n < length ps \<Longrightarrow> set_revents rs ps ! n = (ps ! n)\<lparr>pfd_revents := rs ! n\<rparr>"
proof (induction rs ps arbitrary: n rule: set_revents.induct)
  case (1 r rs p ps)
  then show ?case by (cases n) auto
qed auto

lemma set_revents_length [simp]: "length (set_revents rs ps) = length ps"
  by (induction rs ps rule: set_revents.induct) auto

subsection \<open>Replies of the password child\<close>

lemma read_full_prefix:
  assumes "read_full ret len buf pipe k = Some r"
  shows "fst r = IO_ok \<longrightarrow> fst (snd r) @ fst (snd (snd r)) = buf @ pipe \<and> len \<le> length (fst (snd r))"
  using assms
proof (induction rule: read_full.raw_induct [rotated, consumes 1, case_names 1])
  case (1 self ret len buf pipe k r)
  consider (full) "\<not> length buf < len" | (more) "length buf < len" "ret k > 0" | (again) "length buf < len" "ret k = - EINTR"
    | (stop) "length buf < len" "ret k \<le> 0" "ret k \<noteq> - EINTR" by linarith
  then show ?case
  proof cases
    case full
    then show ?thesis using 1(2) by auto
  next
    case more
    then have "self ret len (buf @ take (nat (ret k)) pipe) (drop (nat (ret k)) pipe) (Suc k) = Some r"
      using 1(2) by (simp add: Let_def)
    from 1(1) [OF this] show ?thesis by simp
  next
    case again
    then have "self ret len buf pipe (Suc k) = Some r" using 1(2) by (simp add: Let_def EINTR_def)
    from 1(1) [OF this] show ?thesis .
  next
    case stop
    then show ?thesis using 1(2) by (auto simp: Let_def split: if_splits)
  qed
qed

lemma read_reply_byte:
  assumes "read_comm_reply ret pipe k = Some (Some b, rest, k')"
  shows "pipe \<noteq> [] \<and> b = (hd pipe \<noteq> 0)"
proof -
  obtain buf pipe1 k1 where r: "read_full ret 1 [] pipe k = Some (IO_ok, buf, pipe1, k1)" "b = (buf ! 0 \<noteq> 0)"
    using assms by (auto simp: read_comm_reply_def split: option.splits if_splits)
  from read_full_prefix [OF r(1)] have "buf @ pipe1 = pipe" "buf \<noteq> []" by auto
  then show ?thesis using r(2) by (cases buf) auto
qed

text \<open>The reply to be read, if any, is a refusal.\<close>

definition refuses :: "byte list \<Rightarrow> bool" where
  "refuses pipe \<longleftrightarrow> pipe = [] \<or> hd pipe = 0"

lemma keeps_comm_in:
  assumes "refuses pipe" shows "keeps s (comm_in m pipe s)"
proof -
  have "read_comm_reply r pipe k \<noteq> Some (Some True, rest, k')" for r k rest k'
    using read_reply_byte [of r pipe k True rest k'] assms by (auto simp: refuses_def)
  then have "reply \<noteq> Some True" if "read_comm_reply r pipe k = Some (reply, rest, k')" for r k reply rest k'
    using that by auto
  then show ?thesis
    by (fastforce simp: comm_in_def Let_def intro!: keeping split: option.split)
qed

subsection \<open>One round\<close>

text \<open>Inputs without an acceptance, a signal or the loss of the compositor.\<close>

definition innocent :: "round_input \<Rightarrow> bool" where
  "innocent inp \<longleftrightarrow> ri_flush_ok inp \<and> ri_upstream_ok inp \<and> ri_ready inp Term_in = 0 \<and> refuses (ri_reply inp)"

lemma keeps_run_fd:
  assumes "innocent inp" "cb \<noteq> Term_in" shows "keeps s (run_fd by_id inp cb fd m s)"
proof (cases cb)
  case Display_in
  then show ?thesis using assms by (auto simp: innocent_def display_in_def intro!: keeping)
qed (use assms in \<open>auto simp: innocent_def intro!: keeping keeps_comm_in\<close>)

text \<open>\<open>locked_ok\<close>: the main loop goes on, there is no grace period, and nothing asked to unlock.\<close>

definition locked_ok :: "swaylock_state \<Rightarrow> bool" where
  "locked_ok s \<longleftrightarrow> st_run_display s \<and> st_grace_timer s = None \<and> filter unlocks (st_trace s) = [] \<and> loop_ok (st_eventloop s)"

lemma locked_ok_keeps: "keeps s s' \<Longrightarrow> locked_ok s \<Longrightarrow> locked_ok s'"
  by (auto simp: keeps_def locked_ok_def intro: evolves_loop_ok)

lemma locked_ok_loop: "locked_ok s \<Longrightarrow> (loop_ok (st_eventloop s) \<Longrightarrow> loop_ok (f (st_eventloop s))) \<Longrightarrow> locked_ok (on_loop f s)"
  by (simp add: locked_ok_def on_loop_def)

lemma dispatch_fd_locked:
  assumes "innocent inp" "locked_ok s" "term_silent (st_eventloop s)" "i < length (fd_events (st_eventloop s))"
  shows "locked_ok (dispatch_fd (run_fd by_id inp) st_eventloop halted i s) \<and>
    term_silent (st_eventloop (dispatch_fd (run_fd by_id inp) st_eventloop halted i s)) \<and>
    length (fd_events (st_eventloop s)) \<le> length (fd_events (st_eventloop (dispatch_fd (run_fd by_id inp) st_eventloop halted i s)))"
proof -
  let ?ev = "fd_events (st_eventloop s) ! i" and ?p = "fds (st_eventloop s) ! i"
  have quiet: "pfd_revents ?p = 0" if "fe_callback ?ev = Term_in" using assms(3,4) that by (simp add: term_silent_def)
  have calls: "length (fd_events L) \<le> length (fd_events (fold do_call cs L))" for L :: "(timer_cb, fd_cb) event_loop" and cs
  proof (induction cs arbitrary: L)
    case (Cons c cs)
    have "length (fd_events L) \<le> length (fd_events (do_call c L))"
      by (cases c) (auto simp: loop_add_fd_def loop_remove_fd_def loop_add_timer_def loop_remove_timer_def split_beta)
    then show ?case using Cons.IH [of "do_call c L"] by simp
  qed simp
  have step: "locked_ok s' \<and> term_silent (st_eventloop s') \<and> length (fd_events (st_eventloop s)) \<le> length (fd_events (st_eventloop s'))"
    if k: "keeps s s'" for s'
  proof -
    obtain cs where "st_eventloop s' = fold do_call cs (st_eventloop s)" using k by (auto simp: keeps_def evolves_def)
    moreover have "locked_ok s'" by (rule locked_ok_keeps [OF k assms(2)])
    moreover have "loop_ok (st_eventloop s)" using assms(2) by (simp add: locked_ok_def)
    ultimately show ?thesis using assms(3) term_silent_calls [of "st_eventloop s" cs] calls [of "st_eventloop s" cs] by simp
  qed
  show ?thesis
    using step [OF keeps_run_fd [OF assms(1)]] step [OF keeps_refl] quiet
    by (cases "fe_callback ?ev = Term_in") (simp_all add: dispatch_fd_def Let_def)
qed

lemma dispatch_fds_locked:
  assumes "innocent inp" "locked_ok s" "term_silent (st_eventloop s)"
  shows "locked_ok (dispatch_fds (run_fd by_id inp) st_eventloop halted s)"
proof -
  have "locked_ok (fold (dispatch_fd (run_fd by_id inp) st_eventloop halted) is s)"
    if "\<forall>i \<in> set is. i < length (fd_events (st_eventloop s))" "locked_ok s" "term_silent (st_eventloop s)" for "is" s
    using that
  proof (induction "is" arbitrary: s)
    case (Cons i "is")
    have "i < length (fd_events (st_eventloop s))" using Cons.prems(1) by simp
    note d = dispatch_fd_locked [OF assms(1) Cons.prems(2,3) this, of by_id]
    then show ?case using Cons.prems(1) by (auto intro!: Cons.IH)
  qed simp
  then show ?thesis using assms by (simp add: dispatch_fds_def)
qed

lemma poll_round_locked:
  assumes "innocent inp" "locked_ok s" shows "locked_ok (poll_round by_id inp s)"
proof -
  define s1 where "s1 = on_loop (\<lambda>L. L\<lparr>fds := set_revents (map (\<lambda>ev. ri_ready inp (fe_callback ev)) (fd_events (st_eventloop s))) (fds L)\<rparr>) s"
  have len: "length (fds (st_eventloop s)) = length (fd_events (st_eventloop s))" using assms(2) by (simp add: locked_ok_def loop_ok_def)
  have s1: "locked_ok s1" unfolding s1_def by (rule locked_ok_loop [OF assms(2)]) (simp add: loop_ok_def)
  have "term_silent (st_eventloop s1)"
    using assms(1) len by (simp add: term_silent_def s1_def on_loop_def set_revents_nth innocent_def)
  from dispatch_fds_locked [OF assms(1) s1 this]
  have s2: "locked_ok (dispatch_fds (run_fd by_id inp) st_eventloop halted s1)" .
  have timers: "locked_ok (dispatch_timers (run_timer by_id) st_eventloop on_loop halted now x)" if "locked_ok x" for x now
  proof (rule host.dispatch_invariant [where I = locked_ok])
    fix s t cb assume i: "locked_ok s"
    have r: "locked_ok (run_timer by_id cb s)" by (rule locked_ok_keeps [OF keeps_timer [OF keeps_refl] i])
    show "(halted (run_timer by_id cb s) \<longrightarrow> locked_ok (run_timer by_id cb s)) \<and>
        (\<not> halted (run_timer by_id cb s) \<longrightarrow> locked_ok (on_loop (free_timer t) (run_timer by_id cb s)))"
      using r locked_ok_loop [of _ "free_timer t", OF r loop_ok_free_timer] by blast
  next
    fix s t assume "locked_ok s" then show "locked_ok (on_loop (free_timer t) s)"
      by (rule locked_ok_loop) (rule loop_ok_free_timer)
  qed (rule that)
  have failed: "locked_ok (halt_with h s)" for h using assms(2) by (simp add: locked_ok_def halt_with_def)
  show ?thesis
    using failed s2 timers [OF locked_ok_loop [of _ sweep_fds, OF s2 sweep_fds_ok]]
    by (simp add: poll_round_def loop_poll_def s1_def [symmetric] Let_def)
qed



end
