(* ===== verification/Wiring.thy ===== *)
theory Wiring
  imports Session
begin

section \<open>The wiring of outputs, clients and timers\<close>

text \<open>
  The program keeps what belongs together in pairs of fields that refer to each other: an output and its client, the
  server and its main client, a structure and its armed timer.  \<open>linked\<close> says that these references agree, and
  \<open>wired\<close> adds the invariants of the timers and of typing.  Every callback keeps \<open>wired\<close>, and theory
  WellFormed concludes that it holds of whatever the program reaches from its start.
\<close>

text \<open>\<open>E\<close> holds an output that is being made or destroyed, \<open>X\<close> the identifiers of timers that are no
  longer armed (or whose callback is running): the field of a freed output still holds one.\<close>

definition linked :: "nat set \<Rightarrow> nat set \<Rightarrow> swaylock_state \<Rightarrow> bool" where
  "linked E X s \<longleftrightarrow>
     distinct (sv_clients (st_server s)) \<and>
     (\<forall>c \<in> set (sv_clients (st_server s)). c < sv_next_client (st_server s) \<and> bc_client (client s c) = c) \<and>
     (\<forall>c \<in> set (sv_clients (st_server s)). \<forall>i. bc_unique_output (client s c) = Some i \<longrightarrow>
        sw_client (st_surface s i) = Some c \<and> i \<in> set (st_surfaces s) \<union> E) \<and>
     (\<forall>c \<in> set (sv_clients (st_server s)). bc_unique_output (client s c) = None \<longrightarrow> sv_main_client (st_server s) = Some c) \<and>
     (\<forall>i c. sw_client (st_surface s i) = Some c \<longrightarrow>
        c \<in> set (sv_clients (st_server s)) \<and> bc_unique_output (client s c) = Some i) \<and>
     (\<forall>c. sv_main_client (st_server s) = Some c \<longrightarrow>
        c \<in> set (sv_clients (st_server s)) \<and> bc_unique_output (client s c) = None) \<and>
     (\<forall>i \<in> set (st_surfaces s) - E. \<not> sw_created (st_surface s i) \<longrightarrow>
        sw_client_submission_timer (st_surface s i) = None \<and> \<not> sw_ext_session_lock_surface (st_surface s i)) \<and>
     (\<forall>i t. i \<notin> set (st_surfaces s) \<and> sw_client_submission_timer (st_surface s i) = Some t \<longrightarrow> t \<in> X)"

definition wired :: "nat set \<Rightarrow> nat set \<Rightarrow> swaylock_state \<Rightarrow> bool" where
  "wired X E s \<longleftrightarrow> lock_inv X s \<and> (st_halt s = None \<longrightarrow> linked E X s)"

named_theorems wiring

lemma linkedD:
  assumes "linked E X s"
  shows "distinct (sv_clients (st_server s))"
    "c \<in> set (sv_clients (st_server s)) \<Longrightarrow> c < sv_next_client (st_server s)"
    "c \<in> set (sv_clients (st_server s)) \<Longrightarrow> bc_client (client s c) = c"
    "c \<in> set (sv_clients (st_server s)) \<Longrightarrow> bc_unique_output (client s c) = Some i \<Longrightarrow>
       sw_client (st_surface s i) = Some c \<and> i \<in> set (st_surfaces s) \<union> E"
    "c \<in> set (sv_clients (st_server s)) \<Longrightarrow> bc_unique_output (client s c) = None \<Longrightarrow> sv_main_client (st_server s) = Some c"
    "sw_client (st_surface s i) = Some c \<Longrightarrow> c \<in> set (sv_clients (st_server s)) \<and> bc_unique_output (client s c) = Some i"
    "sv_main_client (st_server s) = Some c \<Longrightarrow> c \<in> set (sv_clients (st_server s)) \<and> bc_unique_output (client s c) = None"
    "i \<in> set (st_surfaces s) \<Longrightarrow> i \<notin> E \<Longrightarrow> \<not> sw_created (st_surface s i) \<Longrightarrow>
       sw_client_submission_timer (st_surface s i) = None \<and> \<not> sw_ext_session_lock_surface (st_surface s i)"
    "i \<notin> set (st_surfaces s) \<Longrightarrow> sw_client_submission_timer (st_surface s i) = Some t \<Longrightarrow> t \<in> X"
  using assms unfolding linked_def by blast+

lemma linkedI:
  assumes "distinct (sv_clients (st_server s))"
    and "\<And>c. c \<in> set (sv_clients (st_server s)) \<Longrightarrow> c < sv_next_client (st_server s) \<and> bc_client (client s c) = c"
    and "\<And>c i. c \<in> set (sv_clients (st_server s)) \<Longrightarrow> bc_unique_output (client s c) = Some i \<Longrightarrow>
       sw_client (st_surface s i) = Some c \<and> i \<in> set (st_surfaces s) \<union> E"
    and "\<And>c. c \<in> set (sv_clients (st_server s)) \<Longrightarrow> bc_unique_output (client s c) = None \<Longrightarrow> sv_main_client (st_server s) = Some c"
    and "\<And>i c. sw_client (st_surface s i) = Some c \<Longrightarrow> c \<in> set (sv_clients (st_server s)) \<and> bc_unique_output (client s c) = Some i"
    and "\<And>c. sv_main_client (st_server s) = Some c \<Longrightarrow> c \<in> set (sv_clients (st_server s)) \<and> bc_unique_output (client s c) = None"
    and "\<And>i. i \<in> set (st_surfaces s) \<Longrightarrow> i \<notin> E \<Longrightarrow> \<not> sw_created (st_surface s i) \<Longrightarrow>
       sw_client_submission_timer (st_surface s i) = None \<and> \<not> sw_ext_session_lock_surface (st_surface s i)"
    and "\<And>i t. i \<notin> set (st_surfaces s) \<Longrightarrow> sw_client_submission_timer (st_surface s i) = Some t \<Longrightarrow> t \<in> X"
  shows "linked E X s"
  using assms unfolding linked_def by blast

lemma same_linksD:
  assumes "same_links s s'"
  shows "sw_client (st_surface s' i) = sw_client (st_surface s i)"
    "sw_client_submission_timer (st_surface s' i) = sw_client_submission_timer (st_surface s i)"
    "sw_created (st_surface s' i) = sw_created (st_surface s i)"
    "sw_ext_session_lock_surface (st_surface s' i) = sw_ext_session_lock_surface (st_surface s i)"
    "bc_client (client s' c) = bc_client (client s c)"
    "bc_unique_output (client s' c) = bc_unique_output (client s c)"
    "bc_client_connect_timer (client s' c) = bc_client_connect_timer (client s c)"
    "sv_clients (st_server s') = sv_clients (st_server s)" "sv_main_client (st_server s') = sv_main_client (st_server s)"
    "sv_next_client (st_server s') = sv_next_client (st_server s)"
  using assms by (simp_all add: same_links_def)

lemma same_links_sym: "same_links s s' \<Longrightarrow> same_links s' s"
  by (simp add: same_links_def)

lemma linked_same:
  assumes "same_links s s'" "st_surfaces s' = st_surfaces s" "linked E X s"
  shows "linked E X s'"
  using assms(3) unfolding linked_def same_linksD [OF assms(1)] assms(2) .

lemma plainD:
  assumes "plain s s'"
  shows "same_links s s'" "st_surfaces s' = st_surfaces s" "st_eventloop s' = st_eventloop s" "owner cb s' = owner cb s"
    "typing_ok s' = typing_ok s" "st_halt s \<noteq> None \<Longrightarrow> st_halt s' \<noteq> None" "timers_ok X s' = timers_ok X s"
    "linked E X s' = linked E X s"
proof -
  note u = untouchedD [OF plain_untouched [OF assms]]
  show l: "same_links s s'" and e: "st_eventloop s' = st_eventloop s" and "st_halt s \<noteq> None \<Longrightarrow> st_halt s' \<noteq> None"
    using assms unfolding plain_def by blast+
  show sf: "st_surfaces s' = st_surfaces s" by (rule u)
  show o: "owner cb s' = owner cb s" for cb by (cases cb) (simp_all only: owner.simps u same_linksD [OF l])
  show "typing_ok s' = typing_ok s" by (simp only: typing_ok_def u)
  show "timers_ok X s' = timers_ok X s" unfolding timers_ok_def e o ..
  show "linked E X s' = linked E X s"
    using linked_same [OF l sf] linked_same [OF same_links_sym [OF l] sf [symmetric]] by blast
qed

lemma timers_okD:
  assumes "timers_ok X s" "owner cb s = Some t"
  shows "t \<notin> X" "armed (st_eventloop s) t = Some cb"
  using assms unfolding timers_ok_def tmr.tracks_but_def by blast+

lemma wiredI:
  assumes "wired X E s" and "st_halt s \<noteq> None \<Longrightarrow> st_halt s' \<noteq> None"
    and "st_halt s = None \<Longrightarrow> st_halt s' = None \<Longrightarrow> timers_ok X s \<Longrightarrow> typing_ok s \<Longrightarrow> linked E X s \<Longrightarrow>
      timers_ok Y s' \<and> typing_ok s' \<and> linked F Y s'"
  shows "wired Y F s'"
  using assms unfolding wired_def lock_inv_def by blast

lemma wired_plain: "plain s s' \<Longrightarrow> wired X E s \<Longrightarrow> wired X E s'"
  using plainD [of s s'] unfolding wired_def lock_inv_def by metis

lemma wired_halted: "st_halt s \<noteq> None \<Longrightarrow> wired X E s"
  by (auto simp: wired_def lock_inv_def)

lemmas wired_frames [wiring] = frames [OF plain_refl, THEN wired_plain]

lemma wired_same:
  assumes "wired X E s" and "st_halt s \<noteq> None \<Longrightarrow> st_halt s' \<noteq> None" and "st_eventloop s' = st_eventloop s"
    and "\<And>cb. owner cb s' = owner cb s" and "typing_ok s \<Longrightarrow> typing_ok s'" and "same_links s s'" and "st_surfaces s' = st_surfaces s"
  shows "wired X E s'"
  using assms(1,2)
proof (rule wiredI)
  assume ok: "timers_ok X s" "typing_ok s" "linked E X s"
  have "timers_ok X s'" using ok(1) unfolding timers_ok_def assms(3,4) .
  then show "timers_ok X s' \<and> typing_ok s' \<and> linked E X s'"
    using assms(5) ok(2) linked_same [OF assms(6,7) ok(3)] by blast
qed

lemma wired_emit [wiring]: "wired X E s \<Longrightarrow> wired X E (emit e s)"
proof (erule wired_same)
  show "owner cb (emit e s) = owner cb s" for cb by (cases cb) (simp_all add: emit_def)
qed (simp_all add: emit_def typing_ok_def same_links_def)

lemma wired_run [wiring]:
  assumes "wired X E s" and "\<And>s' f. f \<in> set fs \<Longrightarrow> wired X E s' \<Longrightarrow> wired X E (f s')"
  shows "wired X E (run fs s)"
  using assms by (induction fs arbitrary: s) (auto simp: run.simps)

lemma wired_Cons: "(st_halt s = None \<Longrightarrow> wired Y F (run fs (f s))) \<Longrightarrow> wired Y F (run (f # fs) s)"
  by (cases "st_halt s = None") (auto simp: run.simps intro: wired_halted)

lemma wired_on_surface [wiring]:
  assumes "wired X E s" and "\<And>sf. output_links (g sf) = output_links sf"
  shows "wired X E (on_surface i g s)"
  using assms by (blast intro: wired_plain [OF plain_on_surface [OF plain_refl]])

lemma wired_on_client [wiring]:
  assumes "wired X E s" and "\<And>b. client_links (g b) = client_links b"
  shows "wired X E (on_client c g s)"
  using assms by (blast intro: wired_plain [OF plain_on_client [OF plain_refl]])


lemma stays_halted: "untouched s s' \<Longrightarrow> st_halt s \<noteq> None \<Longrightarrow> st_halt s' \<noteq> None"
  by (simp add: untouched_def evolves_def)

lemma wired_untouched:
  assumes "wired X E s" and u: "untouched s s'"
    and "st_halt s = None \<Longrightarrow> st_halt s' = None \<Longrightarrow> timers_ok X s \<Longrightarrow> linked E X s \<Longrightarrow> timers_ok Y s' \<and> linked F Y s'"
  shows "wired Y F s'"
  using assms(1) stays_halted [OF u]
proof (rule wiredI)
  have "typing_ok s' = typing_ok s" unfolding typing_ok_def untouchedD [OF u] ..
  then show "timers_ok Y s' \<and> typing_ok s' \<and> linked F Y s'"
    if "st_halt s = None" "st_halt s' = None" "timers_ok X s" "typing_ok s" "linked E X s"
    using that assms(3) by blast
qed

subsection \<open>Clients\<close>

lemma on_links [simp]:
  "st_surface (emit e s) = st_surface s" "st_server (emit e s) = st_server s" "st_surfaces (emit e s) = st_surfaces s"
  "st_eventloop (emit e s) = st_eventloop s"
  "st_surface (on_surface i g s) = (st_surface s)(i := g (st_surface s i))" "st_server (on_surface i g s) = st_server s"
  "st_surfaces (on_surface i g s) = st_surfaces s" "st_eventloop (on_surface i g s) = st_eventloop s"
  "st_halt (on_surface i g s) = st_halt s"
  "st_server (on_server v s) = v (st_server s)" "st_surface (on_server v s) = st_surface s"
  "st_surfaces (on_server v s) = st_surfaces s" "st_eventloop (on_server v s) = st_eventloop s" "st_halt (on_server v s) = st_halt s"
  "st_surface (on_client c b s) = st_surface s" "st_surfaces (on_client c b s) = st_surfaces s"
  "st_eventloop (on_client c b s) = st_eventloop s" "st_halt (on_client c b s) = st_halt s"
  "sv_clients (st_server (on_client c b s)) = sv_clients (st_server s)"
  "sv_main_client (st_server (on_client c b s)) = sv_main_client (st_server s)"
  "sv_next_client (st_server (on_client c b s)) = sv_next_client (st_server s)"
  "sv_display (st_server (on_client c b s)) = sv_display (st_server s)"
  "client (on_client c b s) d = (if d = c then b (client s c) else client s d)"
  by (simp_all add: emit_def on_surface_def on_server_def on_client_def)

lemma on_fields [simp]:
  "st_input_idle_timer (on_surface i g s) = st_input_idle_timer s" "st_auth_idle_timer (on_surface i g s) = st_auth_idle_timer s"
  "st_clear_password_timer (on_surface i g s) = st_clear_password_timer s"
  "st_hidden_check_timer (on_surface i g s) = st_hidden_check_timer s" "st_grace_timer (on_surface i g s) = st_grace_timer s"
  "st_seat (on_surface i g s) = st_seat s"
  "st_input_idle_timer (on_server v s) = st_input_idle_timer s" "st_auth_idle_timer (on_server v s) = st_auth_idle_timer s"
  "st_clear_password_timer (on_server v s) = st_clear_password_timer s"
  "st_hidden_check_timer (on_server v s) = st_hidden_check_timer s" "st_grace_timer (on_server v s) = st_grace_timer s"
  "st_seat (on_server v s) = st_seat s"
  "st_input_idle_timer (on_client c b s) = st_input_idle_timer s" "st_auth_idle_timer (on_client c b s) = st_auth_idle_timer s"
  "st_clear_password_timer (on_client c b s) = st_clear_password_timer s"
  "st_hidden_check_timer (on_client c b s) = st_hidden_check_timer s" "st_grace_timer (on_client c b s) = st_grace_timer s"
  "st_seat (on_client c b s) = st_seat s"
  "st_input_idle_timer (emit e s) = st_input_idle_timer s" "st_auth_idle_timer (emit e s) = st_auth_idle_timer s"
  "st_clear_password_timer (emit e s) = st_clear_password_timer s"
  "st_hidden_check_timer (emit e s) = st_hidden_check_timer s" "st_grace_timer (emit e s) = st_grace_timer s"
  "st_seat (emit e s) = st_seat s"
  by (simp_all add: emit_def on_surface_def on_server_def on_client_def)

lemma link_client_live:
  assumes "st_halt (link_client c target s) = None"
  shows "case target of
    Some i \<Rightarrow> sw_client (st_surface s i) = None \<and>
      link_client c target s = on_client c (\<lambda>b. b\<lparr>bc_unique_output := Some i\<rparr>) (on_surface i (\<lambda>sf. sf\<lparr>sw_client := Some c\<rparr>) s)
  | None \<Rightarrow> sv_main_client (st_server s) = None \<and>
      link_client c target s = on_server (\<lambda>v. v\<lparr>sv_main_client := Some c\<rparr>) s"
proof (cases target)
  case None
  then show ?thesis using assms by (auto simp: link_client_def run.simps c_assert_def halt_with_def split: if_splits)
next
  case (Some i)
  then show ?thesis using assms by (auto simp: link_client_def run.simps c_assert_def halt_with_def split: if_splits)
qed

lemma wired_add_client [wiring]:
  assumes "wired X E s" and out: "\<And>i. target = Some i \<Longrightarrow> i \<in> set (st_surfaces s) \<union> E"
  shows "wired X E (add_client pid target s)" (is "wired X E ?s'")
  using assms(1)
proof (rule wired_untouched)
  show "untouched s ?s'" by (intro isolation)
next
  assume live: "st_halt ?s' = None" and ok: "timers_ok X s" and l: "linked E X s"
  let ?c = "sv_next_client (st_server s)" and ?n = "next_timer (st_eventloop s)"
  let ?s1 = "snd (add_timer TIMEOUT_CONNECT (Client_connection_timeout ?c) s)"
  let ?s2 = "emit (Down (Create_client ?c)) (on_server (\<lambda>v. v\<lparr>sv_clients := ?c # sv_clients v, sv_next_client := Suc ?c,
      sv_client := (sv_client v)(?c := new_client pid ?c (Some ?n))\<rparr>) ?s1)"
  have s': "?s' = link_client ?c target ?s2"
    using live by (auto simp: add_client_def Let_def split_beta add_timer_loop halt_with_def split: if_splits)
  note links = link_client_live [OF live [unfolded s']]
  have new: "?c \<notin> set (sv_clients (st_server s))" using linkedD(2) [OF l, of ?c] by blast
  have loop: "st_eventloop ?s' = st_eventloop ?s1"
    and view: "st_surfaces ?s' = st_surfaces s" "sv_clients (st_server ?s') = ?c # sv_clients (st_server s)"
    "sv_next_client (st_server ?s') = Suc ?c"
    using links unfolding s' by (auto split: option.splits)
  have cl: "client ?s' d = (if d = ?c then (new_client pid ?c (Some ?n))\<lparr>bc_unique_output := target\<rparr> else client s d)" for d
    using links unfolding s' by (auto simp: new_client_def split: option.splits)
  have sf: "sw_client (st_surface ?s' i) = (if target = Some i then Some ?c else sw_client (st_surface s i))"
    "sw_client_submission_timer (st_surface ?s' i) = sw_client_submission_timer (st_surface s i)"
    "sw_created (st_surface ?s' i) = sw_created (st_surface s i)"
    "sw_ext_session_lock_surface (st_surface ?s' i) = sw_ext_session_lock_surface (st_surface s i)"
    "sv_main_client (st_server ?s') = (if target = None then Some ?c else sv_main_client (st_server s))" for i
    using links unfolding s' by (auto split: option.splits)
  have free: "target = Some i \<Longrightarrow> sw_client (st_surface s i) = None" "target = None \<Longrightarrow> sv_main_client (st_server s) = None" for i
    using links by (auto split: option.splits)
  note u = untouchedD [OF untouched_add_client [OF untouched_refl, of s pid target]]
  have "timers_ok X ?s'"
  proof (rule timers_ok_arm [OF ok, where cb = "Client_connection_timeout ?c"])
    show "st_eventloop ?s' = snd (loop_add_timer (w_time (st_world s) (w_calls (st_world s))) TIMEOUT_CONNECT
        (Client_connection_timeout ?c) (st_eventloop s))" by (simp add: loop add_timer_loop)
    show "owner cb' ?s' = owner cb' s" if "cb' \<noteq> Client_connection_timeout ?c" for cb'
      using that by (cases cb') (auto simp: u view cl sf)
  qed (use new in \<open>auto simp: view cl new_client_def\<close>)
  moreover have "linked E X ?s'"
  proof (rule linkedI)
    show "sw_client (st_surface ?s' i) = Some d \<and> i \<in> set (st_surfaces ?s') \<union> E"
      if "d \<in> set (sv_clients (st_server ?s'))" "bc_unique_output (client ?s' d) = Some i" for d i
      using that out [of i] linkedD(4) [OF l, of d i] free by (auto simp: view cl sf split: if_splits)
    show "sv_main_client (st_server ?s') = Some d"
      if "d \<in> set (sv_clients (st_server ?s'))" "bc_unique_output (client ?s' d) = None" for d
      using that linkedD(5) [OF l, of d] free by (auto simp: view cl sf split: if_splits)
    show "d \<in> set (sv_clients (st_server ?s')) \<and> bc_unique_output (client ?s' d) = Some i"
      if "sw_client (st_surface ?s' i) = Some d" for i d
      using that linkedD(6) [OF l, of i d] new by (auto simp: view cl sf split: if_splits)
    show "d \<in> set (sv_clients (st_server ?s')) \<and> bc_unique_output (client ?s' d) = None"
      if "sv_main_client (st_server ?s') = Some d" for d
      using that linkedD(7) [OF l, of d] new by (auto simp: view cl sf split: if_splits)
    show "d < sv_next_client (st_server ?s') \<and> bc_client (client ?s' d) = d" if "d \<in> set (sv_clients (st_server ?s'))" for d
      using that linkedD(2,3) [OF l, of d] by (auto simp: view cl new_client_def)
  qed (use new linkedD(1,8,9) [OF l] in \<open>auto simp: view sf\<close>)
  ultimately show "timers_ok X ?s' \<and> linked E X ?s'" by blast
qed

lemma wired_run_plugin_command [wiring]:
  assumes "wired X E s" and out: "\<And>i. target = Some i \<Longrightarrow> i \<in> set (st_surfaces s) \<union> E"
  shows "wired X E (snd (run_plugin_command target s))"
proof -
  let ?s4 = "snd (set_cloexec (snd (sys_ret (snd (sys_ret (snd (sys_ret s)))))))"
  have p: "plain s (snd (sys_ret s))" "plain s ?s4"
    "plain s (emit (Sys (Close a)) (emit (Sys (Close b)) ?s4))"
    "plain s (emit (Sys (Close a)) (snd (spawn_command f n d ?s4)))"
    "plain s (emit (Sys (Close b)) (emit (Sys (Close a)) (snd (spawn_command f n d ?s4))))" for a b f n d
    by (intro framing frames; simp)+
  have w: "wired X E x" if "plain s x" for x using wired_plain [OF that assms(1)] .
  have "wired X E (add_client pid target x)" if "plain s x" for pid x
    by (rule wired_add_client [OF w [OF that]]) (use out plainD(2) [OF that] in auto)
  then show ?thesis
    using w p unfolding run_plugin_command_def Let_def split_beta by (auto split: option.split)
qed

lemma wired_client_resource_create [wiring]:
  assumes "wired X E s" and c: "c \<in> set (sv_clients (st_server s))"
  shows "wired X E (client_resource_create c r s)" (is "wired X E ?s'")
  using assms(1)
proof (rule wired_untouched)
  show u: "untouched s ?s'" by (intro isolation)
  assume ok: "timers_ok X s" and l: "linked E X s"
  show "timers_ok X ?s' \<and> linked E X ?s'"
  proof (cases "r = bc_client (client s c)")
    case True
    note d = client_resource_create_def Let_def
    have view: "st_surface ?s' = st_surface s" "sv_clients (st_server ?s') = sv_clients (st_server s)"
      "sv_main_client (st_server ?s') = sv_main_client (st_server s)" "sv_next_client (st_server ?s') = sv_next_client (st_server s)"
      "bc_client (client ?s' d) = bc_client (client s d)" "bc_unique_output (client ?s' d) = bc_unique_output (client s d)"
      "bc_client_connect_timer (client ?s' d) = (if d = c then None else bc_client_connect_timer (client s d))" for d
      using True by (auto simp: d split: option.split)
    note view = view untouchedD [OF u]
    have others: "owner cb ?s' = owner cb s" if "cb \<noteq> Client_connection_timeout c" for cb
      using that by (cases cb) (auto simp: view)
    have "timers_ok X ?s'"
    proof (cases "bc_client_connect_timer (client s c)")
      case None
      have "owner cb ?s' = owner cb s" for cb
        using others None by (cases "cb = Client_connection_timeout c") (auto simp: view)
      moreover have "st_eventloop ?s' = st_eventloop s" using None True by (auto simp: d)
      ultimately show ?thesis using timers_ok_same [OF _ ok] by (simp add: same_owners_def)
    next
      case (Some t)
      show ?thesis
      proof (rule timers_ok_disarm [OF ok _ _ _ others])
        show "st_eventloop ?s' = snd (loop_remove_timer t (st_eventloop s))"
          using Some True by (simp add: d remove_timer_loop)
      qed (use Some c in \<open>auto simp: view\<close>)
    qed
    moreover have "linked E X ?s'" using l unfolding linked_def view .
    ultimately show ?thesis by blast
  qed (use ok l in \<open>simp add: client_resource_create_def\<close>)
qed

text \<open>Setting the submission timer of an output, the field only.\<close>

lemma linked_timer:
  assumes l: "linked E X s"
    and "i \<in> set (st_surfaces s) \<Longrightarrow> i \<notin> E \<Longrightarrow> \<not> sw_created (st_surface s i) \<Longrightarrow> v = None"
    and "\<And>t. i \<notin> set (st_surfaces s) \<Longrightarrow> v = Some t \<Longrightarrow> t \<in> X"
  shows "linked E X (on_surface i (\<lambda>sf. sf\<lparr>sw_client_submission_timer := v\<rparr>) s)"
proof (rule linkedI, goal_cases)
  case 1 show ?case using linkedD(1) [OF l] by simp
next
  case (2 c) then show ?case using linkedD(2,3) [OF l, of c] by simp
next
  case (3 c j) then show ?case using linkedD(4) [OF l, of c j] by auto
next
  case (4 c) then show ?case using linkedD(5) [OF l, of c] by simp
next
  case (5 j c) then show ?case using linkedD(6) [OF l, of j c] by (auto split: if_splits)
next
  case (6 c) then show ?case using linkedD(7) [OF l, of c] by simp
next
  case (7 j) then show ?case using linkedD(8) [OF l, of j] assms(2) by (auto split: if_splits)
next
  case (8 j t) then show ?case using linkedD(9) [OF l, of j t] assms(3) by (auto split: if_splits)
qed

lemma wired_disarm_submission_timer [wiring]:
  assumes "wired X E s" shows "wired X E (disarm_submission_timer i s)" (is "wired X E ?s'")
proof (cases "sw_client_submission_timer (st_surface s i)")
  case (Some t)
  show ?thesis
    using assms
  proof (rule wired_untouched)
    show u: "untouched s ?s'" by (intro isolation)
    assume ok: "timers_ok X s" and l: "linked E X s"
    have s': "?s' = on_surface i (\<lambda>sf. sf\<lparr>sw_client_submission_timer := None\<rparr>) (remove_timer t s)"
      using Some by (simp add: disarm_submission_timer_def)
    have others: "owner cb ?s' = owner cb s" if "cb \<noteq> Output_redraw_timeout i \<or> i \<notin> set (st_surfaces s)" for cb
      using that by (cases cb) (auto simp: s')
    have loop: "st_eventloop ?s' = snd (loop_remove_timer t (st_eventloop s))" by (simp add: s' remove_timer_loop)
    have "timers_ok X ?s'"
    proof (cases "i \<in> set (st_surfaces s)")
      case True
      show ?thesis
        by (rule timers_ok_disarm [OF ok loop, where cb = "Output_redraw_timeout i"]) (use True Some others in \<open>auto simp: s'\<close>)
    next
      case False
      have t: "t \<in> X" using linkedD(9) [OF l False Some] .
      have "timers_ok X (on_loop (\<lambda>L. snd (loop_remove_timer t L)) s)"
      proof (rule timers_ok_on_loop [OF ok])
        show "next_timer (snd (loop_remove_timer t (st_eventloop s))) = next_timer (st_eventloop s)"
          by (simp add: loop_remove_timer_def split_beta)
      qed (use t in \<open>auto simp: armed_remove_timer intro: preserves\<close>)
      then show ?thesis by (rule timers_ok_same [rotated]) (simp add: same_owners_def loop others False)
    qed
    moreover have "linked E X (remove_timer t s)" using l unfolding linked_def remove_timer_frame .
    then have "linked E X ?s'" unfolding s' by (rule linked_timer) simp_all
    ultimately show "timers_ok X ?s' \<and> linked E X ?s'" by blast
  qed
qed (use assms in \<open>simp add: disarm_submission_timer_def\<close>)

lemma wired_cancel_redraw_timer [wiring]: "wired X E s \<Longrightarrow> wired X E (cancel_redraw_timer i s)"
  using wired_disarm_submission_timer [of X E s i] by (simp add: disarm_submission_timer_def cancel_redraw_timer_def)

subsection \<open>The end of a client\<close>

lemma cleanup_client_live:
  assumes "st_halt (cleanup_client c s) = None"
  defines "s' \<equiv> cleanup_client c s"
  shows "st_surfaces s' = st_surfaces s" "sv_clients (st_server s') = removeAll c (sv_clients (st_server s))"
    "sv_next_client (st_server s') = sv_next_client (st_server s)"
    "client_links (client s' d) = client_links (client s d)"
    "sw_client_submission_timer (st_surface s' j) = sw_client_submission_timer (st_surface s j)"
    "sw_created (st_surface s' j) = sw_created (st_surface s j)"
    "sw_ext_session_lock_surface (st_surface s' j) = sw_ext_session_lock_surface (st_surface s j)"
    "sw_client (st_surface s' j) = (if bc_unique_output (client s c) = Some j then None else sw_client (st_surface s j))"
    "sv_main_client (st_server s') = (if bc_unique_output (client s c) = None then None else sv_main_client (st_server s))"
    "st_eventloop s' = tmr.disarm (bc_client_connect_timer (client s c)) (st_eventloop s)"
  using assms(1) unfolding s'_def
  by (auto simp: cleanup_client_def Let_def run.simps c_assert_def halt_with_def tmr.disarm_def remove_timer_loop
      split: option.splits if_splits)

lemma linked_cleanup:
  assumes l: "linked E X s" and c: "c \<in> set (sv_clients (st_server s))" and live: "st_halt (cleanup_client c s) = None"
  shows "linked E X (cleanup_client c s)"
proof -
  note v = cleanup_client_live [OF live, unfolded client_links_def prod.inject]
  note cl = v(4) [THEN conjunct1] v(4) [THEN conjunct2, THEN conjunct1]
  show ?thesis
  proof (rule linkedI, goal_cases)
    case 1 show ?case using linkedD(1) [OF l] by (simp add: v distinct_removeAll)
  next
    case (2 d) then show ?case using linkedD(2,3) [OF l, of d] by (simp add: v cl)
  next
    case (3 d j)
    then have d: "d \<in> set (sv_clients (st_server s))" "d \<noteq> c" "bc_unique_output (client s d) = Some j" by (simp_all add: v cl)
    then have "bc_unique_output (client s c) \<noteq> Some j" using linkedD(4) [OF l d(1,3)] linkedD(4) [OF l c, of j] by auto
    then show ?case using linkedD(4) [OF l d(1,3)] by (simp add: v)
  next
    case (4 d)
    then have d: "d \<in> set (sv_clients (st_server s))" "d \<noteq> c" "bc_unique_output (client s d) = None" by (simp_all add: v cl)
    then have "bc_unique_output (client s c) \<noteq> None" using linkedD(5) [OF l d(1,3)] linkedD(5) [OF l c] by auto
    then show ?case using linkedD(5) [OF l d(1,3)] by (simp add: v)
  next
    case (5 j d) then show ?case using linkedD(6) [OF l, of j d] by (auto simp: v cl split: if_splits)
  next
    case (6 d) then show ?case using linkedD(7) [OF l, of d] by (auto simp: v cl split: if_splits)
  next
    case (7 j) then show ?case using linkedD(8) [OF l, of j] by (simp add: v)
  next
    case (8 j t) then show ?case using linkedD(9) [OF l, of j t] by (simp add: v)
  qed
qed

lemma wired_cleanup_client:
  assumes "wired X E s" and c: "st_halt s = None \<Longrightarrow> c \<in> set (sv_clients (st_server s))"
  shows "wired X E (cleanup_client c s)" (is "wired X E ?s'")
  using assms(1)
proof (rule wired_untouched)
  show u: "untouched s ?s'" by (intro isolation)
  assume "st_halt s = None" and live: "st_halt ?s' = None" and ok: "timers_ok X s" and l: "linked E X s"
  then have c: "c \<in> set (sv_clients (st_server s))" using c by blast
  note v = cleanup_client_live [OF live] untouchedD [OF u]
  have conn: "bc_client_connect_timer (client ?s' d) = bc_client_connect_timer (client s d)" for d using v(4) by simp
  have others: "owner cb ?s' = owner cb s" if "cb \<noteq> Client_connection_timeout c" for cb
    using that by (cases cb) (auto simp: v conn)
  have gone: "owner (Client_connection_timeout c) ?s' = None" by (simp add: v)
  have "timers_ok X ?s'"
  proof (cases "bc_client_connect_timer (client s c)")
    case None
    have "owner cb ?s' = owner cb s" for cb
      using others None gone c by (cases "cb = Client_connection_timeout c") (auto simp: v)
    then show ?thesis using timers_ok_same [OF _ ok] None by (simp add: same_owners_def v tmr.disarm_def)
  next
    case (Some t)
    show ?thesis
      by (rule timers_ok_disarm [OF ok _ _ gone others, where t = t]) (use Some c in \<open>simp_all add: v(10) tmr.disarm_def\<close>)
  qed
  then show "timers_ok X ?s' \<and> linked E X ?s'" using linked_cleanup [OF l c live] by blast
qed

lemma wired_client_destroyed:
  assumes "wired X E s" and c: "st_halt s = None \<Longrightarrow> c \<in> set (sv_clients (st_server s))"
  shows "wired X E (client_destroyed c r s)"
proof (cases "r = bc_client (client s c)")
  case True
  let ?q = "bc_unique_output (client s c)" and ?s1 = "cleanup_client c s"
  note w1 = wired_cleanup_client [OF assms]
  have "wired X E (if \<not> bc_made_a_registry (client s c) then ?s1\<lparr>st_start_clientless_mode := True\<rparr>
      else let (ok, s1) = run_plugin_command ?q ?s1 in if ok then s1 else s1\<lparr>st_start_clientless_mode := True\<rparr>)"
    if live: "st_halt s = None"
  proof -
    have l: "linked E X s" using assms(1) live by (simp add: wired_def)
    have "i \<in> set (st_surfaces ?s1) \<union> E" if "?q = Some i" for i
      using linkedD(4) [OF l c [OF live] that] untouchedD(6) [OF untouched_cleanup_client [OF untouched_refl], of c s] by simp
    from wired_run_plugin_command [OF w1 this] show ?thesis
      using w1 by (auto simp: Let_def split_beta intro!: wired_frames)
  qed
  then show ?thesis
    using True w1 assms(1) by (auto simp: client_destroyed_def Let_def run.simps)
qed (use assms(1) in \<open>simp add: client_destroyed_def\<close>)

lemma wired_wl_client_destroy:
  assumes "wired X E s"
    and "st_halt s = None \<Longrightarrow> bc_destroy_listening (client s c) \<Longrightarrow> c \<in> set (sv_clients (st_server s))"
  shows "wired X E (wl_client_destroy by_id c s)"
  unfolding wl_client_destroy_def
  using assms wired_client_destroyed [OF assms(1), of c]
  by (auto intro!: wiring wired_Cons)

subsection \<open>Time-outs\<close>

lemma wired_fold:
  assumes "wired X E s" and "\<And>x s. wired X E s \<Longrightarrow> wired X E (f x s)"
  shows "wired X E (fold f xs s)"
  using assms by (induction xs arbitrary: s) auto

lemma wired_stop_nested_server [wiring]:
  assumes "wired X E s" shows "wired X E (stop_nested_server s)"
proof -
  let ?s1 = "on_loop (\<lambda>L. snd (loop_remove_fd (w_fd (st_world s) Dispatch_nested) L)) s"
  let ?s2 = "emit (Down Destroy_display) ?s1"
  have "wired X E ?s1"
    using assms
  proof (rule wired_untouched)
    show "untouched s ?s1" by (intro isolation)
    assume ok: "timers_ok X s" and l: "linked E X s"
    have "timers_ok X ?s1"
      by (rule timers_ok_on_loop [OF ok]) (simp_all add: preserves, simp add: loop_remove_fd_def split_beta)
    moreover have "linked E X ?s1" by (rule linked_same [OF _ _ l]) (simp_all add: on_loop_def same_links_def)
    ultimately show "timers_ok X ?s1 \<and> linked E X ?s1" by blast
  qed
  then have "wired X E ?s2" by (rule wiring)
  moreover have "owner cb (on_server (\<lambda>v. v\<lparr>sv_display := False\<rparr>) ?s2) = owner cb ?s2" for cb
    by (cases cb) simp_all
  ultimately show ?thesis
    unfolding stop_nested_server_def
    by (elim wired_same) (simp_all add: same_links_def typing_ok_def on_server_def)
qed

lemma wired_setup_clientless_mode [wiring]: "wired X E s \<Longrightarrow> wired X E (setup_clientless_mode s)"
  by (auto simp: setup_clientless_mode_def Let_def intro!: wiring wired_fold)

lemma wired_unlisten [wiring]: "wired X E s \<Longrightarrow> wired X E (on_client c (\<lambda>b. b\<lparr>bc_destroy_listening := False\<rparr>) s)"
  by (rule wired_on_client) simp_all

text \<open>A client is made to leave: its listener is taken off first, so \<open>wl_client_destroy\<close> only frees objects.\<close>

lemma wl_client_destroy_plain:
  "\<not> bc_destroy_listening (client s c) \<Longrightarrow> plain s (wl_client_destroy by_id c s)"
  unfolding wl_client_destroy_def
  by (auto simp: run.simps intro!: framing frames)

lemma unlistened:
  assumes "linked E X s" "c \<in> set (sv_clients (st_server s))"
  defines "s1 \<equiv> on_client c (\<lambda>b. b\<lparr>bc_destroy_listening := False\<rparr>) s"
  shows "plain s1 (wl_client_destroy by_id (bc_client (client s1 c)) s1)"
  using linkedD(3) [OF assms(1,2)] by (intro wl_client_destroy_plain) (simp add: s1_def)

lemma wired_client_timeout:
  assumes "wired X E s" and c: "st_halt s = None \<Longrightarrow> c \<in> set (sv_clients (st_server s))"
  shows "wired X E (client_timeout by_id c s)"
  unfolding client_timeout_def
proof (rule wired_Cons)
  let ?s1 = "on_client c (\<lambda>b. b\<lparr>bc_destroy_listening := False\<rparr>) s"
  let ?d = "\<lambda>s. if sv_display (st_server s) then wl_client_destroy by_id (bc_client (client s c)) s else s"
  assume live: "st_halt s = None"
  have l: "linked E X s" using assms(1) live by (simp add: wired_def)
  have p: "plain ?s1 (?d ?s1)" using unlistened [OF l c [OF live]] by simp
  have w1: "wired X E ?s1" using assms(1) by (rule wiring)
  have w2: "wired X E (?d ?s1)" by (rule wired_plain [OF p w1])
  have "c \<in> set (sv_clients (st_server (?d ?s1)))"
    using c [OF live] by (simp only: same_linksD [OF plainD(1) [OF p]]) simp
  from wired_cleanup_client [OF w2 this]
  have w3: "wired X E (cleanup_client c (?d ?s1))" .
  show "wired X E (run [?d, cleanup_client c, setup_clientless_mode] ?s1)"
    using w1 w2 w3 by (auto simp: run.simps intro: wiring)
qed

text \<open>A callback of a timer starts with the reset of its field.\<close>

lemma wired_fire:
  assumes "wired X E s" and a: "armed (st_eventloop s) t = Some cb" "t \<notin> X" and u: "untouched s s'"
    and loop: "st_eventloop s' = st_eventloop s" and mine: "owner cb s' = None"
    and others: "\<And>cb'. cb' \<noteq> cb \<Longrightarrow> owner cb' s' = owner cb' s"
    and l: "linked E X s \<Longrightarrow> linked E (insert t X) s'"
  shows "wired (insert t X) E s'"
  using assms(1) u
proof (rule wired_untouched)
  assume ok: "timers_ok X s" and "linked E X s"
  then show "timers_ok (insert t X) s' \<and> linked E (insert t X) s'"
    using timers_ok_fire [OF ok a loop mine others] l by blast
qed

lemma linked_more: "linked E X s \<Longrightarrow> X \<subseteq> Y \<Longrightarrow> linked E Y s"
  unfolding linked_def by blast

lemma wired_connection_timeout:
  assumes "wired X E s" and a: "armed (st_eventloop s) t = Some (Client_connection_timeout c)" "t \<notin> X"
    and c: "c \<in> set (sv_clients (st_server s))"
  shows "wired (insert t X) E (client_connection_timeout by_id c s)"
proof -
  let ?s1 = "on_client c (\<lambda>b. b\<lparr>bc_client_connect_timer := None\<rparr>) s"
  have "wired (insert t X) E ?s1"
  proof (rule wired_fire [OF assms(1) a])
    show "untouched s ?s1" by (intro isolation)
    show "owner cb' ?s1 = owner cb' s" if "cb' \<noteq> Client_connection_timeout c" for cb'
      using that by (cases cb') auto
    show "linked E (insert t X) ?s1" if l: "linked E X s"
    proof -
      have v: "st_surface ?s1 = st_surface s" "st_surfaces ?s1 = st_surfaces s" "sv_clients (st_server ?s1) = sv_clients (st_server s)"
        "sv_main_client (st_server ?s1) = sv_main_client (st_server s)" "sv_next_client (st_server ?s1) = sv_next_client (st_server s)"
        "bc_client (client ?s1 d) = bc_client (client s d)" "bc_unique_output (client ?s1 d) = bc_unique_output (client s d)" for d
        by simp_all
      show ?thesis using linked_more [OF l subset_insertI] unfolding linked_def v .
    qed
  qed simp_all
  then show ?thesis unfolding client_connection_timeout_def by (rule wired_client_timeout) (simp add: c)
qed

lemma wired_redraw_timeout:
  assumes "wired X E s" and a: "armed (st_eventloop s) t = Some (Output_redraw_timeout i)" "t \<notin> X"
    and i: "i \<in> set (st_surfaces s)"
  shows "wired (insert t X) E (output_redraw_timeout by_id i s)"
proof -
  let ?s1 = "on_surface i (\<lambda>sf. sf\<lparr>sw_client_submission_timer := None\<rparr>) s"
  have w: "wired (insert t X) E ?s1"
  proof (rule wired_fire [OF assms(1) a])
    show "untouched s ?s1" by (intro isolation)
    show "owner cb' ?s1 = owner cb' s" if "cb' \<noteq> Output_redraw_timeout i" for cb'
      using that by (cases cb') auto
    show "linked E (insert t X) ?s1" if l: "linked E X s"
      using linked_more [OF l] by (intro linked_timer) auto
  qed simp_all
  have "c \<in> set (sv_clients (st_server ?s1))" if "client_for_surface ?s1 (Some i) = Some c" "st_halt ?s1 = None" for c
  proof -
    have l: "linked E (insert t X) ?s1" using w that(2) by (simp add: wired_def)
    show ?thesis using that(1) linkedD(6) [OF l, of i c] linkedD(7) [OF l, of c] by (auto simp: client_for_surface_def split: option.splits)
  qed
  then show ?thesis
    using w wired_client_timeout [OF w] unfolding output_redraw_timeout_def Let_def by (auto split: option.split)
qed

subsection \<open>Requests of plugin clients\<close>

lemma wired_forward_commit [wiring]: "wired X E s \<Longrightarrow> wired X E (forward_commit p i s)"
  unfolding forward_commit_def Let_def by (auto intro!: wiring)

lemma wired_check_size_and_commit [wiring]: "wired X E s \<Longrightarrow> wired X E (check_size_and_commit p i s)"
  by (auto simp: check_size_and_commit_def intro!: wiring split: option.split surface_size.split)

lemma wired_commit_layer_surface [wiring]: "wired X E s \<Longrightarrow> wired X E (commit_layer_surface p i s)"
  by (auto simp: commit_layer_surface_def intro!: wiring)

lemma wired_nested_surface_commit [wiring]: "wired X E s \<Longrightarrow> wired X E (nested_surface_commit p s)"
  by (auto simp: nested_surface_commit_def intro!: wiring split: option.split)

lemma wired_on_object [wiring]:
  "wired X E s \<Longrightarrow> (\<And>x. wired X E x \<Longrightarrow> wired X E (g x)) \<Longrightarrow> wired X E (on_object c r k g s)"
  by (simp add: on_object_def)

lemma wired_handle_request [wiring]: "wired X E s \<Longrightarrow> wired X E (handle_request c r s)"
  by (cases "(c, r, s)" rule: handle_request.cases) (auto intro!: wiring split: option.split)

lemma wired_client_event [wiring]: "wired X E s \<Longrightarrow> wired X E (handle_client_event by_id e s)"
  by (cases e) (auto intro!: wiring wired_wl_client_destroy)

lemma wired_dispatch_nested [wiring]: "wired X E s \<Longrightarrow> wired X E (dispatch_nested by_id es s)"
  unfolding dispatch_nested_def by (auto intro!: wiring)

end
