(* ===== verification/OutputWiring.thy ===== *)
theory OutputWiring
  imports Wiring
begin

section \<open>The wiring of outputs\<close>

text \<open>
  \<open>wired\<close> through the life of an output: its configure events, the making of its lock surface with the
  submission timer and the client of its own, its announcement, and its removal, which leaves no timer behind.
\<close>

subsection \<open>Outputs\<close>

lemma wired_arm_redraw_timer:
  assumes "wired X E s"
    and i: "st_halt s = None \<Longrightarrow> i \<in> set (st_surfaces s) \<and> sw_client_submission_timer (st_surface s i) = None \<and>
      (i \<in> E \<or> sw_created (st_surface s i))"
  shows "wired X E (arm_redraw_timer i s)" (is "wired X E ?s'")
  using assms(1)
proof (rule wired_untouched)
  show "untouched s ?s'" by (intro isolation)
  assume "st_halt s = None" and ok: "timers_ok X s" and l: "linked E X s"
  note i = i [OF \<open>st_halt s = None\<close>]
  let ?n = "next_timer (st_eventloop s)" and ?s1 = "snd (add_timer TIMEOUT_SURFACE (Output_redraw_timeout i) s)"
  have s': "?s' = on_surface i (\<lambda>sf. sf\<lparr>sw_client_submission_timer := Some ?n\<rparr>) ?s1"
    by (simp add: arm_redraw_timer_def split_beta Let_def add_timer_loop)
  have "timers_ok X ?s'"
  proof (rule timers_ok_arm [OF ok, where cb = "Output_redraw_timeout i"])
    show "st_eventloop ?s' = snd (loop_add_timer (w_time (st_world s) (w_calls (st_world s))) TIMEOUT_SURFACE
        (Output_redraw_timeout i) (st_eventloop s))" by (simp add: s' add_timer_loop)
    show "owner cb' ?s' = owner cb' s" if "cb' \<noteq> Output_redraw_timeout i" for cb'
      using that by (cases cb') (auto simp: s')
  qed (use i in \<open>auto simp: s'\<close>)
  moreover have "linked E X ?s1" using l unfolding linked_def add_timer_frame .
  then have "linked E X ?s'" unfolding s' by (rule linked_timer) (use i in auto)
  ultimately show "timers_ok X ?s' \<and> linked E X ?s'" by blast
qed

lemma wired_set_configure [wiring]:
  "wired X E s \<Longrightarrow> wired X E (on_surface i (\<lambda>sf. sf\<lparr>sw_width := w, sw_height := h, sw_newest_serial := n\<rparr>) s)"
  "wired X E s \<Longrightarrow> wired X E (on_surface i (\<lambda>sf. sf\<lparr>sw_has_newer_serial := b\<rparr>) s)"
  "wired X E s \<Longrightarrow> wired X E (on_surface i (\<lambda>sf. sf\<lparr>sw_dirty := b\<rparr>) s)"
  "wired X E s \<Longrightarrow> wired X E (on_surface i (\<lambda>sf. sf\<lparr>sw_has_output_done := b\<rparr>) s)"
  "wired X E s \<Longrightarrow> wired X E (on_surface i (\<lambda>sf. sf\<lparr>sw_output_desc := d\<rparr>) s)"
  "wired X E s \<Longrightarrow> wired X E (on_surface i (\<lambda>sf. sf\<lparr>sw_image_opaque := q\<rparr>) s)"
  by (erule wired_on_surface; simp)+

text \<open>A configure event without its last step, the arming of the timer.\<close>

definition configure_steps :: "nat \<Rightarrow> bool \<Rightarrow> u32 \<Rightarrow> u32 \<Rightarrow> u32 \<Rightarrow> (swaylock_state \<Rightarrow> swaylock_state) list" where
  "configure_steps i first_configure n w h =
    [on_surface i (\<lambda>sf. sf\<lparr>sw_width := w, sw_height := h, sw_newest_serial := n\<rparr>),
     (\<lambda>s. if sv_display (st_server s)
          then run [forward_configure i first_configure n, on_surface i (\<lambda>sf. sf\<lparr>sw_has_newer_serial := True\<rparr>)] s
          else run [emit (Up (Ack_configure i n)), on_surface i (\<lambda>sf. sf\<lparr>sw_has_newer_serial := False\<rparr>),
                    render_fallback_surface i] s),
     (\<lambda>s. render i (on_surface i (\<lambda>sf. sf\<lparr>sw_dirty := True\<rparr>) s))]"

lemma plain_configure_steps: "plain s (run (configure_steps i f n w h) s)"
  unfolding configure_steps_def by (auto intro!: framing frames)

lemma run_append: "run (fs @ gs) s = (let s1 = run fs s in run gs s1)"
proof (induction fs arbitrary: s)
  case Nil
  then show ?case by simp
next
  case (Cons f fs)
  then show ?case by (cases "st_halt s = None"; cases gs) (simp_all add: run.simps)
qed

lemma wired_handle_configure:
  assumes "wired X E s" and i: "i \<in> set (st_surfaces s)" "i \<notin> E" "sw_ext_session_lock_surface (st_surface s i)"
  shows "wired X E (ext_session_lock_surface_v1_handle_configure i n w h s)"
proof -
  let ?f = "sw_width (st_surface s i) = 0 \<or> sw_height (st_surface s i) = 0"
  let ?change = "sw_width (st_surface s i) \<noteq> w \<or> sw_height (st_surface s i) \<noteq> h"
  let ?arm = "\<lambda>s. if ?change \<and> \<not> ?f \<and> sw_client_submission_timer (st_surface s i) = None then arm_redraw_timer i s else s"
  let ?s1 = "run (configure_steps i ?f n w h) s"
  note p = plain_configure_steps [of s i ?f n w h]
  have w1: "wired X E ?s1" by (rule wired_plain [OF p assms(1)])
  have "wired X E (arm_redraw_timer i ?s1)" if none: "sw_client_submission_timer (st_surface ?s1 i) = None"
  proof (rule wired_arm_redraw_timer [OF w1])
    assume live: "st_halt ?s1 = None"
    then have "linked E X ?s1" using w1 by (simp add: wired_def)
    moreover have "i \<in> set (st_surfaces ?s1)" "sw_ext_session_lock_surface (st_surface ?s1 i)"
      using i plainD(2) [OF p] same_linksD(4) [OF plainD(1) [OF p]] by simp_all
    ultimately show "i \<in> set (st_surfaces ?s1) \<and> sw_client_submission_timer (st_surface ?s1 i) = None \<and>
        (i \<in> E \<or> sw_created (st_surface ?s1 i))"
      using linkedD(8) [of E X ?s1 i] i(2) none by auto
  qed
  then have "wired X E (?arm ?s1)" using w1 by auto
  moreover have "ext_session_lock_surface_v1_handle_configure i n w h s = run (configure_steps i ?f n w h @ [?arm]) s"
    by (simp add: ext_session_lock_surface_v1_handle_configure_def configure_steps_def Let_def)
  ultimately show ?thesis using w1 by (auto simp: run_append run.simps Let_def)
qed

subsection \<open>The lock surface of an output\<close>

lemma linked_making: "linked E X s \<Longrightarrow> linked (insert i E) X s"
  unfolding linked_def by blast

lemma linked_making_surface:
  assumes l: "linked E X s" "i \<in> E" and g: "\<And>sf. sw_client (g sf) = sw_client sf"
    "\<And>sf. sw_client_submission_timer (g sf) = sw_client_submission_timer sf"
  shows "linked E X (on_surface i g s)"
proof -
  have v: "sw_client (st_surface (on_surface i g s) j) = sw_client (st_surface s j)"
    "sw_client_submission_timer (st_surface (on_surface i g s) j) = sw_client_submission_timer (st_surface s j)"
    "st_server (on_surface i g s) = st_server s" "st_surfaces (on_surface i g s) = st_surfaces s" for j
    using g by simp_all
  have c: "sw_created (st_surface (on_surface i g s) j) = sw_created (st_surface s j)"
    "sw_ext_session_lock_surface (st_surface (on_surface i g s) j) = sw_ext_session_lock_surface (st_surface s j)"
    if "j \<in> set (st_surfaces s) - E" for j
    using that l(2) by auto
  show ?thesis
    using l(1) c unfolding linked_def v by blast
qed

lemma linked_made:
  assumes l: "linked (insert i E) X s" and i: "i \<in> set (st_surfaces s)"
  shows "linked E X (on_surface i (\<lambda>sf. sf\<lparr>sw_created := True\<rparr>) s)" (is "linked E X ?s'")
proof -
  have v: "sw_client (st_surface ?s' j) = sw_client (st_surface s j)"
    "sw_client_submission_timer (st_surface ?s' j) = sw_client_submission_timer (st_surface s j)"
    "sw_ext_session_lock_surface (st_surface ?s' j) = sw_ext_session_lock_surface (st_surface s j)"
    "sw_created (st_surface ?s' j) \<longleftrightarrow> j = i \<or> sw_created (st_surface s j)"
    "st_server ?s' = st_server s" "st_surfaces ?s' = st_surfaces s" for j
    by auto
  show ?thesis
    using l i unfolding linked_def v by blast
qed

lemma on_surface_owner:
  "(\<And>sf. sw_client_submission_timer (g sf) = sw_client_submission_timer sf) \<Longrightarrow> owner cb (on_surface i g s) = owner cb s"
  by (cases cb) simp_all

lemma wired_making_surface:
  assumes "wired X E s" "i \<in> E" and g: "\<And>sf. sw_client (g sf) = sw_client sf"
    "\<And>sf. sw_client_submission_timer (g sf) = sw_client_submission_timer sf"
  shows "wired X E (on_surface i g s)"
  using assms(1)
proof (rule wired_untouched)
  show "untouched s (on_surface i g s)" by (intro isolation)
  assume ok: "timers_ok X s" and l: "linked E X s"
  have "timers_ok X (on_surface i g s)"
    using timers_ok_same [OF _ ok, of "on_surface i g s"] on_surface_owner [of g, OF g(2)] by (simp add: same_owners_def)
  then show "timers_ok X (on_surface i g s) \<and> linked E X (on_surface i g s)"
    using linked_making_surface [OF l assms(2) g] by blast
qed

lemma wired_made:
  assumes "wired X (insert i E) s" and i: "i \<in> set (st_surfaces s)"
  shows "wired X E (on_surface i (\<lambda>sf. sf\<lparr>sw_created := True\<rparr>) s)" (is "wired X E ?s'")
  using assms(1)
proof (rule wired_untouched)
  show "untouched s ?s'" by (intro isolation)
  assume ok: "timers_ok X s" and l: "linked (insert i E) X s"
  have "timers_ok X ?s'"
    using timers_ok_same [OF _ ok, of ?s'] on_surface_owner [of "\<lambda>sf. sf\<lparr>sw_created := True\<rparr>" _ i s] by (simp add: same_owners_def)
  then show "timers_ok X ?s' \<and> linked E X ?s'" using linked_made [OF l i] by blast
qed

text \<open>The steps of \<open>create_surface\<close> up to the request for the lock surface, and those after it.\<close>

definition create_steps :: "nat \<Rightarrow> bool option \<Rightarrow> (swaylock_state \<Rightarrow> swaylock_state) list" where
  "create_steps i img =
     [on_surface i (\<lambda>sf. sf\<lparr>sw_image_opaque := img\<rparr>),
      emit (Surf (Background i) Create_surface),
      emit (Surf (Indicator i) Create_surface),
      emit (Surf (Indicator i) (Get_subsurface (Background i))),
      emit (Surf (Indicator i) (Subsurface_set_sync True)),
      emit (Up (Get_lock_surface i)),
      (\<lambda>s. if surface_is_opaque s i \<and> a_mode (st_args s) \<noteq> BACKGROUND_MODE_CENTER \<and> a_mode (st_args s) \<noteq> BACKGROUND_MODE_FIT
           then emit (Surf (Background i) Set_opaque_region) s else s)]"

definition spawn_for_output :: "nat \<Rightarrow> swaylock_state \<Rightarrow> swaylock_state" where
  "spawn_for_output i s =
     (if a_plugin_per_output (st_args s)
      then let (ok, s1) = run_plugin_command (Some i) s in if ok then s1 else setup_clientless_mode s1
      else s)"

lemma plain_create_steps: "plain s (run (create_steps i img) s)"
  unfolding create_steps_def by (auto intro!: framing frames)

lemma untouched_spawn_for_output: "untouched s (spawn_for_output i s)"
  by (auto simp: spawn_for_output_def Let_def split_beta intro!: isolation)

lemma wired_create_rest:
  assumes w: "wired X (insert i E) s" and i: "i \<in> set (st_surfaces s)"
    and none: "st_halt s = None \<Longrightarrow> sw_client_submission_timer (st_surface s i) = None"
  shows "wired X E (run [arm_redraw_timer i, spawn_for_output i, on_surface i (\<lambda>sf. sf\<lparr>sw_created := True\<rparr>)] s)"
proof -
  let ?s1 = "arm_redraw_timer i s"
  have w1: "wired X (insert i E) ?s1" by (rule wired_arm_redraw_timer [OF w]) (use i none in simp)
  have i1: "i \<in> set (st_surfaces ?s1)" using i untouchedD(6) [OF untouched_arm_redraw_timer [OF untouched_refl], of i s] by simp
  have w2: "wired X (insert i E) (spawn_for_output i ?s1)"
    using w1 wired_run_plugin_command [OF w1, of "Some i"]
    by (auto simp: spawn_for_output_def Let_def split_beta intro!: wired_setup_clientless_mode)
  have "i \<in> set (st_surfaces (spawn_for_output i ?s1))"
    using i1 untouchedD(6) [OF untouched_spawn_for_output, of i ?s1] by simp
  note w3 = wired_made [OF w2 this]
  show ?thesis by (rule wired_Cons)+ (simp add: w3)
qed

lemma create_surface_steps:
  "create_surface i s = run (create_steps i (map_option im_opaque (select_image s i)) @
     on_surface i (\<lambda>sf. sf\<lparr>sw_child := True, sw_subsurface := True, sw_ext_session_lock_surface := True,
               sw_fractional_scale := fw_fractional_scale (st_forward s),
               sw_surface := \<lparr>au_surface = True, au_viewport = fw_viewporter (st_forward s),
                 au_color_rep_surface = fw_color_representation (st_forward s),
                 au_color_surface = fw_color_management (st_forward s)\<rparr>\<rparr>) #
     [arm_redraw_timer i, spawn_for_output i, on_surface i (\<lambda>sf. sf\<lparr>sw_created := True\<rparr>)]) s"
  unfolding create_surface_def create_steps_def spawn_for_output_def [abs_def] Let_def append_Cons append_Nil ..

lemma wired_create_surface:
  assumes "wired X E s"
    and i: "i \<in> set (st_surfaces s)" "st_halt s = None \<Longrightarrow> sw_client_submission_timer (st_surface s i) = None"
  shows "wired X E (create_surface i s)"
proof -
  define s1 where "s1 = run (create_steps i (map_option im_opaque (select_image s i))) s"
  have p: "plain s s1" unfolding s1_def by (rule plain_create_steps)
  have live: "st_halt s = None" if "st_halt s1 = None" using plainD(6) [OF p] that by blast
  have w1: "wired X (insert i E) s1"
    using wired_plain [OF p assms(1)] linked_making unfolding wired_def by blast
  show ?thesis
    unfolding create_surface_steps run_append s1_def [symmetric] Let_def
  proof (rule wired_Cons, rule wired_create_rest)
    assume "st_halt s1 = None"
    show "wired X (insert i E) (on_surface i (\<lambda>sf. sf\<lparr>sw_child := True, sw_subsurface := True, sw_ext_session_lock_surface := True,
               sw_fractional_scale := fw_fractional_scale (st_forward s),
               sw_surface := \<lparr>au_surface = True, au_viewport = fw_viewporter (st_forward s),
                 au_color_rep_surface = fw_color_representation (st_forward s),
                 au_color_surface = fw_color_management (st_forward s)\<rparr>\<rparr>) s1)"
      by (rule wired_making_surface [OF w1]) simp_all
  qed (use i live plainD(2) [OF p] same_linksD(2) [OF plainD(1) [OF p], of i] in auto)
qed

lemma wired_init_surface [wiring]:
  assumes "wired X {} s" "i \<in> set (st_surfaces s)"
  shows "wired X {} (init_surface_if_ready i s)"
proof -
  have "wired X {} (create_surface i s)" if "\<not> sw_created (st_surface s i)"
    using that linkedD(8) [of "{}" X s i] assms by (intro wired_create_surface) (auto simp: wired_def)
  then show ?thesis using assms(1) by (simp add: init_surface_if_ready_def Let_def)
qed

lemma wired_output_done:
  assumes "wired X {} s" "i \<in> set (st_surfaces s)"
  shows "wired X {} (handle_wl_output_done i s)" "wired X {} (output_desc_done i s)"
  using assms by (auto simp: handle_wl_output_done_def output_desc_done_def intro!: wiring)

subsection \<open>Outputs that come and go\<close>

lemma wired_global_output:
  assumes "wired X {} s" and i: "i \<notin> set (st_surfaces s)"
  shows "wired X {} (handle_global_output i name s)"
proof -
  let ?s1 = "on_surface i (\<lambda>_. zero_surface\<lparr>sw_output_global_name := name\<rparr>) (s\<lparr>st_surfaces := i # st_surfaces s\<rparr>)"
  have "wired X {} ?s1"
    using assms(1)
  proof (rule wiredI)
    assume ok: "timers_ok X s" "typing_ok s" and l: "linked {} X s"
    have none: "sw_client (st_surface s i) = None"
      using linkedD(6) [OF l, of i] linkedD(4) [OF l, of _ i] i by (cases "sw_client (st_surface s i)") auto
    have v: "st_server ?s1 = st_server s" "sw_client (st_surface ?s1 j) = sw_client (st_surface s j)"
      "sw_client_submission_timer (st_surface ?s1 j) = (if j = i then None else sw_client_submission_timer (st_surface s j))"
      "sw_ext_session_lock_surface (st_surface ?s1 j) \<longleftrightarrow> j \<noteq> i \<and> sw_ext_session_lock_surface (st_surface s j)"
      "sw_created (st_surface ?s1 j) \<longleftrightarrow> j \<noteq> i \<and> sw_created (st_surface s j)"
      "set (st_surfaces ?s1) = insert i (set (st_surfaces s))" for j
      using none by (simp_all add: zero_surface_def)
    have "owner cb ?s1 = owner cb s" for cb using i by (cases cb) (auto simp: zero_surface_def)
    then have "timers_ok X ?s1" using timers_ok_same [OF _ ok(1)] by (simp add: same_owners_def)
    moreover have "typing_ok ?s1" using ok(2) by (simp add: typing_ok_def on_surface_def)
    moreover have "linked {} X ?s1"
    proof (rule linkedI, unfold v, goal_cases)
      case 1 show ?case by (rule linkedD(1) [OF l])
    next
      case (2 c) then show ?case using linkedD(2,3) [OF l] by blast
    next
      case (3 c j) then show ?case using linkedD(4) [OF l] by blast
    next
      case (4 c) then show ?case using linkedD(5) [OF l] by blast
    next
      case (5 j c) then show ?case using linkedD(6) [OF l] by blast
    next
      case (6 c) then show ?case using linkedD(7) [OF l] by blast
    next
      case (7 j) then show ?case using linkedD(8) [OF l, of j] by auto
    next
      case (8 j t) then show ?case using linkedD(9) [OF l, of j t] by auto
    qed
    ultimately show "timers_ok X ?s1 \<and> typing_ok ?s1 \<and> linked {} X ?s1" by blast
  qed simp
  then show ?thesis by (auto simp: handle_global_output_def Let_def intro: wiring)
qed

text \<open>A removed output: its field still names its timer, which from here on is one of \<open>X\<close>.\<close>

definition retired_timers :: "nat \<Rightarrow> swaylock_state \<Rightarrow> nat set" where
  "retired_timers i s = set_option (sw_client_submission_timer (st_surface s i))"

lemma wired_unlink_output:
  assumes "wired X {} s" and i: "i \<in> set (st_surfaces s)"
  shows "wired (X \<union> retired_timers i s) {i} (s\<lparr>st_surfaces := removeAll i (st_surfaces s)\<rparr>)" (is "wired ?Y _ ?s'")
  using assms(1)
proof (rule wiredI)
  assume ok: "timers_ok X s" "typing_ok s" and l: "linked {} X s"
  have o: "owner cb ?s' = (if cb = Output_redraw_timeout i then None else owner cb s)" for cb
    by (cases cb) auto
  have "timers_ok ?Y ?s'"
  proof (cases "sw_client_submission_timer (st_surface s i)")
    case None
    have "owner cb ?s' = owner cb s" for cb using None o by auto
    then show ?thesis using timers_ok_same [OF _ ok(1), of ?s'] None by (simp add: same_owners_def retired_timers_def)
  next
    case (Some t)
    have mine: "owner (Output_redraw_timeout i) s = Some t" using Some i by simp
    have "timers_ok (insert t X) ?s'"
      using timers_okD [OF ok(1) mine] by (intro timers_ok_fire [OF ok(1), where cb = "Output_redraw_timeout i"]) (simp_all add: o del: owner.simps)
    then show ?thesis by (simp add: retired_timers_def Some)
  qed
  moreover have "typing_ok ?s'" using ok(2) by (simp add: typing_ok_def)
  moreover have "linked {i} ?Y ?s'"
  proof (rule linkedI, goal_cases)
    case 1 show ?case using linkedD(1) [OF l] by simp
  next
    case (2 c) then show ?case using linkedD(2,3) [OF l, of c] by simp
  next
    case (3 c j) then show ?case using linkedD(4) [OF l, of c j] by auto
  next
    case (4 c) then show ?case using linkedD(5) [OF l, of c] by simp
  next
    case (5 j c) then show ?case using linkedD(6) [OF l, of j c] by simp
  next
    case (6 c) then show ?case using linkedD(7) [OF l, of c] by simp
  next
    case (7 j) then show ?case using linkedD(8) [OF l, of j] by simp
  next
    case (8 j t) then show ?case using linkedD(9) [OF l, of j t] by (auto simp: retired_timers_def)
  qed
  ultimately show "timers_ok ?Y ?s' \<and> typing_ok ?s' \<and> linked {i} ?Y ?s'" by blast
qed simp

lemma wired_drop_output_client:
  assumes "wired X E s"
  shows "wired X E (drop_output_client by_id i s)"
    and "st_halt (drop_output_client by_id i s) = None \<Longrightarrow> sw_client (st_surface (drop_output_client by_id i s) i) = None \<and>
      sw_client_submission_timer (st_surface (drop_output_client by_id i s) i) = sw_client_submission_timer (st_surface s i)"
proof -
  let ?s' = "drop_output_client by_id i s"
  have "wired X E ?s' \<and> (st_halt ?s' = None \<longrightarrow> sw_client (st_surface ?s' i) = None \<and>
      sw_client_submission_timer (st_surface ?s' i) = sw_client_submission_timer (st_surface s i))"
  proof (cases "st_halt s = None \<and> sw_client (st_surface s i) \<noteq> None")
    case False
    then show ?thesis using assms wired_halted [of ?s'] stays_halted [OF untouched_drop_output_client [OF untouched_refl], of s by_id i]
      by (cases "sw_client (st_surface s i)") (auto simp: drop_output_client_def)
  next
    case True
    then obtain c where c: "sw_client (st_surface s i) = Some c" and live: "st_halt s = None" by auto
    have l: "linked E X s" using assms live by (simp add: wired_def)
    have cin: "c \<in> set (sv_clients (st_server s))" using linkedD(6) [OF l c] by blast
    let ?s1 = "on_client c (\<lambda>b. b\<lparr>bc_destroy_listening := False\<rparr>) s"
    let ?s2 = "wl_client_destroy by_id (bc_client (client ?s1 c)) ?s1"
    let ?s3 = "cleanup_client c ?s2"
    have p: "plain ?s1 ?s2" by (rule unlistened [OF l cin])
    have w1: "wired X E ?s1" using assms by (rule wiring)
    have w2: "wired X E ?s2" by (rule wired_plain [OF p w1])
    have "c \<in> set (sv_clients (st_server ?s2))" using cin by (simp only: same_linksD [OF plainD(1) [OF p]]) simp
    then have w3: "wired X E ?s3" by (rule wired_cleanup_client [OF w2])
    have w4: "wired X E (c_assert b ?s3)" for b using w3 by (rule wired_frames)
    have s': "?s' = run [(\<lambda>s. wl_client_destroy by_id (bc_client (client s c)) s), cleanup_client c,
        (\<lambda>s. c_assert (sw_client (st_surface s i) = None) s)] ?s1"
      using live c by (simp add: drop_output_client_def run_first)
    have w: "wired X E ?s'" unfolding s' using w1 w2 w3 w4 by (auto simp: run.simps)
    moreover have "sw_client (st_surface ?s' i) = None \<and>
      sw_client_submission_timer (st_surface ?s' i) = sw_client_submission_timer (st_surface s i)" if "st_halt ?s' = None"
    proof -
      note r = run_live [OF that [unfolded s']]
      note r2 = run_live [OF r(3)]
      note r3 = run_live [OF r2(3)]
      have live3: "st_halt ?s3 = None" by (rule r3(1))
      have e: "?s' = c_assert (sw_client (st_surface ?s3 i) = None) ?s3" unfolding s' r(2) r2(2) r3(2) by simp
      have "sw_client (st_surface ?s3 i) = None" using that e live3 by (auto simp: c_assert_def halt_with_def split: if_splits)
      moreover have "sw_client_submission_timer (st_surface ?s3 i) = sw_client_submission_timer (st_surface s i)"
        unfolding cleanup_client_live(5) [OF live3] same_linksD(2) [OF plainD(1) [OF p]] by simp
      ultimately show ?thesis unfolding e by (simp add: c_assert_def halt_with_def)
    qed
    ultimately show ?thesis by blast
  qed
  then show "wired X E ?s'"
    and "st_halt ?s' = None \<Longrightarrow> sw_client (st_surface ?s' i) = None \<and>
      sw_client_submission_timer (st_surface ?s' i) = sw_client_submission_timer (st_surface s i)" by blast+
qed

lemma wired_drop_submission_timer:
  assumes "wired X E s" and t: "retired_timers i s \<subseteq> X"
  shows "wired X E (drop_submission_timer i s)"
    "\<forall>k \<in> retired_timers i s. armed (st_eventloop (drop_submission_timer i s)) k = None"
proof -
  let ?s' = "drop_submission_timer i s"
  show "wired X E ?s'"
  proof (cases "sw_client_submission_timer (st_surface s i)")
    case (Some k)
    have s': "?s' = on_loop (\<lambda>L. snd (loop_remove_timer k L)) s" by (simp add: drop_submission_timer_def Some remove_timer_def)
    show ?thesis
      using assms(1)
    proof (rule wired_untouched)
      show "untouched s ?s'" by (intro isolation)
      assume ok: "timers_ok X s" and l: "linked E X s"
      have "timers_ok X ?s'"
        unfolding s'
      proof (rule timers_ok_on_loop [OF ok])
        show "next_timer (snd (loop_remove_timer k (st_eventloop s))) = next_timer (st_eventloop s)"
          by (simp add: loop_remove_timer_def split_beta)
      qed (use t Some in \<open>auto simp: retired_timers_def armed_remove_timer intro: preserves\<close>)
      moreover have "linked E X ?s'" by (rule linked_same [OF _ _ l]) (simp_all add: s' on_loop_def same_links_def)
      ultimately show "timers_ok X ?s' \<and> linked E X ?s'" by blast
    qed
  qed (use assms(1) in \<open>simp add: drop_submission_timer_def\<close>)
  show "\<forall>k \<in> retired_timers i s. armed (st_eventloop ?s') k = None"
    by (auto simp: retired_timers_def drop_submission_timer_def remove_timer_loop armed_remove_timer)
qed

lemma linked_unmade:
  assumes l: "linked {i} X s" and "i \<notin> set (st_surfaces s)" "sw_client (st_surface s i) = None"
  shows "linked {} X s"
proof (rule linkedI, goal_cases)
  case (2 c) then show ?case using linkedD(2,3) [OF l] by blast
next
  case (3 c j) then show ?case using linkedD(4) [OF l, of c j] assms(3) by auto
next
  case (5 j c) then show ?case using linkedD(6) [OF l] by blast
next
  case (6 c) then show ?case using linkedD(7) [OF l] by blast
next
  case (7 j) then show ?case using linkedD(8) [OF l, of j] assms(2) by auto
next
  case (8 j t) then show ?case using linkedD(9) [OF l] by blast
qed (rule linkedD(1) [OF l], rule linkedD(5) [OF l])

text \<open>The removal of an output leaves no timer of it behind.\<close>

definition retired :: "nat set \<Rightarrow> swaylock_state \<Rightarrow> bool" where
  "retired T s \<longleftrightarrow> (st_halt s = None \<longrightarrow> (\<forall>t \<in> T. armed (st_eventloop s) t = None))"

lemma run_or_halt: "run fs s = fold (\<lambda>f. f) fs s \<or> st_halt (run fs s) \<noteq> None"
  using run_all by blast

lemma wired_destroy_surface:
  assumes "wired X {} s" and i: "i \<in> set (st_surfaces s)"
  shows "wired (X \<union> retired_timers i s) {} (destroy_surface by_id i s)" (is "wired ?Y {} ?s'")
    and "retired (retired_timers i s) (destroy_surface by_id i s)"
proof -
  define T where "T = retired_timers i s"
  define s1 where "s1 = drop_frame_callback i s"
  define s2 where "s2 = s1\<lparr>st_surfaces := removeAll i (st_surfaces s1)\<rparr>"
  define s3 where "s3 = close_plugin_surface i s2"
  define s4 where "s4 = drop_output_client by_id i s3"
  define s5 where "s5 = (if sw_nested_server_output (st_surface s4 i) then retire_output_objects i s4 else s4)"
  define s6 where "s6 = drop_submission_timer i s5"
  define s7 where "s7 = release_output i s6"
  note u6 = untouched_drop_submission_timer [OF untouched_refl, of s5 i, folded s6_def]
  have p1: "plain s s1" unfolding s1_def by (intro frames) simp
  have T: "retired_timers i x = T" if "sw_client_submission_timer (st_surface x i) = sw_client_submission_timer (st_surface s i)" for x
    using that by (simp add: retired_timers_def T_def)
  have T1: "retired_timers i s1 = T" by (rule T) (rule same_linksD(2) [OF plainD(1) [OF p1]])
  have w2: "wired (X \<union> T) {i} s2"
    using wired_unlink_output [OF wired_plain [OF p1 assms(1)], of i] i plainD(2) [OF p1] T1 by (simp add: s2_def)
  have p3: "plain s2 s3" unfolding s3_def by (intro frames) simp
  have w3: "wired (X \<union> T) {i} s3" by (rule wired_plain [OF p3 w2])
  note w4 = wired_drop_output_client [OF w3, of by_id i, folded s4_def]
  have p5: "plain s4 s5" unfolding s5_def by (simp add: frames)
  have w5: "wired (X \<union> T) {i} s5" by (rule wired_plain [OF p5 w4(1)])
  have live4: "st_halt s4 = None" if "st_halt s5 = None" using plainD(6) [OF p5] that by blast
  have T5: "retired_timers i s5 = T" if "st_halt s5 = None"
  proof (rule T)
    show "sw_client_submission_timer (st_surface s5 i) = sw_client_submission_timer (st_surface s i)"
      unfolding same_linksD(2) [OF plainD(1) [OF p5]] w4(2) [OF live4 [OF that], THEN conjunct2]
        same_linksD(2) [OF plainD(1) [OF p3]] using same_linksD(2) [OF plainD(1) [OF p1]] by (simp add: s2_def)
  qed
  have w6: "wired (X \<union> T) {i} s6"
  proof (cases "st_halt s5 = None")
    case True
    then show ?thesis unfolding s6_def using T5 by (intro wired_drop_submission_timer(1) [OF w5]) simp
  qed (use stays_halted [OF u6] wired_halted in blast)
  have p7: "plain s6 s7" unfolding s7_def by (intro frames) simp
  have w7: "wired (X \<union> T) {i} s7" by (rule wired_plain [OF p7 w6])
  have live6: "st_halt s6 = None" if "st_halt s7 = None" using plainD(6) [OF p7] that by blast
  have live5: "st_halt s5 = None" if "st_halt s7 = None"
    using stays_halted [OF u6] live6 [OF that] by blast
  have gone: "i \<notin> set (st_surfaces s7)"
  proof -
    have u4: "untouched s3 s4" unfolding s4_def by (intro isolation)
    have "st_surfaces s7 = st_surfaces s2"
      unfolding plainD(2) [OF p7] untouchedD(6) [OF u6] plainD(2) [OF p5] untouchedD(6) [OF u4] plainD(2) [OF p3] ..
    then show ?thesis by (simp add: s2_def)
  qed
  have none: "sw_client (st_surface s7 i) = None" if "st_halt s7 = None"
  proof -
    have "st_surface s6 = st_surface s5" by (simp add: s6_def drop_submission_timer_def split: option.split)
    then show ?thesis
      unfolding same_linksD(1) [OF plainD(1) [OF p7]] using w4(2) [OF live4 [OF live5 [OF that]]] same_linksD(1) [OF plainD(1) [OF p5]]
      by metis
  qed
  have w: "wired (X \<union> T) {} s7"
    using w7 linked_unmade [OF _ gone none] unfolding wired_def by blast
  have dead: "retired T s7"
  proof -
    have "armed (st_eventloop s6) t = None" if "st_halt s7 = None" "t \<in> T" for t
      using wired_drop_submission_timer(2) [OF w5, of i] T5 [OF live5 [OF that(1)]] that(2) by (simp add: s6_def)
    then show ?thesis by (simp add: retired_def plainD(3) [OF p7])
  qed
  have "?s' = s7 \<or> st_halt ?s' \<noteq> None"
    unfolding destroy_surface_def using run_or_halt
    by (rule back_subst) (simp only: fold_simps s7_def s6_def s5_def s4_def s3_def s2_def s1_def)
  then show "wired (X \<union> retired_timers i s) {} ?s'" "retired (retired_timers i s) ?s'"
    using w dead wired_halted [of ?s'] by (auto simp: T_def retired_def)
qed

end
