(* ===== verification/LockerWiring.thy ===== *)
theory LockerWiring
  imports OutputWiring
begin

section \<open>The wiring of the locker's own timers\<close>

text \<open>
  \<open>wired\<close> through keyboard and pointer, the password child, the grace period and the callbacks of all timers.
  A callback starts with the reset of its field, so while it runs its timer is one of \<open>X\<close>.
\<close>

subsection \<open>Keyboard, pointer and grace period\<close>

lemma linked_cong:
  "st_surfaces s' = st_surfaces s \<Longrightarrow> st_surface s' = st_surface s \<Longrightarrow> st_server s' = st_server s \<Longrightarrow>
   linked E X s' = linked E X s"
  by (simp only: linked_def)

lemma linked_damage [simp]: "linked E X (damage_state s) = linked E X s"
  by (rule plainD(8)) (intro frames, simp)

lemma wired_live:
  assumes "wired X E s" and "keeps s s'"
    and "st_halt s = None \<Longrightarrow> st_halt s' = None \<Longrightarrow> lock_inv X s \<Longrightarrow> linked E X s \<Longrightarrow> lock_inv Y s' \<and> linked F Y s'"
  shows "wired Y F s'"
  using assms by (auto simp: wired_def lock_inv_def keeps_def evolves_def)

lemma linked_handle_key: "st_halt (swaylock_handle_key k c s) = None \<Longrightarrow> linked E X (swaylock_handle_key k c s) = linked E X s"
proof -
  have sub: "linked E X (submit_password s) = linked E X s"
  proof -
    let ?s1 = "cancel_input_idle (cancel_password_clear
        (s\<lparr>st_input_state := INPUT_STATE_IDLE, st_auth_state := AUTH_STATE_VALIDATING\<rparr>))"
    have "linked E X (snd (send_request ?s1)) = linked E X s"
      by (rule linked_cong; rule send_request_cases [of ?s1]; simp add: halt_with_def)
    moreover have "linked E X (schedule_auth_idle (x\<lparr>st_auth_state := a\<rparr>)) = linked E X x" for x a
      by (rule linked_cong) simp_all
    ultimately show ?thesis by (simp add: submit_password_def Let_def split_beta)
  qed
  have clear: "linked E X (clear_by_key s) = linked E X s"
    unfolding clear_by_key_def linked_damage by (rule linked_cong) simp_all
  have erase: "linked E X (erase_by_key s) = linked E X s"
    unfolding erase_by_key_def Let_def split_beta linked_damage by (rule linked_cong) simp_all
  have neutral: "linked E X (neutral_key s) = linked E X s"
    unfolding neutral_key_def linked_damage by (rule linked_cong) simp_all
  have letter: "linked E X (letter_key c s) = linked E X s"
  proof (cases "c = 0")
    case False
    then show ?thesis unfolding letter_key_def by (simp only: if_P not_False_eq_True linked_damage) (rule linked_cong, simp_all)
  qed (simp add: letter_key_def)
  show ?thesis using sub clear erase neutral letter by (simp add: swaylock_handle_key_def Let_def)
qed

lemma wired_handle_key [wiring]: "wired X E s \<Longrightarrow> wired X E (swaylock_handle_key k c s)"
proof (erule wired_live)
  assume "st_halt s = None" "st_halt (swaylock_handle_key k c s) = None" "lock_inv X s" "linked E X s"
  then show "lock_inv X (swaylock_handle_key k c s) \<and> linked E X (swaylock_handle_key k c s)"
    using submit_lock_inv erase_lock_inv clear_key_lock_inv neutral_lock_inv letter_lock_inv linked_handle_key
    by (simp add: swaylock_handle_key_def Let_def)
qed (intro keeping)

lemma on_seat_view [simp]:
  "st_surfaces (on_seat i k s) = st_surfaces s" "st_surface (on_seat i k s) = st_surface s" "st_server (on_seat i k s) = st_server s"
  "st_eventloop (on_seat i k s) = st_eventloop s" "st_halt (on_seat i k s) = st_halt s" "st_seat (on_seat i k s) j = (if j = i then k (st_seat s i) else st_seat s j)"
  "typing_ok (on_seat i k s) = typing_ok s"
  "st_input_idle_timer (on_seat i k s) = st_input_idle_timer s" "st_auth_idle_timer (on_seat i k s) = st_auth_idle_timer s"
  "st_clear_password_timer (on_seat i k s) = st_clear_password_timer s"
  "st_hidden_check_timer (on_seat i k s) = st_hidden_check_timer s" "st_grace_timer (on_seat i k s) = st_grace_timer s"
  by (simp_all add: on_seat_def typing_ok_def)

lemma typing_ok_add_timer [simp]: "typing_ok (snd (add_timer ms cb s)) = typing_ok s" "typing_ok (remove_timer t s) = typing_ok s"
  by (simp_all add: typing_ok_def)

lemma wired_stop_repeat [wiring]:
  assumes "wired X E s" shows "wired X E (stop_repeat i s)"
proof (cases "se_repeat_timer (st_seat s i)")
  case (Some t)
  let ?s' = "on_seat i (\<lambda>k. k\<lparr>se_repeat_timer := None\<rparr>) (remove_timer t s)"
  have s': "stop_repeat i s = ?s'" by (simp add: stop_repeat_def Some)
  show ?thesis
    unfolding s' using assms
  proof (rule wiredI)
    assume ok: "timers_ok X s" "typing_ok s" and l: "linked E X s"
    have "timers_ok X ?s'"
    proof (rule timers_ok_disarm [OF ok(1), where cb = "Keyboard_repeat i" and t = t])
      show "owner cb' ?s' = owner cb' s" if "cb' \<noteq> Keyboard_repeat i" for cb'
        using that by (cases cb') auto
    qed (simp_all add: Some remove_timer_loop)
    moreover have "linked E X ?s' = linked E X s" by (rule linked_cong) simp_all
    ultimately show "timers_ok X ?s' \<and> typing_ok ?s' \<and> linked E X ?s'" using ok(2) l by simp
  qed simp
qed (use assms in \<open>simp add: stop_repeat_def\<close>)

lemma wired_start_repeat:
  assumes "wired X E s" and none: "st_halt s = None \<Longrightarrow> se_repeat_timer (st_seat s i) = None"
  shows "wired X E (start_repeat i ms s)"
proof -
  let ?n = "next_timer (st_eventloop s)"
  let ?s' = "on_seat i (\<lambda>k. k\<lparr>se_repeat_timer := Some ?n\<rparr>) (snd (add_timer ms (Keyboard_repeat i) s))"
  have s': "start_repeat i ms s = ?s'" by (simp add: start_repeat_def Let_def split_beta add_timer_loop)
  show ?thesis
    unfolding s' using assms(1)
  proof (rule wiredI)
    assume ok: "timers_ok X s" "typing_ok s" and l: "linked E X s" and "st_halt s = None"
    have "timers_ok X ?s'"
    proof (rule timers_ok_arm [OF ok(1), where cb = "Keyboard_repeat i"])
      show "st_eventloop ?s' = snd (loop_add_timer (w_time (st_world s) (w_calls (st_world s))) ms (Keyboard_repeat i) (st_eventloop s))"
        by (simp add: add_timer_loop)
      show "owner cb' ?s' = owner cb' s" if "cb' \<noteq> Keyboard_repeat i" for cb'
        using that by (cases cb') auto
    qed (simp_all add: none \<open>st_halt s = None\<close>)
    moreover have "linked E X ?s' = linked E X s" by (rule linked_cong) simp_all
    ultimately show "timers_ok X ?s' \<and> typing_ok ?s' \<and> linked E X ?s'" using ok(2) l by simp
  qed simp
qed

lemma wired_on_seat [wiring]:
  assumes "wired X E s" and g: "\<And>k. se_repeat_timer (g k) = se_repeat_timer k"
  shows "wired X E (on_seat i g s)"
  using assms(1)
proof (rule wired_same)
  show "owner cb (on_seat i g s) = owner cb s" for cb by (cases cb) (simp_all add: g)
qed (simp_all add: same_links_def)

lemma owner_fields [simp]:
  "owner cb (s\<lparr>st_run_display := b\<rparr>) = owner cb s" "owner cb (s\<lparr>st_locked := b\<rparr>) = owner cb s"
  "owner cb (s\<lparr>st_xkb := x\<rparr>) = owner cb s" "owner cb (s\<lparr>st_failed_attempts := n\<rparr>) = owner cb s"
  "owner cb (s\<lparr>st_args := a\<rparr>) = owner cb s" "owner cb (s\<lparr>st_sleep_comm_r := r, st_sleep_comm_w := w\<rparr>) = owner cb s"
  by (cases cb; simp)+

lemma wired_fields [wiring]:
  assumes "wired X E s"
  shows "wired X E (s\<lparr>st_run_display := b\<rparr>)" "wired X E (s\<lparr>st_locked := b\<rparr>)" "wired X E (s\<lparr>st_xkb := x\<rparr>)"
    "wired X E (s\<lparr>st_failed_attempts := n\<rparr>)" "wired X E (s\<lparr>st_world := w\<rparr>)" "wired X E (s\<lparr>st_args := a\<rparr>)"
    "wired X E (s\<lparr>st_sleep_comm_r := r, st_sleep_comm_w := r'\<rparr>)"
  by (rule wired_same [OF assms]; simp add: typing_ok_def same_links_def)+

lemma wired_keyboard [wiring]:
  assumes w: "wired X E s"
  shows "wired X E (keyboard_keymap e fails s)" "wired X E (keyboard_leave i s)" "wired X E (keyboard_modifiers l ls caps ctl s)"
    "wired X E (keyboard_repeat_info i r d s)" "wired X E (wl_pointer_enter i x y s)" "wired X E (wl_pointer_motion i x y s)"
    "wired X E (wl_pointer_button s)" "wired X E (seat_handle_capabilities i caps' s)"
proof -
  show "wired X E (keyboard_keymap e fails s)" using w by (cases e) (auto intro!: wiring split: option.split)
  show "wired X E (keyboard_leave i s)" using w by (simp add: keyboard_leave_def wiring)
  show "wired X E (keyboard_modifiers l ls caps ctl s)"
    using w by (auto simp: keyboard_modifiers_def Let_def intro!: wiring split: option.split)
  show "wired X E (keyboard_repeat_info i r d s)" "wired X E (seat_handle_capabilities i caps' s)"
    using w by (auto simp: keyboard_repeat_info_def seat_handle_capabilities_def intro!: wired_on_seat)
  show "wired X E (wl_pointer_enter i x y s)" "wired X E (wl_pointer_motion i x y s)" "wired X E (wl_pointer_button s)"
    using w by (auto simp: wl_pointer_enter_def wl_pointer_motion_def wl_pointer_button_def Let_def split_beta intro!: wiring)
qed

lemma wired_keyboard_key [wiring]:
  assumes "wired X E s" shows "wired X E (keyboard_key i keysym codepoint pressed s)"
proof -
  let ?s1 = "if pressed then swaylock_handle_key keysym codepoint s else s"
  let ?s3 = "on_seat i (\<lambda>k. k\<lparr>se_repeat_sym := keysym, se_repeat_codepoint := codepoint\<rparr>) (stop_repeat i ?s1)"
  have w1: "wired X E ?s1" using assms by (auto intro: wiring)
  then have w2: "wired X E (stop_repeat i ?s1)" by (rule wiring)
  then have w3: "wired X E ?s3" by (rule wired_on_seat) simp
  have "se_repeat_timer (st_seat ?s3 i) = None" by (simp add: stop_repeat_def split: option.split)
  from wired_start_repeat [OF w3 this]
  have w4: "wired X E (start_repeat i ms ?s3)" for ms .
  show ?thesis
    using assms w1 w2 w4 unfolding keyboard_key_def Let_def by (auto intro: wiring)
qed

lemma wired_on_loop:
  assumes "wired X E s" and "\<And>L. loop_ok L \<Longrightarrow> loop_ok (f L)" and "\<And>L. next_timer (f L) = next_timer L"
    and "\<And>L t. t \<notin> X \<Longrightarrow> armed (f L) t = armed L t"
  shows "wired X E (on_loop f s)"
  using assms(1)
proof (rule wiredI)
  assume ok: "timers_ok X s" "typing_ok s" and l: "linked E X s"
  have "timers_ok X (on_loop f s)" by (rule timers_ok_on_loop [OF ok(1)]) (use assms in simp_all)
  moreover have "linked E X (on_loop f s) = linked E X s" by (rule linked_cong) (simp_all add: on_loop_def)
  ultimately show "timers_ok X (on_loop f s) \<and> typing_ok (on_loop f s) \<and> linked E X (on_loop f s)"
    using ok(2) l by (simp add: typing_ok_def on_loop_def)
qed (simp add: on_loop_def)

lemma wired_descriptors [wiring]:
  assumes "wired X E s"
  shows "wired X E (on_loop (\<lambda>L. snd (loop_remove_fd fd L)) s)" "wired X E (on_loop (loop_add_fd fd m cb) s)"
    "wired X E (on_loop sweep_fds s)" "wired X E (on_loop (\<lambda>L. L\<lparr>fds := set_revents rs (fds L)\<rparr>) s)"
proof -
  have v: "next_timer (sweep_fds L) = next_timer L" "armed (sweep_fds L) t = armed L t"
    "next_timer (loop_add_fd fd m cb L) = next_timer L" "next_timer (snd (loop_remove_fd fd L)) = next_timer L"
    "armed (L\<lparr>fds := ps\<rparr>) t = armed L t" for L :: "(timer_cb, fd_cb) event_loop" and t ps
    by (simp_all add: sweep_fds_def loop_add_fd_def loop_remove_fd_def split_beta armed_def find_timer_def)
  show "wired X E (on_loop (\<lambda>L. snd (loop_remove_fd fd L)) s)" "wired X E (on_loop (loop_add_fd fd m cb) s)"
    "wired X E (on_loop sweep_fds s)"
    by (rule wired_on_loop [OF assms]; simp add: preserves v)+
  show "wired X E (on_loop (\<lambda>L. L\<lparr>fds := set_revents rs (fds L)\<rparr>) s)"
    by (rule wired_on_loop [OF assms]) (simp_all add: v loop_ok_def)
qed

lemma wired_grace [wiring]:
  assumes "wired X E s"
  shows "wired X E (forget_sleep_pipe s)" "wired X E (unwatch_sleep s)"
  using assms by (auto simp: forget_sleep_pipe_def unwatch_sleep_def intro!: wiring)

lemma wired_end_grace:
  assumes "wired X E s" and g: "st_grace_timer s = Some t"
  shows "wired X E ((remove_timer t s)\<lparr>st_grace_timer := None\<rparr>)" (is "wired X E ?s'")
  using assms(1)
proof (rule wiredI)
  assume ok: "timers_ok X s" "typing_ok s" and l: "linked E X s"
  have "timers_ok X ?s'"
  proof (rule timers_ok_disarm [OF ok(1), where cb = Grace_timeout and t = t])
    show "owner cb' ?s' = owner cb' s" if "cb' \<noteq> Grace_timeout" for cb' using that by (cases cb') auto
  qed (simp_all add: g remove_timer_loop)
  moreover have "linked E X ?s' = linked E X s" by (rule linked_cong) simp_all
  ultimately show "timers_ok X ?s' \<and> typing_ok ?s' \<and> linked E X ?s'" using ok(2) l by (simp add: typing_ok_def)
qed simp

lemma wired_sources [wiring]:
  assumes "wired X E s"
  shows "wired X E (lock_in s)" "wired X E (sleep_in s)" "wired X E (term_in s)"
proof -
  show "wired X E (lock_in s)"
    using assms wired_end_grace [OF assms] by (auto simp: lock_in_def intro: wired_grace split: option.split)
  show "wired X E (sleep_in s)"
    using assms wired_end_grace [OF assms] by (auto simp: sleep_in_def intro: wired_grace split: option.split)
  show "wired X E (term_in s)" unfolding term_in_def by (rule wiring) (rule assms)
qed

lemma wired_refused [wiring]:
  assumes "wired X E s" shows "wired X E (schedule_auth_idle (s\<lparr>st_auth_state := AUTH_STATE_INVALID\<rparr>))" (is "wired X E ?s'")
  using assms
proof (rule wiredI)
  assume ok: "timers_ok X s" "typing_ok s" and l: "linked E X s"
  have "timers_ok X ?s'" by (rule preserves) (use ok(1) in simp)
  moreover have "linked E X ?s' = linked E X s" by (rule linked_cong) simp_all
  ultimately show "timers_ok X ?s' \<and> typing_ok ?s' \<and> linked E X ?s'" using ok(2) l by (simp add: typing_ok_def)
qed simp

lemma wired_comm_in [wiring]:
  assumes "wired X E s" shows "wired X E (comm_in m pipe s)"
proof -
  have "wired X E (damage_state ((schedule_auth_idle (x\<lparr>st_auth_state := AUTH_STATE_INVALID\<rparr>))\<lparr>st_failed_attempts := n\<rparr>))"
    if "wired X E x" for x n using wired_refused [OF that] by (intro wired_frames) (rule wired_fields)
  from this [OF wired_fields(5) [OF assms]] show ?thesis
    using assms unfolding comm_in_def Let_def by (auto intro: wiring split: option.split simp del: timer_fields)
qed

subsection \<open>The callbacks of the timers\<close>

lemma plain_hidden_scan: "plain s s' \<Longrightarrow> plain s (snd (hidden_scan is c b s'))"
proof (induction "is" arbitrary: b s')
  case (Cons i "is")
  have "plain s (snd (clock_gettime s'))" using Cons.prems by (intro frames)
  then show ?case using Cons by (auto simp: Let_def split_beta)
qed simp

lemma plain_check_clients: "plain s s' \<Longrightarrow> plain s (fold check_client cs s')"
  by (rule plain_fold) (auto simp: check_client_def client_is_hidden_def Let_def split_beta intro!: frames plain_hidden_scan)

lemma wired_arm_hidden_check:
  assumes "wired X E s" and none: "st_halt s = None \<Longrightarrow> st_hidden_check_timer s = None"
  shows "wired X E (arm_hidden_check s)"
proof (cases "a_pause_when_hidden (st_args s)")
  case True
  let ?s' = "(snd (add_timer 1000 Hidden_check_timeout s))\<lparr>st_hidden_check_timer := Some (next_timer (st_eventloop s))\<rparr>"
  have s': "arm_hidden_check s = ?s'" using True by (simp add: arm_hidden_check_def Let_def split_beta add_timer_loop)
  show ?thesis
    unfolding s' using assms(1)
  proof (rule wiredI)
    assume live: "st_halt s = None" and ok: "timers_ok X s" "typing_ok s" and l: "linked E X s"
    have "timers_ok X ?s'"
    proof (rule timers_ok_arm [OF ok(1), where cb = Hidden_check_timeout])
      show "st_eventloop ?s' = snd (loop_add_timer (w_time (st_world s) (w_calls (st_world s))) 1000 Hidden_check_timeout (st_eventloop s))"
        by (simp add: add_timer_loop)
      show "owner cb' ?s' = owner cb' s" if "cb' \<noteq> Hidden_check_timeout" for cb' using that by (cases cb') auto
    qed (simp_all add: none live)
    moreover have "linked E X ?s' = linked E X s" by (rule linked_cong) simp_all
    ultimately show "timers_ok X ?s' \<and> typing_ok ?s' \<and> linked E X ?s'" using ok(2) l by (simp add: typing_ok_def)
  qed simp
qed (use assms(1) in \<open>simp add: arm_hidden_check_def\<close>)

lemma wired_fire_field:
  assumes "wired X E s" and a: "armed (st_eventloop s) t = Some cb" "t \<notin> X"
    and same: "st_eventloop s' = st_eventloop s" "st_halt s' = st_halt s" "typing_ok s' = typing_ok s"
      "st_surfaces s' = st_surfaces s" "st_surface s' = st_surface s" "st_server s' = st_server s"
    and mine: "owner cb s' = None" and others: "\<And>cb'. cb' \<noteq> cb \<Longrightarrow> owner cb' s' = owner cb' s"
  shows "wired (insert t X) E s'"
  using assms(1)
proof (rule wiredI)
  assume ok: "timers_ok X s" "typing_ok s" and l: "linked E X s"
  have "linked E (insert t X) s' = linked E (insert t X) s" by (rule linked_cong) (rule same)+
  then show "timers_ok (insert t X) s' \<and> typing_ok s' \<and> linked E (insert t X) s'"
    using timers_ok_fire [OF ok(1) a same(1) mine others] ok(2) same(3) linked_more [OF l subset_insertI] by blast
qed (simp add: same)

lemma wired_input_callbacks:
  assumes "wired X E s" "st_halt s = None" and a: "armed (st_eventloop s) t = Some cb" "t \<notin> X"
  shows "cb = Set_input_idle \<Longrightarrow> wired (insert t X) E (set_input_idle s)"
    "cb = Set_auth_idle \<Longrightarrow> wired (insert t X) E (set_auth_idle s)"
    "cb = Clear_password \<Longrightarrow> wired (insert t X) E (clear_password s)"
proof -
  have inv: "lock_inv X s" "linked E (insert t X) s"
    using assms(1,2) linked_more [OF _ subset_insertI] by (auto simp: wired_def)
  note cbs = input_callbacks_inv [OF inv(1) assms(2) a(2)]
  have "linked E (insert t X) (set_input_idle s) = linked E (insert t X) s"
    unfolding set_input_idle_def linked_damage by (rule linked_cong) simp_all
  then show "wired (insert t X) E (set_input_idle s)" if "cb = Set_input_idle"
    using cbs(1) a(1) inv(2) that by (simp add: wired_def)
  have "linked E (insert t X) (set_auth_idle s) = linked E (insert t X) s"
    unfolding set_auth_idle_def linked_damage by (rule linked_cong) simp_all
  then show "wired (insert t X) E (set_auth_idle s)" if "cb = Set_auth_idle"
    using cbs(2) a(1) inv(2) that by (simp add: wired_def)
  have "linked E (insert t X) (clear_password s) = linked E (insert t X) s"
    unfolding clear_password_def Let_def linked_damage by (rule linked_cong) simp_all
  then show "wired (insert t X) E (clear_password s)" if "cb = Clear_password"
    using cbs(3) a(1) inv(2) that by (simp add: wired_def)
qed

lemma wired_keyboard_repeat:
  assumes "wired X E s" and a: "armed (st_eventloop s) t = Some (Keyboard_repeat i)" "t \<notin> X"
  shows "wired (insert t X) E (keyboard_repeat i s)"
proof -
  let ?s0 = "on_seat i (\<lambda>k. k\<lparr>se_repeat_timer := None\<rparr>) s"
  have "wired (insert t X) E ?s0"
  proof (rule wired_fire_field [OF assms(1) a])
    show "owner cb' ?s0 = owner cb' s" if "cb' \<noteq> Keyboard_repeat i" for cb' using that by (cases cb') auto
  qed simp_all
  then have "wired (insert t X) E (start_repeat i ms ?s0)" for ms by (rule wired_start_repeat) simp
  moreover have "start_repeat i ms ?s0 = start_repeat i ms s" for ms
    by (simp add: start_repeat_def add_timer_def clock_gettime_def next_call_def on_seat_def Let_def split_beta)
  ultimately show ?thesis unfolding keyboard_repeat_def Let_def by (simp add: wired_handle_key)
qed

lemma wired_run_timer:
  assumes w: "wired X {} s" and live: "st_halt s = None" and a: "armed (st_eventloop s) t = Some cb" "t \<notin> X"
  shows "wired (insert t X) {} (run_timer by_id cb s)"
proof -
  have own: "owner cb s = Some t"
    using w live a unfolding wired_def lock_inv_def timers_ok_def tmr.tracks_but_def by blast
  show ?thesis
  proof (cases cb)
    case (Client_connection_timeout c)
    then show ?thesis using own a wired_connection_timeout [OF w, of t c by_id] by (auto split: if_splits)
  next
    case (Output_redraw_timeout i)
    then show ?thesis using own a wired_redraw_timeout [OF w, of t i by_id] by (auto split: if_splits)
  next
    case Grace_timeout
    let ?s0 = "s\<lparr>st_grace_timer := None\<rparr>"
    have "wired (insert t X) {} ?s0"
    proof (rule wired_fire_field [OF w a])
      show "owner cb' ?s0 = owner cb' s" if "cb' \<noteq> cb" for cb' using that Grace_timeout by (cases cb') auto
    qed (simp_all add: Grace_timeout typing_ok_def)
    then show ?thesis using Grace_timeout by (simp add: grace_timeout_def wired_grace)
  next
    case Hidden_check_timeout
    let ?s0 = "s\<lparr>st_hidden_check_timer := None\<rparr>"
    have w0: "wired (insert t X) {} ?s0"
    proof (rule wired_fire_field [OF w a])
      show "owner cb' ?s0 = owner cb' s" if "cb' \<noteq> cb" for cb' using that Hidden_check_timeout by (cases cb') auto
    qed (simp_all add: Hidden_check_timeout typing_ok_def)
    have p: "plain ?s0 (fold check_client cs ?s0)" for cs by (rule plain_check_clients) simp
    have "st_hidden_check_timer (fold check_client cs ?s0) = None" for cs
      unfolding untouchedD(4) [OF plain_untouched [OF p]] by simp
    then show ?thesis
      using Hidden_check_timeout wired_arm_hidden_check [OF wired_plain [OF p w0]] by (simp add: hidden_check_timeout_def Let_def)
  qed (use wired_input_callbacks [OF w live a] wired_keyboard_repeat [OF w, of t] a in auto)
qed

end
