(* ===== verification/WellFormed.thy ===== *)
theory WellFormed
  imports LockerWiring
begin

section \<open>The state of the program is well formed\<close>

text \<open>
  The program from the announcement of the first globals to its end: \<open>intact\<close> is \<open>wired\<close> up to identifiers of
  timers that are gone; every source, every timer, both main loops and the steps between them keep it.
\<close>

subsection \<open>The whole program\<close>

text \<open>Apart from identifiers of timers that are gone, the program is wired.\<close>

definition intact :: "swaylock_state \<Rightarrow> bool" where
  "intact s \<longleftrightarrow> (\<exists>D. wired D {} s \<and> retired D s)"

lemma armed_calls:
  "loop_ok L \<Longrightarrow> t < next_timer L \<Longrightarrow> armed L t = None \<Longrightarrow> armed (fold do_call cs L) t = None"
proof (induction cs arbitrary: L)
  case (Cons c cs)
  have "armed (do_call c L) t = None \<and> t < next_timer (do_call c L)"
  proof (cases c)
    case (Add_timer now ms cb)
    then show ?thesis using Cons.prems by (simp add: armed_add_timer) (simp add: loop_add_timer_def)
  next
    case (Remove_timer k)
    then show ?thesis using Cons.prems by (simp add: armed_remove_timer) (simp add: loop_remove_timer_def split_beta)
  qed (use Cons.prems in \<open>simp_all add: loop_add_fd_def loop_remove_fd_def split_beta armed_def find_timer_def\<close>)
  then show ?case using Cons.IH [of "do_call c L"] Cons.prems(1) by (simp add: preserves)
qed simp

lemma retired_evolves:
  assumes "wired D E s" "retired D s" "evolves s s'"
  shows "retired D s'"
proof -
  have "armed (st_eventloop s') t = None" if "st_halt s' = None" "t \<in> D" for t
  proof -
    have live: "st_halt s = None" using assms(3) that(1) by (auto simp: evolves_def)
    then have "loop_ok (st_eventloop s)" "t < next_timer (st_eventloop s)" "armed (st_eventloop s) t = None"
      using assms(1,2) that(2) by (auto simp: wired_def lock_inv_def timers_ok_def retired_def)
    then show ?thesis using assms(3) armed_calls [of "st_eventloop s" t] by (auto simp: evolves_def)
  qed
  then show ?thesis by (simp add: retired_def)
qed

lemma intact_step:
  assumes "intact s" "evolves s s'" "\<And>D. wired D {} s \<Longrightarrow> wired D {} s'"
  shows "intact s'"
  using assms retired_evolves unfolding intact_def by blast

lemma intact_run:
  assumes "intact s" and "\<And>f s. f \<in> set fs \<Longrightarrow> intact s \<Longrightarrow> intact (f s)"
  shows "intact (run fs s)"
  using assms by (induction fs arbitrary: s) (auto simp: run.simps)

lemma keeps_evolves: "keeps s s' \<Longrightarrow> evolves s s'"
  by (simp add: keeps_def)

lemma wired_upstream:
  assumes "wired X {} s" "\<And>n. e \<noteq> Global_remove n"
  shows "wired X {} (handle_upstream by_id e s)"
proof (cases e)
  case (Lock_configure i n w h)
  then show ?thesis using assms(1) wired_handle_configure [OF assms(1), of i] by (simp add: at_output_def)
qed (use assms in \<open>auto simp: at_output_def ext_session_lock_v1_handle_locked_def ext_session_lock_v1_handle_finished_def
  intro: wiring wired_global_output wired_output_done split: option.split\<close>)

lemma intact_upstream: "intact s \<Longrightarrow> intact (handle_upstream by_id e s)"
proof (cases "\<exists>n. e = Global_remove n")
  case True
  then obtain n where e: "e = Global_remove n" by blast
  assume "intact s"
  then obtain D where w: "wired D {} s" and r: "retired D s" by (auto simp: intact_def)
  show ?thesis
  proof (cases "find (\<lambda>i. sw_output_global_name (st_surface s i) = n) (st_surfaces s)")
    case None
    then show ?thesis using e \<open>intact s\<close> by (simp add: handle_global_remove_def)
  next
    case (Some i)
    let ?s' = "destroy_surface by_id i s"
    have i: "i \<in> set (st_surfaces s)" using Some by (metis find_Some_iff nth_mem)
    have "retired D ?s'" by (rule retired_evolves [OF w r keeps_evolves]) (intro keeping)
    then have "retired (D \<union> retired_timers i s) ?s'"
      using wired_destroy_surface(2) [OF w i, of by_id] by (auto simp: retired_def)
    then have "intact ?s'" using wired_destroy_surface(1) [OF w i] by (auto simp: intact_def)
    then show ?thesis using e Some by (simp add: handle_global_remove_def)
  qed
next
  case False
  moreover assume "intact s"
  ultimately show ?thesis using wired_upstream by (blast intro: intact_step keeps_evolves keeps_upstream keeps_refl)
qed

lemma intact_run_fd: "intact s \<Longrightarrow> intact (run_fd by_id inp cb fd m s)"
proof (cases cb)
  case Display_in
  assume i: "intact s"
  have "intact (x\<lparr>st_run_display := b\<rparr>)" if "intact x" for x b
    by (rule intact_step [OF that evolves_same [OF evolves_refl]]) (simp_all add: wiring)
  moreover have "intact (run (map (handle_upstream by_id) (ri_upstream inp)) s)"
    by (rule intact_run [OF i]) (auto intro: intact_upstream)
  ultimately show ?thesis unfolding Display_in run_fd.simps display_in_def by (auto simp: run.simps i)
next
  case Comm_in
  assume i: "intact s"
  have "evolves s (s\<lparr>st_world := w, st_run_display := b\<rparr>)" for w b by (rule evolves_same [OF evolves_refl]) simp_all
  moreover have "evolves s (damage_state ((schedule_auth_idle (s\<lparr>st_world := w, st_auth_state := a\<rparr>))\<lparr>st_failed_attempts := n\<rparr>))" for w a n
    by (intro keeps_evolves keeping keeps_refl)
  ultimately have "evolves s (comm_in m (ri_reply inp) s)"
    by (auto simp: comm_in_def Let_def intro: keeps_evolves keeping split: option.split)
  then show ?thesis using intact_step [OF i] Comm_in by (simp add: wiring)
next
  case Dispatch_nested
  assume i: "intact s"
  show ?thesis
    unfolding Dispatch_nested run_fd.simps by (rule intact_step [OF i]) (auto intro!: keeps_evolves keeping wiring)
next
  case Term_in
  assume i: "intact s"
  show ?thesis
    unfolding Term_in run_fd.simps by (rule intact_step [OF i evolves_same [OF evolves_refl]]) (simp_all add: wiring, simp_all add: term_in_def)
next
  case Lock_in
  assume i: "intact s"
  show ?thesis
    unfolding Lock_in run_fd.simps by (rule intact_step [OF i]) (auto intro!: keeps_evolves keeping wiring)
next
  case Sleep_in
  assume i: "intact s"
  show ?thesis
    unfolding Sleep_in run_fd.simps by (rule intact_step [OF i]) (auto intro!: keeps_evolves keeping wiring)
qed

lemma intact_loop:
  assumes "intact s" and "\<And>X. wired X {} s \<Longrightarrow> wired X {} (on_loop f s)" and "\<And>L t. armed (f L) t = armed L t"
  shows "intact (on_loop f s)"
proof -
  obtain D where "wired D {} s" "retired D s" using assms(1) by (auto simp: intact_def)
  then show ?thesis using assms(2,3) unfolding intact_def retired_def by (intro exI [of _ D]) (simp add: on_loop_def)
qed

lemma wired_free:
  assumes "wired X {} s" and "st_halt s = None \<Longrightarrow> t \<in> X \<or> armed (st_eventloop s) t = None"
  shows "wired X {} (on_loop (free_timer t) s)"
  using assms(1)
proof (rule wiredI)
  assume "st_halt s = None" and ok: "timers_ok X s" "typing_ok s" and l: "linked {} X s"
  moreover have "linked {} X (on_loop (free_timer t) s) = linked {} X s" by (rule linked_cong) (simp_all add: on_loop_def)
  ultimately show "timers_ok X (on_loop (free_timer t) s) \<and> typing_ok (on_loop (free_timer t) s) \<and>
      linked {} X (on_loop (free_timer t) s)"
    using timers_ok_free [OF ok(1)] assms(2) by (simp add: typing_ok_def on_loop_def)
qed (simp add: on_loop_def)

lemma intact_fire:
  assumes "intact s" "st_halt s = None" "armed (st_eventloop s) t = Some cb"
  shows "intact (on_loop (free_timer t) (run_timer by_id cb s))"
proof -
  obtain D where w: "wired D {} s" and r: "retired D s" using assms(1) by (auto simp: intact_def)
  have t: "t \<notin> D" using r assms(2,3) by (auto simp: retired_def)
  let ?s' = "run_timer by_id cb s"
  have w1: "wired (insert t D) {} ?s'" by (rule wired_run_timer [OF w assms(2,3) t])
  have "retired D ?s'" by (rule retired_evolves [OF w r keeps_evolves [OF keeps_timer [OF keeps_refl]]])
  then have "retired (insert t D) (on_loop (free_timer t) ?s')"
    by (auto simp: retired_def on_loop_def armed_free_timer)
  then show ?thesis using wired_free [OF w1, of t] unfolding intact_def by blast
qed

lemma intact_free: "intact s \<Longrightarrow> armed (st_eventloop s) t = None \<Longrightarrow> intact (on_loop (free_timer t) s)"
proof -
  assume "intact s" and none: "armed (st_eventloop s) t = None"
  then obtain D where w: "wired D {} s" and r: "retired D s" by (auto simp: intact_def)
  have "retired D (on_loop (free_timer t) s)" using r by (auto simp: retired_def on_loop_def armed_free_timer)
  then show ?thesis using wired_free [OF w, of t] none unfolding intact_def by blast
qed

lemma intact_halted: "st_halt s \<noteq> None \<Longrightarrow> intact s"
  by (auto simp: intact_def wired_halted retired_def)

text \<open>While the lock is not confirmed, neither the grace period nor the check for hidden outputs has begun.\<close>

definition late_timers :: "swaylock_state \<Rightarrow> nat option \<times> nat option" where
  "late_timers s = (st_grace_timer s, st_hidden_check_timer s)"

named_theorems late

lemma late_untouched: "untouched s s' \<Longrightarrow> late_timers s' = late_timers s"
  by (simp add: late_timers_def untouchedD)

lemmas late_isolation = frames [OF plain_refl, THEN plain_untouched, THEN late_untouched]
  untouched_drop_output_client [OF untouched_refl, THEN late_untouched]
  untouched_drop_submission_timer [OF untouched_refl, THEN late_untouched]
  untouched_output_ready [OF untouched_refl, THEN late_untouched]
  untouched_desc_done [OF untouched_refl, THEN late_untouched]
  untouched_ext_session_lock_surface_v1_handle_configure [OF untouched_refl, THEN late_untouched]
  untouched_client_connection_timeout [OF untouched_refl, THEN late_untouched]
  untouched_output_redraw_timeout [OF untouched_refl, THEN late_untouched]

lemma late_run: "(\<And>f s. f \<in> set fs \<Longrightarrow> late_timers (f s) = late_timers s) \<Longrightarrow> late_timers (run fs s) = late_timers s"
  by (induction fs arbitrary: s) (auto simp: run.simps)

lemma late_handle_key [late]: "late_timers (swaylock_handle_key k c s) = late_timers s"
proof -
  have "late_timers (submit_password s) = late_timers s"
  proof -
    let ?s1 = "cancel_input_idle (cancel_password_clear
        (s\<lparr>st_input_state := INPUT_STATE_IDLE, st_auth_state := AUTH_STATE_VALIDATING\<rparr>))"
    have "late_timers (snd (send_request ?s1)) = late_timers s"
      by (rule send_request_cases [of ?s1]) (simp_all add: late_timers_def halt_with_def)
    then show ?thesis by (simp add: submit_password_def Let_def split_beta late_timers_def)
  qed
  moreover have "late_timers (clear_by_key s) = late_timers s" "late_timers (erase_by_key s) = late_timers s"
    "late_timers (neutral_key s) = late_timers s" "late_timers (letter_key c s) = late_timers s"
    by (simp_all add: late_timers_def clear_by_key_def erase_by_key_def neutral_key_def letter_key_def Let_def split_beta)
  ultimately show ?thesis by (simp add: swaylock_handle_key_def Let_def)
qed

lemma late_repeat [late]:
  "late_timers (stop_repeat i s) = late_timers s" "late_timers (start_repeat i ms s) = late_timers s"
  by (simp_all add: late_timers_def stop_repeat_def start_repeat_def Let_def split_beta split: option.split)

lemma late_seat [late]:
  "late_timers (keyboard_keymap e fails s) = late_timers s" "late_timers (keyboard_leave i s) = late_timers s"
  "late_timers (keyboard_key i ks c p s) = late_timers s" "late_timers (keyboard_modifiers l ls caps ctl s) = late_timers s"
  "late_timers (keyboard_repeat_info i r d s) = late_timers s" "late_timers (wl_pointer_enter i x y s) = late_timers s"
  "late_timers (wl_pointer_motion i x y s) = late_timers s" "late_timers (wl_pointer_button s) = late_timers s"
  "late_timers (seat_handle_capabilities i caps' s) = late_timers s"
proof -
  have seat: "late_timers (on_seat i k x) = late_timers x" "late_timers (x\<lparr>st_run_display := b\<rparr>) = late_timers x" for k x b
    by (simp_all add: late_timers_def)
  show "late_timers (keyboard_key i ks c p s) = late_timers s"
    unfolding keyboard_key_def Let_def by (simp add: late seat)
  show "late_timers (keyboard_keymap e fails s) = late_timers s"
    by (cases e) (auto simp: late_timers_def halt_with_def split: option.split)
  show "late_timers (keyboard_leave i s) = late_timers s" by (simp add: keyboard_leave_def late)
  show "late_timers (keyboard_modifiers l ls caps ctl s) = late_timers s"
    by (auto simp: late_timers_def keyboard_modifiers_def Let_def split: option.split)
  show "late_timers (keyboard_repeat_info i r d s) = late_timers s" "late_timers (seat_handle_capabilities i caps' s) = late_timers s"
    by (simp_all add: keyboard_repeat_info_def seat_handle_capabilities_def seat)
  show "late_timers (wl_pointer_enter i x y s) = late_timers s" "late_timers (wl_pointer_motion i x y s) = late_timers s"
    "late_timers (wl_pointer_button s) = late_timers s"
    by (simp_all add: late_timers_def wl_pointer_enter_def wl_pointer_motion_def wl_pointer_button_def clock_gettime_def
        next_call_def Let_def split_beta)
qed

lemma late_destroy_surface [late]: "late_timers (destroy_surface by_id i s) = late_timers s"
proof -
  have "late_timers (x\<lparr>st_surfaces := removeAll i (st_surfaces x)\<rparr>) = late_timers x" for x by (simp add: late_timers_def)
  moreover have "late_timers (close_plugin_surface i x) = late_timers x" "late_timers (retire_output_objects i x) = late_timers x"
    "late_timers (release_output i x) = late_timers x" "late_timers (drop_frame_callback i x) = late_timers x"
    "late_timers (drop_output_client by_id i x) = late_timers x" "late_timers (drop_submission_timer i x) = late_timers x" for x
    by (rule late_isolation)+
  ultimately show ?thesis unfolding destroy_surface_def by (intro late_run) auto
qed

lemma late_upstream: "late_timers (handle_upstream by_id e s) = late_timers s"
proof -
  have "late_timers (handle_global_output i n s) = late_timers s" for i n
    unfolding handle_global_output_def Let_def by (simp add: late_timers_def setup_color_management_for_surface_def)
  moreover have "late_timers (handle_global_remove by_id n s) = late_timers s" for n
    by (auto simp: handle_global_remove_def late split: option.split)
  moreover have "late_timers (ext_session_lock_v1_handle_locked s) = late_timers s"
    "late_timers (ext_session_lock_v1_handle_finished s) = late_timers s"
    by (simp_all add: late_timers_def ext_session_lock_v1_handle_locked_def ext_session_lock_v1_handle_finished_def halt_with_def)
  ultimately show ?thesis
    by (cases e) (auto simp: late at_output_def late_isolation split: option.split)
qed

definition early :: "swaylock_state \<Rightarrow> bool" where
  "early s \<longleftrightarrow> late_timers s = (None, None)"

lemma early_run_fd: "early s \<Longrightarrow> early (run_fd by_id inp cb fd m s)"
proof (cases cb)
  case Display_in
  have "late_timers (run (map (handle_upstream by_id) (ri_upstream inp)) s) = late_timers s"
    by (rule late_run) (auto simp: late_upstream)
  moreover assume "early s"
  ultimately show ?thesis unfolding Display_in run_fd.simps display_in_def by (auto simp: run.simps early_def late_timers_def)
next
  case Comm_in
  assume "early s"
  then show ?thesis
    unfolding Comm_in run_fd.simps
    by (auto simp: comm_in_def early_def late_timers_def halt_with_def Let_def split: option.split)
next
  case Dispatch_nested
  have "untouched s (dispatch_nested by_id (ri_nested inp) s)" unfolding dispatch_nested_def by (auto intro!: isolation)
  from late_untouched [OF this] show "early s \<Longrightarrow> ?thesis" unfolding Dispatch_nested run_fd.simps early_def by simp
qed (auto simp: early_def late_timers_def term_in_def lock_in_def sleep_in_def unwatch_sleep_def on_loop_def)

lemma early_run_timer:
  assumes "early s" "cb \<noteq> Grace_timeout" "cb \<noteq> Hidden_check_timeout"
  shows "early (run_timer by_id cb s)"
proof -
  have "late_timers (run_timer by_id cb s) = late_timers s"
    using assms(2,3)
    by (cases cb) (auto simp: keyboard_repeat_def Let_def late late_isolation,
       simp_all add: late_timers_def set_input_idle_def set_auth_idle_def clear_password_def Let_def)
  then show ?thesis using assms(1) by (simp add: early_def)
qed

subsection \<open>The main loop\<close>

definition sound :: "bool \<Rightarrow> swaylock_state \<Rightarrow> bool" where
  "sound locking s \<longleftrightarrow> intact s \<and> (locking \<longrightarrow> st_halt s = None \<longrightarrow> early s)"

lemma sound_halted: "st_halt s \<noteq> None \<Longrightarrow> sound b s"
  by (auto simp: sound_def intact_halted)

lemma intact_owner:
  assumes "intact s" "st_halt s = None"
  shows "armed (st_eventloop s) t = Some cb \<longleftrightarrow> owner cb s = Some t"
proof -
  obtain D where "timers_ok D s" "\<forall>t \<in> D. armed (st_eventloop s) t = None"
    using assms by (auto simp: intact_def wired_def lock_inv_def retired_def)
  then show ?thesis using timers_okD [of D s cb t] unfolding timers_ok_def tmr.tracks_but_def by (cases "t \<in> D") auto
qed

lemma sound_on_loop:
  assumes "sound b s" and "\<And>X. wired X {} s \<Longrightarrow> wired X {} (on_loop f s)" and "\<And>L t. armed (f L) t = armed L t"
  shows "sound b (on_loop f s)"
proof -
  have "early (on_loop f s) = early s" by (simp add: early_def late_timers_def on_loop_def)
  moreover have "st_halt (on_loop f s) = st_halt s" by (simp add: on_loop_def)
  ultimately show ?thesis using assms(1) intact_loop [OF _ assms(2,3)] by (auto simp: sound_def)
qed

lemma sound_dispatch_fds: "sound b s \<Longrightarrow> sound b (dispatch_fds (run_fd by_id inp) st_eventloop halted s)"
proof -
  have "sound b (dispatch_fd (run_fd by_id inp) st_eventloop halted i s)" if "sound b s" for i s
    using that intact_run_fd early_run_fd by (auto simp: dispatch_fd_def Let_def sound_def halted_def)
  then have "sound b (fold (dispatch_fd (run_fd by_id inp) st_eventloop halted) is s)" if "sound b s" for "is" s
    using that by (induction "is" arbitrary: s) auto
  then show "sound b s \<Longrightarrow> ?thesis" by (simp add: dispatch_fds_def)
qed

lemma sound_timers:
  assumes "sound b s"
  shows "sound b (dispatch_timers (run_timer by_id) st_eventloop on_loop halted now s)"
proof (rule host.dispatch_invariant [where I = "sound b"])
  fix s t cb assume i: "sound b s" and live: "\<not> halted s" and a: "armed (st_eventloop s) t = Some cb"
  let ?s' = "run_timer by_id cb s"
  have live: "st_halt s = None" using live by (simp add: halted_def)
  have "intact (on_loop (free_timer t) ?s')" using i live a by (intro intact_fire) (simp_all add: sound_def)
  moreover have "early (on_loop (free_timer t) ?s')" if b
  proof -
    have e: "early s" using i live that by (simp add: sound_def)
    have "owner cb s = Some t" using intact_owner [of s t cb] i live a by (simp add: sound_def)
    then have "cb \<noteq> Grace_timeout" "cb \<noteq> Hidden_check_timeout" using e by (auto simp: early_def late_timers_def)
    from early_run_timer [OF e this] show ?thesis by (simp add: early_def late_timers_def on_loop_def)
  qed
  ultimately show "(halted ?s' \<longrightarrow> sound b ?s') \<and> (\<not> halted ?s' \<longrightarrow> sound b (on_loop (free_timer t) ?s'))"
    using sound_halted by (auto simp: sound_def halted_def)
next
  fix s t assume "sound b s" "armed (st_eventloop s) t = None"
  then show "sound b (on_loop (free_timer t) s)"
    using intact_free [of s t] by (auto simp: sound_def early_def late_timers_def on_loop_def)
qed (rule assms)

lemma sound_poll_round: "sound b s \<Longrightarrow> sound b (poll_round by_id inp s)"
proof -
  assume s: "sound b s"
  let ?rs = "map (\<lambda>ev. ri_ready inp (fe_callback ev)) (fd_events (st_eventloop s))"
  let ?s1 = "on_loop (\<lambda>L. L\<lparr>fds := set_revents ?rs (fds L)\<rparr>) s"
  have "sound b ?s1"
    by (rule sound_on_loop [OF s]) (simp_all add: wiring armed_def find_timer_def)
  then have s2: "sound b (dispatch_fds (run_fd by_id inp) st_eventloop halted ?s1)" by (rule sound_dispatch_fds)
  have "sound b (on_loop sweep_fds x)" if "sound b x" for x
    by (rule sound_on_loop [OF that]) (simp_all add: wiring armed_def find_timer_def sweep_fds_def split_beta)
  then show ?thesis
    using s2 sound_timers sound_halted [of "halt_with h s" b for h]
    by (auto simp: poll_round_def loop_poll_def Let_def halt_with_def)
qed

lemma wired_start_grace:
  assumes "wired X E s" and none: "st_halt s = None \<Longrightarrow> st_grace_timer s = None"
  shows "wired X E (start_grace s)"
proof (cases "a_grace_time (st_args s) \<le> 0")
  case False
  have pipes: "plain s (snd (two_pipes s))" by (auto simp: two_pipes_def Let_def split_beta intro!: frames)
  have close: "plain s (close_fds fs x)" if "plain s x" for fs x
    unfolding close_fds_def by (rule plain_fold [OF that]) (intro plain_emit, simp)
  have p: "plain s (snd (start_sleep_watcher s))"
    using pipes by (auto simp: start_sleep_watcher_def Let_def split_beta intro!: frames close split: option.split prod.split)
  let ?s1 = "snd (start_sleep_watcher s)"
  have w1: "wired X E ?s1" by (rule wired_plain [OF p assms(1)])
  have "wired X E (on_loop (loop_add_fd r POLLIN Sleep_in)
      ((snd (add_timer ms Grace_timeout ?s1))\<lparr>st_sleep_comm_r := r, st_sleep_comm_w := w,
         st_grace_timer := Some (next_timer (st_eventloop ?s1))\<rparr>))" (is "wired X E (on_loop _ ?s2)") for r w ms
  proof (rule wired_descriptors)
    show "wired X E ?s2"
      using w1
    proof (rule wiredI)
      assume live: "st_halt ?s1 = None" and ok: "timers_ok X ?s1" "typing_ok ?s1" and l: "linked E X ?s1"
      have g: "st_grace_timer ?s1 = None"
        using none plainD(6) [OF p] live untouchedD(5) [OF plain_untouched [OF p]] by auto
      have "timers_ok X ?s2"
      proof (rule timers_ok_arm [OF ok(1), where cb = Grace_timeout])
        show "st_eventloop ?s2 = snd (loop_add_timer (w_time (st_world ?s1) (w_calls (st_world ?s1))) ms Grace_timeout (st_eventloop ?s1))"
          by (simp add: add_timer_loop)
        show "owner cb' ?s2 = owner cb' ?s1" if "cb' \<noteq> Grace_timeout" for cb' using that by (cases cb') auto
      qed (simp_all add: g)
      moreover have "linked E X ?s2 = linked E X ?s1" by (rule linked_cong) simp_all
      ultimately show "timers_ok X ?s2 \<and> typing_ok ?s2 \<and> linked E X ?s2" using ok(2) l by (simp add: typing_ok_def)
    qed simp
  qed
  then show ?thesis
    using w1 False unfolding start_grace_def by (auto simp: Let_def split_beta add_timer_loop split: option.split)
qed (use assms(1) in \<open>simp add: start_grace_def\<close>)

lemma sleep_watcher_plain: "plain s (snd (start_sleep_watcher s))"
proof -
  have pipes: "plain s (snd (two_pipes s))" by (auto simp: two_pipes_def Let_def split_beta intro!: frames)
  have close: "plain s (close_fds fs x)" if "plain s x" for fs x
    unfolding close_fds_def by (rule plain_fold [OF that]) (intro plain_emit, simp)
  show ?thesis
    using pipes by (auto simp: start_sleep_watcher_def Let_def split_beta intro!: frames close split: option.split prod.split)
qed

lemma evolves_start_grace: "evolves s (start_grace s)"
proof -
  let ?s1 = "snd (start_sleep_watcher s)"
  have e: "evolves s ?s1" using plain_untouched [OF sleep_watcher_plain] by (simp add: untouched_def)
  have "evolves s (on_loop (loop_add_fd r POLLIN Sleep_in)
      ((snd (add_timer ms Grace_timeout ?s1))\<lparr>st_sleep_comm_r := r, st_sleep_comm_w := w, st_grace_timer := Some k\<rparr>))" for r w ms k
    by (rule evolves_by [OF e, of _ "[Add_timer (w_time (st_world ?s1) (w_calls (st_world ?s1))) ms Grace_timeout, Add_fd r POLLIN Sleep_in]" "[]"])
       (simp_all add: add_timer_loop, simp_all add: on_loop_def)
  then show ?thesis using e unfolding start_grace_def by (auto simp: Let_def split_beta split: option.split)
qed

lemma plain_daemonize: "plain s (daemonize s)"
  by (auto simp: daemonize_def Let_def split_beta intro!: frames plain_refl)

lemma announce_ready_keeps: "keeps s (announce_ready s)" "late_timers (announce_ready s) = late_timers s"
  "wired X E s \<Longrightarrow> wired X E (announce_ready s)"
proof -
  have "keeps x (x\<lparr>st_args := a\<rparr>)" for x a by (rule keeps_same [OF keeps_refl]) simp_all
  then have args: "keeps s (x\<lparr>st_args := a\<rparr>)" if "keeps s x" for x a using that keeps_trans by blast
  show "keeps s (announce_ready s)"
    by (auto simp: announce_ready_def Let_def split_beta unlocks_def intro!: args keeping)
  show "late_timers (announce_ready s) = late_timers s"
    by (simp add: announce_ready_def late_timers_def Let_def split_beta sys_ret_def next_call_def halt_with_def)
  show "wired X E s \<Longrightarrow> wired X E (announce_ready s)"
    by (auto simp: announce_ready_def Let_def split_beta intro!: wiring)
qed

lemma intact_post_lock:
  assumes "intact s" and e: "st_halt s = None \<Longrightarrow> early s"
  shows "intact (post_lock s)"
proof -
  define s1 where "s1 = announce_ready s"
  define s2 where "s2 = (if a_daemonize (st_args s1) then daemonize s1 else s1)"
  define s3 where "s3 = start_grace s2"
  define s4 where "s4 = arm_hidden_check s3"
  have i1: "intact s1"
    unfolding s1_def using announce_ready_keeps by (intro intact_step [OF assms(1)]) (auto intro: keeps_evolves)
  have p2: "plain s1 s2" unfolding s2_def by (simp add: plain_daemonize)
  have u2: "untouched s1 s2" by (rule plain_untouched [OF p2])
  have i2: "intact s2" by (rule intact_step [OF i1]) (use u2 wired_plain [OF p2] in \<open>auto simp: untouched_def\<close>)
  have e2: "late_timers s2 = (None, None)" if "st_halt s2 = None"
    using that late_untouched [OF u2] announce_ready_keeps(1,2) [of s] e stays_halted [OF u2]
    by (auto simp: s1_def early_def keeps_def evolves_def)
  have i3: "intact s3"
    unfolding s3_def using evolves_start_grace wired_start_grace e2
    by (intro intact_step [OF i2]) (auto simp: late_timers_def)
  have h3: "st_hidden_check_timer s3 = st_hidden_check_timer s2"
    using untouchedD(4) [OF plain_untouched [OF sleep_watcher_plain], of s2]
    by (auto simp: s3_def start_grace_def on_loop_def Let_def split_beta split: option.split)
  have live: "st_halt s2 = None" if "st_halt s3 = None" using that evolves_start_grace [of s2] by (auto simp: s3_def evolves_def)
  have i4: "intact s4"
    unfolding s4_def
  proof (rule intact_step [OF i3])
    show "evolves s3 (arm_hidden_check s3)" by (intro keeps_evolves keeping keeps_refl)
    show "wired D {} (arm_hidden_check s3)" if "wired D {} s3" for D
      using that h3 e2 live by (intro wired_arm_hidden_check) (simp_all add: late_timers_def)
  qed
  have "post_lock s = s4 \<or> st_halt (post_lock s) \<noteq> None"
    unfolding post_lock_def using run_or_halt
    by (rule back_subst) (simp only: fold_simps s4_def s3_def s2_def s1_def)
  then show ?thesis using i4 intact_halted by auto
qed

lemma sound_main_step:
  assumes "sound (fst m = Locking) (snd m)"
  shows "sound (fst (main_step by_id inp m) = Locking) (snd (main_step by_id inp m))"
proof (cases m)
  case (Pair ph s)
  have "intact (post_lock s)" if "ph = Locking"
    using assms Pair that by (intro intact_post_lock) (auto simp: sound_def)
  moreover have "sound False (unlock_session s)" by (rule sound_halted) (simp add: unlock_session_def halt_with_def)
  ultimately show ?thesis
    using assms Pair sound_poll_round [of "ph = Locking" s by_id inp]
    by (cases ph) (auto simp: main_step_def sound_def)
qed

subsection \<open>The start of the program\<close>

lemma intact_initial: "length mem = 1024 \<Longrightarrow> intact (initial_state w mem args)"
proof -
  assume "length mem = 1024"
  moreover have "linked {} {} (initial_state w mem args)"
    by (simp add: linked_def initial_state_def zero_surface_def)
  ultimately have "wired {} {} (initial_state w mem args)" using lock_inv_initial by (simp add: wired_def)
  then show ?thesis by (auto simp: intact_def retired_def)
qed

lemma intact_emit: "intact s \<Longrightarrow> intact (emit e s)"
  by (erule intact_step) (auto intro: evolves_emit wiring)

lemma intact_untouched: "intact s \<Longrightarrow> untouched s s' \<Longrightarrow> (\<And>D. wired D {} s \<Longrightarrow> wired D {} s') \<Longrightarrow> intact s'"
  by (erule intact_step) (auto simp: untouched_def)

lemma sources_evolve:
  "evolves s (fold (\<lambda>cb. on_loop (loop_add_fd (f cb) POLLIN cb)) cbs s) \<and>
   late_timers (fold (\<lambda>cb. on_loop (loop_add_fd (f cb) POLLIN cb)) cbs s) = late_timers s \<and>
   (wired X E s \<longrightarrow> wired X E (fold (\<lambda>cb. on_loop (loop_add_fd (f cb) POLLIN cb)) cbs s))"
proof (induction cbs arbitrary: s)
  case (Cons cb cbs)
  let ?s1 = "on_loop (loop_add_fd (f cb) POLLIN cb) s"
  have "evolves s ?s1"
    by (rule evolves_by [OF evolves_refl [of s], of _ "[Add_fd (f cb) POLLIN cb]" "[]"]) (simp_all add: on_loop_def)
  moreover have "late_timers ?s1 = late_timers s" by (simp add: late_timers_def on_loop_def)
  ultimately show ?case using Cons.IH [of ?s1] wired_descriptors(2) [of X E s "f cb" POLLIN cb] evolves_trans by auto
qed simp

lemma wired_create_checked:
  assumes "wired X {} s" "i \<in> set (st_surfaces s)"
  shows "wired X {} (run [(\<lambda>s. c_assert (\<not> sw_created (st_surface s i)) s), create_surface i] s)"
proof (rule wired_Cons)
  let ?s1 = "c_assert (\<not> sw_created (st_surface s i)) s"
  assume live: "st_halt s = None"
  have w1: "wired X {} ?s1" using assms(1) by (rule wired_frames)
  have w2: "wired X {} (create_surface i ?s1)" if "st_halt ?s1 = None"
  proof (rule wired_create_surface [OF w1])
    show "i \<in> set (st_surfaces ?s1)" using assms(2) by (simp add: c_assert_def halt_with_def)
    have "\<not> sw_created (st_surface s i)" using that live by (simp add: c_assert_def halt_with_def split: if_splits)
    then show "sw_client_submission_timer (st_surface ?s1 i) = None"
      using linkedD(8) [of "{}" X s i] assms live by (simp add: wired_def c_assert_def)
  qed
  show "wired X {} (run [create_surface i] ?s1)" by (rule wired_Cons) (simp add: w2)
qed

lemma wired_create_all:
  "wired X {} s \<Longrightarrow> set is \<subseteq> set (st_surfaces s) \<Longrightarrow>
   wired X {} (run (map (\<lambda>i s. run [(\<lambda>s. c_assert (\<not> sw_created (st_surface s i)) s), create_surface i] s) is) s)"
proof (induction "is" arbitrary: s)
  case (Cons i "is")
  let ?s1 = "run [(\<lambda>s. c_assert (\<not> sw_created (st_surface s i)) s), create_surface i] s"
  have "untouched s ?s1" by (auto intro!: isolation)
  then have "st_surfaces ?s1 = st_surfaces s" by (rule untouchedD)
  then have "wired X {} (run (map (\<lambda>i s. run [(\<lambda>s. c_assert (\<not> sw_created (st_surface s i)) s), create_surface i] s) is) ?s1)"
    using Cons.prems wired_create_checked [OF Cons.prems(1), of i] by (intro Cons.IH) auto
  then show ?case unfolding list.map by (rule wired_Cons)
qed simp

definition starting :: "swaylock_state \<Rightarrow> bool" where
  "starting s \<longleftrightarrow> intact s \<and> early s"

lemma starting_step:
  assumes "starting s" "evolves s s'" "late_timers s' = late_timers s" "\<And>D. wired D {} s \<Longrightarrow> wired D {} s'"
  shows "starting s'"
  using assms intact_step [of s s'] by (simp add: starting_def early_def)

lemma starting_untouched:
  assumes "starting s" "untouched s s'" "\<And>D. wired D {} s \<Longrightarrow> wired D {} s'"
  shows "starting s'"
  using starting_step [OF assms(1) _ late_untouched [OF assms(2)] assms(3)] assms(2) by (simp add: untouched_def)

lemma starting_run:
  assumes "starting s" and "\<And>f s. f \<in> set fs \<Longrightarrow> starting s \<Longrightarrow> starting (f s)"
  shows "starting (run fs s)"
  using assms by (induction fs arbitrary: s) (auto simp: run.simps)

lemma starting_program:
  assumes "length mem = 1024"
  shows "starting (start_program (run (map (handle_upstream by_id) events) (initial_state w mem args)))"
proof -
  let ?s0 = "run (map (handle_upstream by_id) events) (initial_state w mem args)"
  let ?create = "\<lambda>s. run (map (\<lambda>i s. run [(\<lambda>s. c_assert (\<not> sw_created (st_surface s i)) s), create_surface i] s) (st_surfaces s)) s"
  let ?plugin = "\<lambda>s. if a_plugin_per_output (st_args s) then s
      else let (ok, s1) = run_plugin_command None s in if ok then s1 else setup_clientless_mode s1"
  have s0: "starting ?s0"
  proof (rule starting_run)
    show "starting (initial_state w mem args)"
      using intact_initial [OF assms] by (simp add: starting_def early_def late_timers_def initial_state_def)
  qed (auto simp: starting_def early_def late_upstream intact_upstream)
  have emit: "starting (emit e s)" if "starting s" for s e
    by (rule starting_step [OF that evolves_emit [OF evolves_refl]]) (simp_all add: late_timers_def wiring)
  have sources: "starting (add_sources s)" if "starting s" for s
    unfolding add_sources_def using sources_evolve by (intro starting_step [OF that]) blast+
  have pipe: "starting (s\<lparr>st_sleep_comm_r := -1, st_sleep_comm_w := -1\<rparr>)" if "starting s" for s
    by (rule starting_step [OF that evolves_same [OF evolves_refl]]) (simp_all add: late_timers_def wired_fields)
  have display: "starting (s\<lparr>st_run_display := True\<rparr>)" if "starting s" for s
    by (rule starting_step [OF that evolves_same [OF evolves_refl]]) (simp_all add: late_timers_def wired_fields)
  have create: "starting (?create s)" if "starting s" for s
  proof (rule starting_untouched [OF that])
    show "untouched s (?create s)" by (auto intro!: isolation)
  qed (rule wired_create_all, simp_all)
  have plugin: "starting (?plugin s)" if "starting s" for s
  proof (rule starting_untouched [OF that])
    show "untouched s (?plugin s)" by (auto simp: Let_def split_beta intro!: isolation)
    show "wired D {} (?plugin s)" if "wired D {} s" for D
      using that wired_run_plugin_command [OF that, of None] by (auto simp: Let_def split_beta intro!: wired_setup_clientless_mode)
  qed
  show ?thesis
    unfolding start_program_def
    using emit sources pipe display create plugin by (intro starting_run [OF s0]) auto
qed

text \<open>What holds whenever the program is between two rounds of its loop: the armed timers are exactly those named by the field of
  a structure that exists, a typed password has its clearing timer, and the references between outputs,
  clients and the server agree in both directions.\<close>

definition well_formed :: "swaylock_state \<Rightarrow> bool" where
  "well_formed s \<longleftrightarrow>
     loop_ok (st_eventloop s) \<and>
     (\<forall>t cb. armed (st_eventloop s) t = Some cb \<longleftrightarrow> owner cb s = Some t) \<and>
     typing_ok s \<and>
     distinct (sv_clients (st_server s)) \<and>
     (\<forall>c \<in> set (sv_clients (st_server s)). bc_client (client s c) = c \<and>
        (case bc_unique_output (client s c) of
           Some i \<Rightarrow> i \<in> set (st_surfaces s) \<and> sw_client (st_surface s i) = Some c
         | None \<Rightarrow> sv_main_client (st_server s) = Some c)) \<and>
     (\<forall>i c. sw_client (st_surface s i) = Some c \<longrightarrow>
        i \<in> set (st_surfaces s) \<and> c \<in> set (sv_clients (st_server s)) \<and> bc_unique_output (client s c) = Some i) \<and>
     (\<forall>c. sv_main_client (st_server s) = Some c \<longrightarrow>
        c \<in> set (sv_clients (st_server s)) \<and> bc_unique_output (client s c) = None)"

lemma reached_sound:
  assumes "reached by_id P m m'" "sound (fst m = Locking) (snd m)"
  shows "sound (fst m' = Locking) (snd m')"
  using assms by induction (auto intro: sound_main_step)

lemma reached_intact:
  assumes "reached by_id P (Locking, start_program (run (map (handle_upstream by_id) events) (initial_state w mem args))) (ph, s)"
    and "length mem = 1024"
  shows "intact s"
  using reached_sound [OF assms(1)] starting_program [OF assms(2)] by (simp add: starting_def sound_def)

lemma intact_linked: "intact s \<Longrightarrow> st_halt s = None \<Longrightarrow> \<exists>D. linked {} D s"
  by (auto simp: intact_def wired_def)

lemma intact_well_formed:
  assumes "intact s" "st_halt s = None"
  shows "well_formed s"
proof -
  obtain D where t: "loop_ok (st_eventloop s)" "typing_ok s" and l: "linked {} D s"
    using assms by (auto simp: intact_def wired_def lock_inv_def timers_ok_def)
  have "case bc_unique_output (client s c) of
      Some i \<Rightarrow> i \<in> set (st_surfaces s) \<and> sw_client (st_surface s i) = Some c
    | None \<Rightarrow> sv_main_client (st_server s) = Some c" if "c \<in> set (sv_clients (st_server s))" for c
    using linkedD(4,5) [OF l that] by (auto split: option.split)
  moreover have "i \<in> set (st_surfaces s)" if "sw_client (st_surface s i) = Some c" for i c
    using linkedD(6) [OF l that] linkedD(4) [OF l, of c i] by auto
  ultimately show ?thesis
    using t intact_owner [OF assms] linkedD(1,3,6,7) [OF l] unfolding well_formed_def by blast
qed

text \<open>C3. The state of the program is well formed throughout: from any outputs and globals announced before the start,
  through the wait for the lock, the grace period and the locked session, whatever the compositor, the keyboard,
  the plugin clients, the password child, the clock and the system calls do, the event loop, the typed password and the
  references between outputs, clients and the server are well formed as long as the process has not ended.\<close>

theorem program_well_formed:
  assumes "reached by_id (\<lambda>_. True)
      (Locking, start_program (run (map (handle_upstream by_id) events) (initial_state w mem args))) (ph, s)"
    and "length mem = 1024" "st_halt s = None"
  shows "well_formed s"
  using intact_well_formed reached_intact [OF assms(1,2)] assms(3) by blast

lemma calls_view [simp]:
  "st_halt (snd (sys_ret s)) = st_halt s" "st_server (snd (sys_ret s)) = st_server s" "st_surface (snd (sys_ret s)) = st_surface s"
  "st_halt (snd (set_cloexec s)) = st_halt s" "st_server (snd (set_cloexec s)) = st_server s"
  "st_surface (snd (set_cloexec s)) = st_surface s"
  by (simp_all add: sys_ret_def next_call_def set_cloexec_def Let_def)

lemma spawn_view [simp]:
  "st_halt (snd (spawn_command f n d s)) = st_halt s" "st_server (snd (spawn_command f n d s)) = st_server s"
  "st_surface (snd (spawn_command f n d s)) = st_surface s"
  by (simp_all add: spawn_command_def Let_def split_beta)

lemma add_client_live:
  assumes "st_halt s = None" "sv_display (st_server s)"
    and "case target of Some i \<Rightarrow> sw_client (st_surface s i) = None | None \<Rightarrow> sv_main_client (st_server s) = None"
  shows "st_halt (add_client pid target s) = None"
  using assms by (cases target) (auto simp: add_client_def Let_def split_beta link_client_def run.simps c_assert_def)

lemma run_plugin_command_live:
  assumes "st_halt s = None" "sv_display (st_server s)"
    and "case target of Some i \<Rightarrow> sw_client (st_surface s i) = None | None \<Rightarrow> sv_main_client (st_server s) = None"
  shows "st_halt (snd (run_plugin_command target s)) = None"
  using assms by (auto simp: run_plugin_command_def Let_def split_beta intro!: add_client_live split: option.splits)

lemma cleanup_live:
  assumes l: "linked {} D s" and c: "c \<in> set (sv_clients (st_server s))"
  shows "st_halt (cleanup_client c s) = st_halt s" "sv_display (st_server (cleanup_client c s)) = sv_display (st_server s)"
  using linkedD(4,5) [OF l c]
  by (auto simp: cleanup_client_def Let_def run.simps c_assert_def split: option.splits)


text \<open>An example: one output is announced before the start, and no system call fails.\<close>

definition example_start :: swaylock_state where
  "example_start = start_program (run (map (handle_upstream (\<lambda>rs. rs)) [Global_output 0 7])
     (initial_state quiet_world (replicate 1024 7) default_args))"

lemma example_start_runs:
  "st_halt example_start = None \<and> sv_display (st_server example_start) \<and> sv_clients (st_server example_start) = [0]"
  by code_simp

lemmas example_reached = reached_start [of "\<lambda>rs. rs" "\<lambda>_. True" "(Locking, example_start)", unfolded example_start_def]

lemma program_well_formed_witness: "well_formed example_start"
  using program_well_formed [OF example_reached] example_start_runs by (simp add: example_start_def)


end
