(* ===== verification/Endings.thy ===== *)
theory Endings
  imports Session
begin

section \<open>How the lock ends\<close>

text \<open>
  An accepted password ends the main loop whatever else happens in the same round, a password child that fails ends the program
  without unlocking, and the end of the grace period by a suspension leaves a closed descriptor behind.
\<close>

subsection \<open>An accepted password\<close>

text \<open>What runs between two tests of the main loop: callbacks of descriptors and timers, and the loop's own
  bookkeeping.\<close>

inductive callback :: "(nat list \<Rightarrow> nat list) \<Rightarrow> (swaylock_state \<Rightarrow> swaylock_state) \<Rightarrow> bool" for by_id where
  fd_callback: "callback by_id (run_fd by_id inp cb fd m)"
| timer_callback: "callback by_id (run_timer by_id cb)"
| loop_work: "callback by_id (on_loop g)"

inductive_cases callbackE: "callback by_id f"

lemma damage_keeps_running: "st_run_display (damage_state s) = st_run_display s"
  by simp

lemma comm_in_stops: "st_run_display (comm_in m pipe s) \<Longrightarrow> st_run_display s"
proof -
  have later: "st_run_display x \<longrightarrow> st_run_display s" if "keeps (s\<lparr>st_world := w\<rparr>) x" for w x
    using that by (simp add: keeps_def)
  show "st_run_display (comm_in m pipe s) \<Longrightarrow> st_run_display s"
    by (auto simp: comm_in_def Let_def halt_with_def split: option.splits if_splits
        intro!: later [THEN mp] keeping)
qed

lemma display_in_stops: "st_run_display (display_in by_id es ok s) \<Longrightarrow> st_run_display s"
proof -
  assume on: "st_run_display (display_in by_id es ok s)"
  let ?x = "run (map (handle_upstream by_id) es) s"
  have "keeps s ?x" by (auto intro!: keeping)
  moreover have "st_run_display ?x" using on by (cases "st_halt s") (auto simp: display_in_def run.simps run_halted split: if_splits)
  ultimately show ?thesis by (simp add: keeps_def)
qed

lemma callback_stops: "callback by_id f \<Longrightarrow> st_run_display (f s) \<Longrightarrow> st_run_display s"
proof (erule callbackE)
  fix inp cb fd m
  assume f: "f = run_fd by_id inp cb fd m" and on: "st_run_display (f s)"
  have kept: "st_run_display s" if "keeps s (f s)" using that on by (simp add: keeps_def)
  show "st_run_display s"
  proof (cases cb)
    case Display_in
    then show ?thesis using on f display_in_stops by simp
  next
    case Comm_in
    then show ?thesis using on f comm_in_stops by simp
  next
    case Term_in
    then show ?thesis using on f by (simp add: term_in_def)
  qed (rule kept, simp add: f, rule keeping, rule keeps_refl)+
next
  fix cb assume "f = run_timer by_id cb" "st_run_display (f s)"
  then show "st_run_display s" using keeps_timer [of s s by_id cb] by (simp add: keeps_def)
qed (simp add: on_loop_def)

lemma callbacks_stop: "list_all (callback by_id) cbs \<Longrightarrow> \<not> st_run_display s \<Longrightarrow> \<not> st_run_display (fold (\<lambda>f. f) cbs s)"
  by (induction cbs arbitrary: s) (auto dest: callback_stops)

lemma reply_of_one_byte: "ret k = 1 \<Longrightarrow> read_comm_reply ret (b # rest) k = Some (Some (b \<noteq> 0), rest, Suc k)"
  by (simp add: read_comm_reply_def read_full.simps [of ret "Suc 0" "[]"] read_full.simps [of ret "Suc 0" "[b]"])

text \<open>C4. An accepted password unlocks.  When the reply byte of the password child is not zero, then whatever
  else runs in that round of the event loop, in whatever order (events of the compositor, plugin requests, time-outs,
  even a refusal or a signal), unless it ends the process, the next test of the main loop leaves it: the session lock is
  destroyed, as the last thing asked of anyone, and the program exits with status 0.\<close>

theorem accepted_password_unlocks:
  assumes "m AND POLLIN \<noteq> 0" and "w_ret (st_world s) (w_calls (st_world s)) = 1" and "b \<noteq> 0"
    and "list_all (callback by_id) cbs"
    and "st_halt (fold (\<lambda>f. f) cbs (comm_in m (b # rest) s)) = None"
  shows "\<exists>s'. main_step by_id inp (Running, fold (\<lambda>f. f) cbs (comm_in m (b # rest) s)) = (Done, s') \<and>
    st_halt s' = Some (Exit 0) \<and> last (st_trace s') = Up Unlock_and_destroy"
proof -
  have "\<not> st_run_display (comm_in m (b # rest) s)"
    using assms(1-3) by (simp add: comm_in_def Let_def reply_of_one_byte)
  from callbacks_stop [OF assms(4) this] show ?thesis
    using assms(5) by (simp add: main_step_def halted_def unlock_session_def halt_with_def emit_def)
qed

lemma accepted_password_unlocks_witness:
  "\<exists>s'. main_step (\<lambda>rs. rs) \<lparr>ri_flush_ok = True, ri_poll = Poll_ready, ri_ready = (\<lambda>_. 0), ri_upstream = [],
       ri_upstream_ok = True, ri_reply = [], ri_nested = [], ri_clock = zero_time\<rparr>
     (Running, fold (\<lambda>f. f) [run_timer (\<lambda>rs. rs) Set_input_idle]
       (comm_in POLLIN [1] ((initial_state (quiet_world\<lparr>w_ret := (\<lambda>_. 1)\<rparr>) [] default_args)\<lparr>st_run_display := True\<rparr>))) = (Done, s') \<and>
     st_halt s' = Some (Exit 0) \<and> last (st_trace s') = Up Unlock_and_destroy"
proof (rule accepted_password_unlocks)
  show "list_all (callback (\<lambda>rs. rs)) [run_timer (\<lambda>rs. rs) Set_input_idle]" by (simp add: timer_callback)
qed (simp_all add: POLLIN_def comm_in_def reply_of_one_byte set_input_idle_def initial_state_def quiet_world_def damage_state_def)

subsection \<open>A password child that fails\<close>

lemma reply_fails:
  "ret k \<le> 0 \<Longrightarrow> ret k \<noteq> - EINTR \<Longrightarrow> read_comm_reply ret pipe k = Some (None, pipe, Suc k)"
  by (auto simp: read_comm_reply_def read_full.simps [of ret "Suc 0" "[]"] Let_def)

text \<open>C14. A password child that dies does not unlock.  When its pipe is closed (with or without a last readable
  event), or reading fails with anything but an interruption, the program exits with a failure status at
  once: it asks nothing of the compositor any more, whatever would come later, so the compositor keeps the session
  locked.\<close>

theorem dead_child_stays_locked:
  assumes "(m AND POLLIN \<noteq> 0 \<and> w_ret (st_world s) (w_calls (st_world s)) \<le> 0 \<and>
             w_ret (st_world s) (w_calls (st_world s)) \<noteq> - EINTR) \<or>
           (m AND POLLIN = 0 \<and> m AND (POLLHUP OR POLLERR) \<noteq> 0)"
    and "reached by_id P (ph, comm_in m pipe s) (ph', s')"
  shows "st_halt s' = Some (Exit EXIT_FAILURE) \<and> st_trace s' = st_trace s"
proof -
  have dead: "st_halt (comm_in m pipe s) = Some (Exit EXIT_FAILURE) \<and> st_trace (comm_in m pipe s) = st_trace s"
    using assms(1) by (auto simp: comm_in_def reply_fails halt_with_def)
  have "snd m' = comm_in m pipe s" if "reached by_id P (ph, comm_in m pipe s) m'" for m'
    using that by induction (use dead in \<open>auto simp: main_step_def halted_def\<close>)
  from this [OF assms(2)] show ?thesis using dead by simp
qed

lemma dead_child_stays_locked_witness:
  "st_halt (comm_in POLLHUP [] (initial_state quiet_world [] default_args)) = Some (Exit EXIT_FAILURE) \<and>
   st_trace (comm_in POLLHUP [] (initial_state quiet_world [] default_args)) = []"
proof -
  have "reached (\<lambda>rs. rs) (\<lambda>_. True) (Running, comm_in POLLHUP [] (initial_state quiet_world [] default_args))
     (Running, comm_in POLLHUP [] (initial_state quiet_world [] default_args))" by (rule reached_start)
  then show ?thesis
    using dead_child_stays_locked [of POLLHUP "initial_state quiet_world [] default_args" "\<lambda>rs. rs" "\<lambda>_. True" Running "[]" Running]
    by (simp add: POLLIN_def POLLHUP_def POLLERR_def initial_state_def)
qed

subsection \<open>The end of the grace period\<close>

lemma remove_fd_scan_absent: "\<forall>p \<in> set ps. pfd_fd p \<noteq> fd \<Longrightarrow> remove_fd_scan fd ps evs = (False, evs)"
  by (induction fd ps evs rule: remove_fd_scan.induct) auto

text \<open>C28. A suspension leaves a closed descriptor in the loop.  The handler of the suspension watcher closes
  its pipe and resets the field to -1 before it uses the field to remove the descriptor from the loop: the entry
  stays, every later \<open>poll\<close> is asked about a closed (or reused) number, and nothing removes it any more.
  Ending the period by a signal removes it first.\<close>

theorem suspension_leaves_closed_descriptor:
  assumes "st_grace_timer s = Some t" and "\<forall>p \<in> set (fds (st_eventloop s)). pfd_fd p \<noteq> -1"
  shows "fds (st_eventloop (sleep_in s)) = fds (st_eventloop s) \<and>
    fd_events (st_eventloop (sleep_in s)) = fd_events (st_eventloop s) \<and>
    Sys (Close (st_sleep_comm_r s)) \<in> set (st_trace (sleep_in s)) \<and>
    fd_events (st_eventloop (lock_in s)) =
      snd (remove_fd_scan (st_sleep_comm_r s) (fds (st_eventloop s)) (fd_events (st_eventloop s)))"
  using assms
  by (simp add: sleep_in_def lock_in_def forget_sleep_pipe_def unwatch_sleep_def loop_remove_fd_def emit_def on_loop_def
      remove_timer_loop loop_remove_timer_def split_beta remove_fd_scan_absent)

lemma suspension_leaves_closed_descriptor_witness:
  "\<exists>s. st_grace_timer s = Some 0 \<and> (\<exists>ev \<in> set (fd_events (st_eventloop (sleep_in s))). \<not> fe_removed ev) \<and>
     Sys (Close 9) \<in> set (st_trace (sleep_in s))"
proof -
  let ?s = "on_loop (loop_add_fd 9 POLLIN Sleep_in)
    ((initial_state quiet_world [] default_args)\<lparr>st_grace_timer := Some 0, st_sleep_comm_r := 9, st_sleep_comm_w := 10\<rparr>)"
  have "fds (st_eventloop (sleep_in ?s)) = fds (st_eventloop ?s) \<and>
    fd_events (st_eventloop (sleep_in ?s)) = fd_events (st_eventloop ?s) \<and>
    Sys (Close (st_sleep_comm_r ?s)) \<in> set (st_trace (sleep_in ?s)) \<and>
    fd_events (st_eventloop (lock_in ?s)) =
      snd (remove_fd_scan (st_sleep_comm_r ?s) (fds (st_eventloop ?s)) (fd_events (st_eventloop ?s)))"
    by (rule suspension_leaves_closed_descriptor)
       (simp_all add: on_loop_def loop_add_fd_def initial_state_def loop_create_def)
  then show ?thesis by (intro exI [of _ ?s]) (simp add: on_loop_def loop_add_fd_def)
qed

end
