(* ===== verification/OutputLife.thy ===== *)
theory OutputLife
  imports Endings
begin

section \<open>Outputs that come, go and change size\<close>

text \<open>
  Outputs after the fallback to a background without clients, and outputs whose size changes while a plugin starts.
\<close>

subsection \<open>Hot-plugging without a nested display\<close>

lemma spawn_succeeds:
  assumes "\<forall>k. w_ret (st_world s) k = 0"
  shows "fst (run_plugin_command output s) = True" "\<not> sv_display (st_server s) \<Longrightarrow> st_halt s = None \<Longrightarrow>
    st_halt (snd (run_plugin_command output s)) = Some Undefined"
  using assms
  by (simp_all add: run_plugin_command_def Let_def sys_ret_def next_call_def set_cloexec_def spawn_command_def emit_def
      add_client_def halt_with_def split: option.split)

text \<open>C21. A new output after the fallback is undefined behaviour.  Once the background runs without clients the nested
  display is gone, but an output that is plugged in then still starts its own plugin command (when there is one per
  output) and connects it to that display: the library is called with a null pointer.\<close>

theorem hotplug_after_fallback_undefined:
  assumes "\<not> sv_display (st_server s)" and "a_plugin_per_output (st_args s)" and "st_halt s = None"
    and "st_run_display s" and "\<not> sw_created (st_surface s i)" and "sw_output_desc (st_surface s i) \<noteq> Desc_pending"
    and "\<forall>k. w_ret (st_world s) k = 0"
  shows "st_halt (handle_wl_output_done i s) = Some Undefined"
proof -
  define ready :: "swaylock_state \<Rightarrow> bool" where "ready x \<longleftrightarrow> \<not> sv_display (st_server x) \<and> a_plugin_per_output (st_args x) \<and> st_halt x = None \<and>
    (\<forall>k. w_ret (st_world x) k = 0)" for x
  have steps: "ready x \<Longrightarrow> ready (emit e x)" "ready x \<Longrightarrow> ready (on_surface i g x)" "ready x \<Longrightarrow> ready (arm_redraw_timer i x)"
    "ready x \<Longrightarrow> ready (if b then emit e x else x)" for x e g b
    by (simp_all add: ready_def emit_def arm_redraw_timer_def add_timer_def clock_gettime_def next_call_def on_loop_def on_surface_def split_beta)
  have next_step: "st_halt (run (f # fs) x) = Some Undefined" if "ready x" "st_halt (run fs (f x)) = Some Undefined" for f fs x
    using that by (simp add: ready_def run_first)
  have spawn: "st_halt (run [\<lambda>s. if a_plugin_per_output (st_args s)
                 then case run_plugin_command (Some i) s of (ok, s1) \<Rightarrow> if ok then s1 else setup_clientless_mode s1
                 else s, g] x) = Some Undefined" if "ready x" for x g
    using that spawn_succeeds [of x "Some i"] by (simp add: ready_def run_first run_halted split_beta)
  have r: "ready (on_surface i (\<lambda>sf. sf\<lparr>sw_has_output_done := True\<rparr>) s)" using assms by (simp add: ready_def on_surface_def)
  have "st_halt (create_surface i (on_surface i (\<lambda>sf. sf\<lparr>sw_has_output_done := True\<rparr>) s)) = Some Undefined"
    unfolding create_surface_def Let_def
    by (rule r | rule spawn | rule next_step | rule steps)+
  then show ?thesis using assms by (simp add: handle_wl_output_done_def init_surface_if_ready_def on_surface_def)
qed

lemma hotplug_after_fallback_undefined_witness:
  "st_halt (handle_wl_output_done 0 (handle_global_output 0 7
     ((initial_state (quiet_world\<lparr>w_ret := (\<lambda>_. 0)\<rparr>) [] (default_args\<lparr>a_plugin_per_output := True\<rparr>))
       \<lparr>st_run_display := True, st_server := (st_server (initial_state quiet_world [] default_args))\<lparr>sv_display := False\<rparr>\<rparr>))) = Some Undefined"
  by (rule hotplug_after_fallback_undefined)
     (simp_all add: handle_global_output_def Let_def initial_state_def zero_forward_def zero_surface_def quiet_world_def on_surface_def)

text \<open>Unplugging an output after the fallback is undefined behaviour.  The nested global of the output was freed
  with the nested display, but the field still names it, and the removal of the output uses it (or destroys
  the client of the output, whose connection was freed too).\<close>

theorem unplug_after_fallback_undefined:
  assumes "\<not> sv_display (st_server s)" and "st_halt s = None" and "sw_nested_server_output (st_surface s i)"
    and "find (\<lambda>i. sw_output_global_name (st_surface s i) = name) (st_surfaces s) = Some i"
  shows "st_halt (handle_global_remove by_id name s) = Some Undefined"
proof -
  have dead: "st_halt (run fs x) = Some Undefined" if "st_halt x = Some Undefined" for fs x
    using that by (simp add: run_halted)
  define left :: "swaylock_state \<Rightarrow> bool" where "left x \<longleftrightarrow> \<not> sv_display (st_server x) \<and> st_halt x = None \<and> sw_nested_server_output (st_surface x i)" for x
  have start: "left s" "left (drop_frame_callback i s)"
    using assms by (simp_all add: left_def drop_frame_callback_def emit_def)
  have remove: "left (x\<lparr>st_surfaces := removeAll i (st_surfaces x)\<rparr>)" if "left x" for x using that by (simp add: left_def)
  have close: "left (close_plugin_surface i x) \<or> st_halt (close_plugin_surface i x) = Some Undefined" if "left x" for x
    using that by (auto simp: left_def close_plugin_surface_def emit_def halt_with_def on_plugin_surface_def on_forward_def split: option.split)
  have drop: "left (drop_output_client by_id i x) \<or> st_halt (drop_output_client by_id i x) = Some Undefined" if l: "left x" for x
  proof (cases "sw_client (st_surface x i)")
    case None
    then show ?thesis using l by (simp add: drop_output_client_def)
  next
    case (Some c)
    let ?x = "on_client c (\<lambda>b. b\<lparr>bc_destroy_listening := False\<rparr>) x"
    have "st_halt ?x = None" "st_halt (wl_client_destroy by_id (bc_client (client ?x c)) ?x) = Some Undefined"
      using l by (simp_all add: left_def on_client_def on_server_def wl_client_destroy_def halt_with_def)
    then show ?thesis using l Some by (simp add: left_def drop_output_client_def run_first dead)
  qed
  have retire: "st_halt (retire_output_objects i x) = Some Undefined" if "left x" for x
    using that by (simp add: left_def retire_output_objects_def halt_with_def)
  have live: "left x \<Longrightarrow> st_halt x = None \<and> sw_nested_server_output (st_surface x i)" for x by (simp add: left_def)
  have step: "st_halt (run (f # fs) x) = Some Undefined"
    if "left x" "left (f x) \<or> st_halt (f x) = Some Undefined" "left (f x) \<Longrightarrow> st_halt (run fs (f x)) = Some Undefined"
    for f fs x
  proof -
    have "run (f # fs) x = run fs (f x)" using that(1) by (simp add: left_def run_first)
    then show ?thesis using that(2,3) dead by auto
  qed
  have last: "st_halt (run ((\<lambda>s. if sw_nested_server_output (st_surface s i) then retire_output_objects i s else s) # fs) x)
      = Some Undefined" if "left x" for x fs
    using that retire [OF that] by (simp add: left_def run_first dead)
  have "st_halt (destroy_surface by_id i s) = Some Undefined"
    unfolding destroy_surface_def
    by (rule step [OF start(1)], rule disjI1, rule start(2), rule step, assumption, rule disjI1, erule remove,
        rule step, assumption, erule close, rule step, assumption, erule drop, erule last)
  then show ?thesis using assms(4) by (simp add: handle_global_remove_def)
qed

lemma unplug_after_fallback_undefined_witness:
  "st_halt (handle_global_remove (\<lambda>rs. rs) 0 ((initial_state quiet_world [] default_args)
     \<lparr>st_surfaces := [0], st_surface := (\<lambda>_. zero_surface\<lparr>sw_nested_server_output := True\<rparr>),
      st_server := (st_server (initial_state quiet_world [] default_args))\<lparr>sv_display := False\<rparr>\<rparr>)) = Some Undefined"
  by (rule unplug_after_fallback_undefined) (simp_all add: initial_state_def zero_surface_def)

subsection \<open>A change of size while a plugin starts\<close>

lemma fold_emit_fields [simp]:
  "st_surface (fold (\<lambda>r. emit (g r)) rs s) = st_surface s" "st_server (fold (\<lambda>r. emit (g r)) rs s) = st_server s"
  "st_halt (fold (\<lambda>r. emit (g r)) rs s) = st_halt s"
  by (induction rs arbitrary: s) (simp_all add: emit_def)

lemma render_quiet: "quiet s (render i s)"
  by (rule drawsD(1) [OF draws_render [OF insertI1 draws_refl]])

definition configured :: "u32 \<Rightarrow> u32 \<Rightarrow> u32 \<Rightarrow> swaylock_surface \<Rightarrow> bool" where
  "configured n w h sf \<longleftrightarrow>
     sw_first_configure_serial sf = n \<and> \<not> sw_used_first_configure sf \<and> sw_width sf = w \<and> sw_height sf = h \<and>
     sw_plugin_surface sf = None"

text \<open>The last two steps of the handler, which draw and arm the timer.\<close>

abbreviation finish_configure :: "nat \<Rightarrow> bool \<Rightarrow> swaylock_state \<Rightarrow> swaylock_state" where
  "finish_configure i b \<equiv>
     run [(\<lambda>s. render i (on_surface i (\<lambda>sf. sf\<lparr>sw_dirty := True\<rparr>) s)),
          (\<lambda>s. if b \<and> sw_client_submission_timer (st_surface s i) = None then arm_redraw_timer i s else s)]"

lemma rest_of_configure:
  assumes "configured n w h (st_surface x i)" "st_halt x = None" "sv_display (st_server x)"
  shows "configured n w h (st_surface (finish_configure i b x) i) \<and> st_halt (finish_configure i b x) = None \<and>
    sv_display (st_server (finish_configure i b x))"
  using assms quietD [OF render_quiet [of "on_surface i (\<lambda>sf. sf\<lparr>sw_dirty := True\<rparr>) x" i]]
  by (simp add: run_first configured_def on_surface_def arm_redraw_timer_def split_beta)

lemma first_configure:
  assumes "st_halt s = None" "sv_display (st_server s)" "sw_width (st_surface s i) = 0"
    "sw_plugin_surface (st_surface s i) = None" "w \<noteq> 0" "h \<noteq> 0"
  shows "configured n w h (st_surface (ext_session_lock_surface_v1_handle_configure i n w h s) i) \<and>
    st_halt (ext_session_lock_surface_v1_handle_configure i n w h s) = None \<and>
    sv_display (st_server (ext_session_lock_surface_v1_handle_configure i n w h s))"
proof -
  let ?s1 = "on_surface i (\<lambda>sf. sf\<lparr>sw_width := w, sw_height := h, sw_newest_serial := n\<rparr>) s"
  let ?s2 = "on_surface i (\<lambda>sf. sf\<lparr>sw_has_newer_serial := True\<rparr>) (forward_configure i True n ?s1)"
  have "configured n w h (st_surface ?s2 i)" "st_halt ?s2 = None" "sv_display (st_server ?s2)"
    using assms by (simp_all add: forward_configure_def on_surface_def emit_def configured_def)
  note rest = rest_of_configure [OF this, of False]
  have "ext_session_lock_surface_v1_handle_configure i n w h s = finish_configure i False ?s2"
    using assms
    by (simp add: ext_session_lock_surface_v1_handle_configure_def Let_def run_first on_surface_def forward_configure_def emit_def)
  then show ?thesis using rest by simp
qed

lemma later_configure:
  assumes "st_halt s = None" "sv_display (st_server s)" "configured n w h (st_surface s i)" "w \<noteq> 0" "h \<noteq> 0"
    "w' \<noteq> 0" "h' \<noteq> 0"
  shows "configured n w' h' (st_surface (ext_session_lock_surface_v1_handle_configure i n' w' h' s) i)"
proof -
  let ?s1 = "on_surface i (\<lambda>sf. sf\<lparr>sw_width := w', sw_height := h', sw_newest_serial := n'\<rparr>) s"
  let ?s2 = "on_surface i (\<lambda>sf. sf\<lparr>sw_has_newer_serial := True\<rparr>) (forward_configure i False n' ?s1)"
  have "configured n w' h' (st_surface ?s2 i)" "st_halt ?s2 = None" "sv_display (st_server ?s2)"
    "st_halt (forward_configure i False n' ?s1) = None"
    using assms by (simp_all add: forward_configure_def reconfigure_plugin_def on_surface_def Let_def configured_def)
  note rest = rest_of_configure [OF this(1-3), of "w \<noteq> w' \<or> h \<noteq> h'"] and live = this(4)
  have "ext_session_lock_surface_v1_handle_configure i n' w' h' s = finish_configure i (w \<noteq> w' \<or> h \<noteq> h') ?s2"
    using assms live
    by (simp add: ext_session_lock_surface_v1_handle_configure_def configured_def Let_def run_first on_surface_def)
  then show ?thesis using rest by simp
qed

text \<open>C38. The first configure of a plugin can pair an old serial with a new size.  When the compositor configures
  an output twice before its plugin commits for the first time, the plugin is told the size of the second
  event, but its acknowledgement is recorded as one of the first event: the acknowledged event asked for the first
  size, the buffer will have the second, which \<open>ext-session-lock\<close> makes a fatal error of the locker.\<close>

theorem first_serial_with_later_size:
  assumes "st_halt s = None" "sv_display (st_server s)" "sw_width (st_surface s i) = 0"
    "sw_plugin_surface (st_surface s i) = None" "w1 \<noteq> 0" "h1 \<noteq> 0" "w2 \<noteq> 0" "h2 \<noteq> 0"
    and "st_surface s' i = (st_surface (ext_session_lock_surface_v1_handle_configure i n2 w2 h2
           (ext_session_lock_surface_v1_handle_configure i n1 w1 h1 s)) i)\<lparr>sw_plugin_surface := Some p, sw_client := Some c\<rparr>"
    and "st_halt s' = None" "fs_sway_surface (plugin_surface s' p) = Some i" "fs_layer_surface (plugin_surface s' p) = Some l"
    and "\<not> fs_inert (plugin_surface s' p)" "fs_subsurface_parent (plugin_surface s' p) = None"
    and "\<not> fs_has_been_configured (plugin_surface s' p)"
  shows "fs_serial_table (plugin_surface (nested_surface_commit p s') p) =
      fs_serial_table (plugin_surface s' p) @
        [\<lparr>sp_plugin_serial = bc_serial (client s' c), sp_upstream_serial = n1, sp_config_width = w2,
          sp_config_height = h2, sp_local_only = False\<rparr>] \<and>
    Down (Send_configure l (bc_serial (client s' c)) w2 h2) \<in> set (st_trace (nested_surface_commit p s'))"
proof -
  have one: "configured n1 w1 h1 (st_surface (ext_session_lock_surface_v1_handle_configure i n1 w1 h1 s) i) \<and>
      st_halt (ext_session_lock_surface_v1_handle_configure i n1 w1 h1 s) = None \<and>
      sv_display (st_server (ext_session_lock_surface_v1_handle_configure i n1 w1 h1 s))"
    by (rule first_configure) (use assms in simp_all)
  have "configured n1 w2 h2 (st_surface (ext_session_lock_surface_v1_handle_configure i n2 w2 h2
           (ext_session_lock_surface_v1_handle_configure i n1 w1 h1 s)) i)"
    using later_configure one assms(5-8) by blast
  then show ?thesis using assms(9-15)
    by (simp add: configured_def nested_surface_commit_def commit_layer_surface_def initial_configure_def run_first Let_def
        add_serial_pair_def on_plugin_surface_def on_surface_def on_forward_def on_client_def on_server_def emit_def c_assert_def
        halt_with_def)
qed

lemma first_serial_with_later_size_witness:
  "\<exists>s' l. sp_upstream_serial (last (fs_serial_table (plugin_surface (nested_surface_commit 3 s') 3))) = 1 \<and>
     Down (Send_configure l (bc_serial (client s' 0)) 20 30) \<in> set (st_trace (nested_surface_commit 3 s'))"
proof -
  let ?s = "(initial_state quiet_world [] default_args)\<lparr>st_surfaces := [0]\<rparr>"
  let ?sf = "st_surface (ext_session_lock_surface_v1_handle_configure 0 2 20 30
    (ext_session_lock_surface_v1_handle_configure 0 1 10 10 ?s)) 0"
  let ?s' = "on_plugin_surface 3 (\<lambda>u. u\<lparr>fs_sway_surface := Some 0, fs_layer_surface := Some 5\<rparr>)
    (on_surface 0 (\<lambda>_. ?sf\<lparr>sw_plugin_surface := Some 3, sw_client := Some 0\<rparr>) ?s)"
  have "fs_serial_table (plugin_surface (nested_surface_commit 3 ?s') 3) =
      fs_serial_table (plugin_surface ?s' 3) @
        [\<lparr>sp_plugin_serial = bc_serial (client ?s' 0), sp_upstream_serial = 1, sp_config_width = 20,
          sp_config_height = 30, sp_local_only = False\<rparr>] \<and>
    Down (Send_configure 5 (bc_serial (client ?s' 0)) 20 30) \<in> set (st_trace (nested_surface_commit 3 ?s'))"
    by (rule first_serial_with_later_size [where s = ?s and i = 0 and ?w1.0 = 10 and ?h1.0 = 10 and ?n2.0 = 2])
       (simp_all add: initial_state_def zero_surface_def zero_forward_def new_forward_surface_def on_plugin_surface_def
         on_forward_def on_surface_def)
  then show ?thesis by (intro exI [of _ ?s'] exI [of _ 5]) simp
qed

end
