(* ===== verification/Formats.thy ===== *)
theory Formats
  imports Types
begin

section \<open>Formats and capabilities of the compositor (forward-client.c, forward.c, main.c)\<close>

text \<open>
  The lists the compositor announces (pixel formats, modifiers, colour features, alpha modes), kept in
  arrays that grow by powers of two, the feedback of linux-dmabuf with its pending and current state, and the
  replay of all of it to the objects of plugin clients.  An \<open>array\<close> is the block \<open>realloc\<close> returned (cells not
  written yet are \<open>None\<close>) and the length field beside it; lengths are \<open>size_t\<close>, at 64 bits.
  \<open>realloc\<close> is taken to succeed.  A function that may end the process returns a sum, \<open>Inl\<close> the way it ends.
\<close>

subsection \<open>Growing arrays\<close>

definition SIZE_MAX :: u64 where
  "SIZE_MAX = - 1"

partial_function (option) double_until :: "u64 \<Rightarrow> u64 \<Rightarrow> u64 option" where
  "double_until n p = (if p < n then double_until n (push_bit 1 p) else Some p)"

definition next_power_of_two :: "u64 \<Rightarrow> halt + u64" where
  "next_power_of_two n =
     (if \<not> n \<le> SIZE_MAX div 2 then Inl Abort
      else if n = 0 then Inr 0
      else case double_until n 1 of None \<Rightarrow> Inl Hang | Some p \<Rightarrow> Inr p)"

definition and_then :: "halt + 'a \<Rightarrow> ('a \<Rightarrow> halt + 'b) \<Rightarrow> halt + 'b" where
  "and_then r f = (case r of Inl h \<Rightarrow> Inl h | Inr x \<Rightarrow> f x)"

lemma and_then_simps [simp]: "and_then (Inl h) f = Inl h" "and_then (Inr x) f = f x"
  by (simp_all add: and_then_def)

record 'a array =
  ar_data :: "'a option list"
  ar_len :: u64

definition empty_array :: "'a array" where
  "empty_array = \<lparr>ar_data = [], ar_len = 0\<rparr>"

text \<open>\<open>realloc\<close> to a number of elements: the old cells are kept as far as they fit.\<close>

definition realloc :: "nat \<Rightarrow> 'a option list \<Rightarrow> 'a option list" where
  "realloc n cells = take n cells @ replicate (n - length cells) None"

definition add_one_element :: "u64 \<Rightarrow> 'a array \<Rightarrow> halt + 'a array" where
  "add_one_element element_size a =
     and_then (next_power_of_two (ar_len a)) (\<lambda>capacity.
     and_then (next_power_of_two (ar_len a + 1)) (\<lambda>next_capacity.
       if next_capacity \<noteq> capacity then
         if \<not> SIZE_MAX div element_size \<ge> next_capacity then Inl Abort
         else Inr (a\<lparr>ar_data := realloc (unat next_capacity) (ar_data a), ar_len := ar_len a + 1\<rparr>)
       else Inr (a\<lparr>ar_len := ar_len a + 1\<rparr>)))"

text \<open>The store to the last element that follows each \<open>add_one_element\<close>; outside of the block it is undefined.\<close>

definition store_last :: "'a \<Rightarrow> 'a array \<Rightarrow> halt + 'a array" where
  "store_last x a =
     (let i = unat (ar_len a - 1) in
      if i < length (ar_data a) then Inr (a\<lparr>ar_data := (ar_data a)[i := Some x]\<rparr>) else Inl Undefined)"

definition append_element :: "u64 \<Rightarrow> 'a \<Rightarrow> 'a array \<Rightarrow> halt + 'a array" where
  "append_element element_size x a = and_then (add_one_element element_size a) (store_last x)"

definition contents :: "'a array \<Rightarrow> 'a list" where
  "contents a = map the (take (unat (ar_len a)) (ar_data a))"

fun append_elements :: "u64 \<Rightarrow> 'a list \<Rightarrow> 'a array \<Rightarrow> halt + 'a array" where
  "append_elements element_size [] a = Inr a"
| "append_elements element_size (x # xs) a =
     and_then (append_element element_size x a) (append_elements element_size xs)"

lemma unat_two_power: "k < LENGTH('a) \<Longrightarrow> unat (2 ^ k :: 'a :: len word) = 2 ^ k"
  using unat_word_of_nat [of "2 ^ k", where 'a = 'a] by simp

text \<open>The doubling loop ends at the least power of two that is not below the argument.\<close>

lemma double_until_power:
  assumes "unat n \<le> 2 ^ m" and "k \<le> m" and "m < 64" and "k = 0 \<or> 2 ^ (k - 1) < unat n"
  shows "\<exists>j. double_until n (2 ^ k) = Some (2 ^ j) \<and> j \<le> m \<and> unat n \<le> 2 ^ j \<and> (j = 0 \<or> 2 ^ (j - 1) < unat n)"
  using assms
proof (induction "m - k" arbitrary: k)
  case 0
  then have "k = m" by simp
  moreover have "\<not> (2 ^ m :: u64) < n"
    using 0 by (simp add: word_less_nat_alt unat_two_power)
  ultimately show ?case using 0 by (auto simp: double_until.simps [of n])
next
  case (Suc d)
  have small: "k < 64" using Suc.prems by simp
  show ?case
  proof (cases "(2 ^ k :: u64) < n")
    case True
    then have less: "2 ^ k < unat n" using small by (simp add: word_less_nat_alt unat_two_power)
    have "k < m" using less Suc.prems(1) by (metis le_less_trans leD linorder_not_less power_increasing one_le_numeral order_less_le_trans)
    then have "\<exists>j. double_until n (2 ^ Suc k) = Some (2 ^ j) \<and> j \<le> m \<and> unat n \<le> 2 ^ j \<and> (j = 0 \<or> 2 ^ (j - 1) < unat n)"
      using Suc less by (intro Suc.hyps(1)) auto
    moreover have "push_bit 1 (2 ^ k :: u64) = 2 ^ Suc k" by (simp add: push_bit_eq_mult mult.commute)
    ultimately show ?thesis using True by (simp add: double_until.simps [of n "2 ^ k"] mult.commute)
  next
    case False
    then have "unat n \<le> 2 ^ k" using small by (simp add: word_less_nat_alt unat_two_power)
    then show ?thesis using False Suc.prems by (auto simp: double_until.simps [of n "2 ^ k"])
  qed
qed

definition power_above :: "nat \<Rightarrow> nat" where
  "power_above n = (if n = 0 then 0 else 2 ^ (LEAST k. n \<le> 2 ^ k))"

lemma power_above_eq: "0 < n \<Longrightarrow> n \<le> 2 ^ j \<Longrightarrow> j = 0 \<or> 2 ^ (j - 1) < n \<Longrightarrow> power_above n = 2 ^ j"
proof -
  assume n: "0 < n" "n \<le> 2 ^ j" "j = 0 \<or> 2 ^ (j - 1) < n"
  have "(LEAST k. n \<le> 2 ^ k) = j"
  proof (rule Least_equality)
    fix k assume k: "n \<le> 2 ^ k"
    show "j \<le> k"
    proof (rule ccontr)
      assume "\<not> j \<le> k"
      then have "(2 :: nat) ^ k \<le> 2 ^ (j - 1)" by (intro power_increasing) auto
      with k have "n \<le> 2 ^ (j - 1)" by (rule le_trans)
      with n(3) \<open>\<not> j \<le> k\<close> show False by auto
    qed
  qed (fact n(2))
  with n(1) show ?thesis by (simp add: power_above_def)
qed

lemma next_power_of_two_eq:
  assumes "unat n < 2 ^ 63"
  shows "\<exists>p. next_power_of_two n = Inr p \<and> unat p = power_above (unat n)"
proof (cases "n = 0")
  case True
  then show ?thesis by (simp add: next_power_of_two_def power_above_def SIZE_MAX_def)
next
  case False
  then have pos: "0 < unat n" by (simp add: unat_gt_0)
  have lim: "n \<le> SIZE_MAX div 2"
    using assms by (simp add: SIZE_MAX_def word_le_nat_alt unat_div)
  from assms pos have "\<exists>j. double_until n (2 ^ 0) = Some (2 ^ j) \<and> j \<le> 63 \<and> unat n \<le> 2 ^ j \<and>
      (j = 0 \<or> 2 ^ (j - 1) < unat n)"
    by (intro double_until_power) auto
  then obtain j where j: "double_until n 1 = Some (2 ^ j)" "j \<le> 63" "unat n \<le> 2 ^ j" "j = 0 \<or> 2 ^ (j - 1) < unat n"
    by auto
  then show ?thesis
    using False lim pos by (simp add: next_power_of_two_def power_above_eq unat_two_power)
qed

lemma power_above_ge: "n \<le> power_above n"
proof (cases "n = 0")
  case False
  have "n \<le> 2 ^ n" by (simp add: less_imp_le)
  then have "n \<le> 2 ^ (LEAST k. n \<le> 2 ^ k)" by (rule LeastI)
  with False show ?thesis by (simp add: power_above_def)
qed simp

lemma power_above_le: "n \<le> 2 ^ k \<Longrightarrow> power_above n \<le> 2 ^ k"
  by (auto simp: power_above_def intro!: power_increasing Least_le)

text \<open>The block of a well-formed array holds exactly the least power of two of cells for its length, and the
  cells of the elements are written.\<close>

definition array_ok :: "'a array \<Rightarrow> bool" where
  "array_ok a \<longleftrightarrow> length (ar_data a) = power_above (unat (ar_len a)) \<and>
     (\<forall>i < unat (ar_len a). ar_data a ! i \<noteq> None)"

lemma array_ok_empty [simp]: "array_ok empty_array" "contents empty_array = []" "ar_len empty_array = 0"
  by (simp_all add: array_ok_def empty_array_def power_above_def contents_def)

lemma length_contents: "array_ok a \<Longrightarrow> length (contents a) = unat (ar_len a)"
  using power_above_ge [of "unat (ar_len a)"] by (simp add: array_ok_def contents_def)

lemma power_above_mono: "m \<le> n \<Longrightarrow> power_above m \<le> power_above n"
proof (cases "n = 0")
  case False
  assume "m \<le> n"
  also have "n \<le> 2 ^ (LEAST k. n \<le> 2 ^ k)"
    using LeastI [of "\<lambda>k. n \<le> 2 ^ k" n] by (simp add: less_imp_le)
  finally have "power_above m \<le> 2 ^ (LEAST k. n \<le> 2 ^ k)" by (rule power_above_le)
  with False show ?thesis by (simp add: power_above_def)
qed simp

lemma append_element_ok:
  assumes "array_ok a" and "unat (ar_len a) < 2 ^ 57" and "0 < element_size" and "element_size \<le> 64"
  shows "\<exists>a'. append_element element_size x a = Inr a' \<and> array_ok a' \<and> contents a' = contents a @ [x] \<and>
    unat (ar_len a') = Suc (unat (ar_len a))"
proof -
  let ?n = "unat (ar_len a)"
  have Suc_len: "unat (ar_len a + 1) = Suc ?n"
    using assms(2) by (simp add: unat_word_ariths)
  have len: "unat (ar_len a + 1 - 1) = ?n" by simp
  from next_power_of_two_eq [of "ar_len a"] assms(2)
  obtain c where c: "next_power_of_two (ar_len a) = Inr c" "unat c = power_above ?n" by auto
  from next_power_of_two_eq [of "ar_len a + 1"] assms(2) Suc_len
  obtain d where d: "next_power_of_two (ar_len a + 1) = Inr d" "unat d = power_above (Suc ?n)" by auto
  have "unat d \<le> 2 ^ 57" using power_above_le [of "Suc ?n" 57] assms(2) d(2) by simp
  moreover have "(2 :: nat) ^ 57 \<le> unat SIZE_MAX div unat element_size"
  proof -
    have "unat element_size \<le> 64" "0 < unat element_size"
      using assms(3,4) by (simp_all add: word_le_nat_alt unat_gt_0)
    then have "unat SIZE_MAX div 64 \<le> unat SIZE_MAX div unat element_size" by (intro div_le_mono2)
    moreover have "(2 :: nat) ^ 57 \<le> unat SIZE_MAX div 64" by (simp add: SIZE_MAX_def unsigned_minus_1_eq_mask mask_eq_exp_minus_1)
    ultimately show ?thesis by (rule le_trans [rotated])
  qed
  ultimately have size: "SIZE_MAX div element_size \<ge> d"
    by (simp add: word_le_nat_alt unat_div)
  have room: "?n < power_above (Suc ?n)" using power_above_ge [of "Suc ?n"] by simp
  have grow: "power_above ?n \<le> power_above (Suc ?n)" by (rule power_above_mono) simp
  have old: "?n \<le> power_above ?n" by (rule power_above_ge)
  define cells where "cells = (if d \<noteq> c then realloc (unat d) (ar_data a) else ar_data a)"
  have cells_len: "length cells = power_above (Suc ?n)"
    using assms(1) c(2) d(2) by (auto simp: cells_def realloc_def array_ok_def)
  have cells_old: "take ?n cells = take ?n (ar_data a)"
    using assms(1) c(2) d(2) grow old by (auto simp: cells_def realloc_def array_ok_def min_def)
  have "append_element element_size x a = Inr (a\<lparr>ar_data := cells[?n := Some x], ar_len := ar_len a + 1\<rparr>)"
    using size room cells_len
    by (cases "d = c") (simp_all add: append_element_def add_one_element_def c(1) d(1) store_last_def cells_def len Let_def)
  moreover have "contents (a\<lparr>ar_data := cells[?n := Some x], ar_len := ar_len a + 1\<rparr>) = contents a @ [x]"
    using room cells_len cells_old by (simp add: contents_def Suc_len take_Suc_update)
  moreover have "array_ok (a\<lparr>ar_data := cells[?n := Some x], ar_len := ar_len a + 1\<rparr>)"
  proof -
    have "cells ! i = ar_data a ! i" if "i < ?n" for i
      using cells_old that by (metis nth_take)
    with assms(1) show ?thesis
      using cells_len room by (auto simp: array_ok_def Suc_len nth_list_update less_Suc_eq)
  qed
  ultimately show ?thesis by (auto simp: Suc_len)
qed

lemma append_elements_ok:
  assumes "array_ok a" and "unat (ar_len a) + length xs < 2 ^ 57" and "0 < element_size" and "element_size \<le> 64"
  shows "\<exists>a'. append_elements element_size xs a = Inr a' \<and> array_ok a' \<and> contents a' = contents a @ xs"
  using assms
proof (induction xs arbitrary: a)
  case (Cons x xs)
  from append_element_ok [of a element_size x] Cons.prems
  obtain b where b: "append_element element_size x a = Inr b" "array_ok b" "contents b = contents a @ [x]"
    "unat (ar_len b) = Suc (unat (ar_len a))" by auto
  with Cons.IH [of b] Cons.prems show ?case by auto
qed simp

text \<open>C32. The arrays that collect what the compositor announces never overrun their block: from an empty array, any
  number of elements below \<open>2\<^sup>5\<^sup>7\<close>, of at most 64 bytes each, can be appended one by one; the doubling loop ends,
  no assertion fails, every element is stored inside the block, and the array then holds exactly the elements
  in their order.\<close>

theorem arrays_grow_in_bounds:
  assumes "length xs < 2 ^ 57" and "0 < element_size" and "element_size \<le> 64"
  shows "\<exists>a. append_elements element_size xs empty_array = Inr a \<and> contents a = xs \<and>
    unat (ar_len a) = length xs \<and> length xs \<le> length (ar_data a)"
proof -
  from append_elements_ok [of empty_array xs element_size] assms
  obtain a where a: "append_elements element_size xs empty_array = Inr a" "array_ok a" "contents a = xs"
    by auto
  moreover from a(2,3) have "unat (ar_len a) = length xs" by (metis length_contents)
  ultimately show ?thesis using power_above_ge [of "length xs"] by (auto simp: array_ok_def)
qed

lemma arrays_grow_in_bounds_witness:
  "\<exists>a. append_elements 4 [0x34325258, 0x34325241, 0x36314752 :: u32] empty_array = Inr a \<and>
    contents a = [0x34325258, 0x34325241, 0x36314752] \<and>
    unat (ar_len a) = length [0x34325258, 0x34325241, 0x36314752 :: u32] \<and>
    length [0x34325258, 0x34325241, 0x36314752 :: u32] \<le> length (ar_data a)"
  by (rule arrays_grow_in_bounds) simp_all

subsection \<open>What the compositor announces\<close>

record dmabuf_modifier_pair =
  dp_format :: u32
  dp_modifier_hi :: u32
  dp_modifier_lo :: u32

text \<open>\<open>indices\<close> is the array of 16-bit numbers; its \<open>size\<close> field is twice the length.\<close>

record feedback_tranche =
  tr_device :: u64
  tr_indices :: "u16 list"
  tr_flags :: u32

record dmabuf_feedback_state =
  df_main_device :: u64
  df_table_fd :: int
  df_table_fd_size :: int
  df_tranches :: "feedback_tranche array"

record color_coef_range =
  cr_coefficients :: u32
  cr_range :: u32

text \<open>The events sent to the objects of plugin clients.\<close>

datatype (plugins only: code) format_event =
    Shm_format u32
  | Dmabuf_format u32
  | Dmabuf_modifier u32 u32 u32
  | Main_device u64
  | Format_table int int
  | Tranche_target_device u64
  | Tranche_flags u32
  | Tranche_formats "u16 list"
  | Tranche_done
  | Feedback_done
  | Supported_intent u32
  | Supported_feature u32
  | Supported_tf u32
  | Supported_primaries u32
  | Color_manager_done
  | Supported_alpha_mode u32
  | Supported_coefficients_and_ranges u32 u32
  | Color_representation_done
  | Drm_device string
  | Drm_capabilities u32

text \<open>The fields of \<open>struct forward_state\<close> for formats.  \<open>ff_descriptors\<close> are the descriptors of format tables the
  process holds open, \<open>ff_stray_close\<close> says that it closed a descriptor it does not hold, and \<open>ff_sent\<close> is
  what was sent to which resource.\<close>

record forward_formats =
  ff_shm_formats :: "u32 array"
  ff_dmabuf_formats :: "dmabuf_modifier_pair array"
  ff_current :: dmabuf_feedback_state
  ff_pending :: dmabuf_feedback_state
  ff_pending_tranche :: feedback_tranche
  ff_feedback_instances :: "nat list"
  ff_color_representation_done :: bool
  ff_alpha_modes :: "u32 array"
  ff_coef_range_pairs :: "color_coef_range array"
  ff_color_management_done :: bool
  ff_supported_intents :: "u32 array"
  ff_supported_features :: "u32 array"
  ff_supported_tfs :: "u32 array"
  ff_supported_primaries :: "u32 array"
  ff_descriptors :: "int list"
  ff_stray_close :: bool
  ff_sent :: "(nat \<times> format_event) list"

definition zero_feedback :: dmabuf_feedback_state where
  "zero_feedback = \<lparr>df_main_device = 0, df_table_fd = - 1, df_table_fd_size = 0, df_tranches = empty_array\<rparr>"

definition zero_tranche :: feedback_tranche where
  "zero_tranche = \<lparr>tr_device = 0, tr_indices = [], tr_flags = 0\<rparr>"

text \<open>After \<open>handle_global\<close> bound a linux-dmabuf with feedback.\<close>

definition initial_formats :: forward_formats where
  "initial_formats = \<lparr>ff_shm_formats = empty_array, ff_dmabuf_formats = empty_array, ff_current = zero_feedback,
     ff_pending = zero_feedback, ff_pending_tranche = zero_tranche, ff_feedback_instances = [],
     ff_color_representation_done = False, ff_alpha_modes = empty_array, ff_coef_range_pairs = empty_array,
     ff_color_management_done = False, ff_supported_intents = empty_array, ff_supported_features = empty_array,
     ff_supported_tfs = empty_array, ff_supported_primaries = empty_array, ff_descriptors = [],
     ff_stray_close = False, ff_sent = []\<rparr>"

definition wl_shm_handle_format :: "u32 \<Rightarrow> forward_formats \<Rightarrow> halt + forward_formats" where
  "wl_shm_handle_format format s =
     and_then (append_element 4 format (ff_shm_formats s)) (\<lambda>a. Inr (s\<lparr>ff_shm_formats := a\<rparr>))"

definition linux_dmabuf_handle_format :: "u32 \<Rightarrow> forward_formats \<Rightarrow> halt + forward_formats" where
  "linux_dmabuf_handle_format format s = Inr s"

definition linux_dmabuf_handle_modifier :: "u32 \<Rightarrow> u32 \<Rightarrow> u32 \<Rightarrow> forward_formats \<Rightarrow> halt + forward_formats" where
  "linux_dmabuf_handle_modifier format modifier_hi modifier_lo s =
     and_then (append_element 12 \<lparr>dp_format = format, dp_modifier_hi = modifier_hi, dp_modifier_lo = modifier_lo\<rparr>
         (ff_dmabuf_formats s)) (\<lambda>a. Inr (s\<lparr>ff_dmabuf_formats := a\<rparr>))"

definition send_to :: "nat \<Rightarrow> format_event list \<Rightarrow> forward_formats \<Rightarrow> forward_formats" where
  "send_to r es s = s\<lparr>ff_sent := ff_sent s @ map (Pair r) es\<rparr>"

definition tranche_events :: "feedback_tranche \<Rightarrow> format_event list" where
  "tranche_events t =
     [Tranche_target_device (tr_device t), Tranche_flags (tr_flags t), Tranche_formats (tr_indices t), Tranche_done]"

definition feedback_events :: "dmabuf_feedback_state \<Rightarrow> format_event list" where
  "feedback_events st =
     [Main_device (df_main_device st), Format_table (df_table_fd st) (df_table_fd_size st)] @
     concat (map tranche_events (contents (df_tranches st))) @ [Feedback_done]"

definition send_dmabuf_feedback_data :: "nat \<Rightarrow> dmabuf_feedback_state \<Rightarrow> forward_formats \<Rightarrow> forward_formats" where
  "send_dmabuf_feedback_data r st = send_to r (feedback_events st)"

definition close_fd :: "int \<Rightarrow> forward_formats \<Rightarrow> forward_formats" where
  "close_fd fd s =
     (if fd \<in> set (ff_descriptors s) then s\<lparr>ff_descriptors := remove1 fd (ff_descriptors s)\<rparr>
      else s\<lparr>ff_stray_close := True\<rparr>)"

definition open_fd :: "int \<Rightarrow> forward_formats \<Rightarrow> forward_formats" where
  "open_fd fd s = (if fd = - 1 then s else s\<lparr>ff_descriptors := fd # ff_descriptors s\<rparr>)"

text \<open>\<open>dup\<close> gives the answer of \<open>dup\<close> from the descriptors that are open, minus one when it fails.\<close>

definition dmabuf_feedback_done :: "(int list \<Rightarrow> int) \<Rightarrow> forward_formats \<Rightarrow> forward_formats" where
  "dmabuf_feedback_done dup s =
     (let s1 = (if df_table_fd (ff_current s) \<noteq> - 1 then close_fd (df_table_fd (ff_current s)) s else s);
          s2 = s1\<lparr>ff_current := ff_pending s1\<rparr>;
          s3 = s2\<lparr>ff_pending := (ff_pending s2)\<lparr>df_tranches := empty_array\<rparr>\<rparr>;
          s4 = (if df_table_fd (ff_current s3) \<noteq> - 1 then
                  let fd = dup (ff_descriptors s3)
                  in open_fd fd (s3\<lparr>ff_pending := (ff_pending s3)\<lparr>df_table_fd := fd\<rparr>\<rparr>)
                else s3)
      in fold (\<lambda>r s. send_dmabuf_feedback_data r (ff_current s) s) (ff_feedback_instances s4) s4)"

definition dmabuf_feedback_format_table :: "int \<Rightarrow> int \<Rightarrow> forward_formats \<Rightarrow> forward_formats" where
  "dmabuf_feedback_format_table fd sz s =
     (let s1 = (if df_table_fd (ff_pending s) \<noteq> - 1 then close_fd (df_table_fd (ff_pending s)) s else s)
      in s1\<lparr>ff_pending := (ff_pending s1)\<lparr>df_table_fd := fd, df_table_fd_size := sz\<rparr>\<rparr>)"

definition dmabuf_feedback_main_device :: "u64 \<Rightarrow> forward_formats \<Rightarrow> forward_formats" where
  "dmabuf_feedback_main_device device s = s\<lparr>ff_pending := (ff_pending s)\<lparr>df_main_device := device\<rparr>\<rparr>"

definition dmabuf_feedback_tranche_done :: "forward_formats \<Rightarrow> halt + forward_formats" where
  "dmabuf_feedback_tranche_done s =
     and_then (append_element 40 (ff_pending_tranche s) (df_tranches (ff_pending s)))
       (\<lambda>a. Inr (s\<lparr>ff_pending := (ff_pending s)\<lparr>df_tranches := a\<rparr>, ff_pending_tranche := zero_tranche\<rparr>))"

definition dmabuf_feedback_tranche_target_device :: "u64 \<Rightarrow> forward_formats \<Rightarrow> forward_formats" where
  "dmabuf_feedback_tranche_target_device device s =
     s\<lparr>ff_pending_tranche := (ff_pending_tranche s)\<lparr>tr_device := device\<rparr>\<rparr>"

definition dmabuf_feedback_tranche_formats :: "u16 list \<Rightarrow> forward_formats \<Rightarrow> forward_formats" where
  "dmabuf_feedback_tranche_formats indices s =
     s\<lparr>ff_pending_tranche := (ff_pending_tranche s)\<lparr>tr_indices := indices\<rparr>\<rparr>"

definition dmabuf_feedback_tranche_flags :: "u32 \<Rightarrow> forward_formats \<Rightarrow> forward_formats" where
  "dmabuf_feedback_tranche_flags flags s =
     s\<lparr>ff_pending_tranche := (ff_pending_tranche s)\<lparr>tr_flags := flags\<rparr>\<rparr>"

definition color_supported_intent :: "u32 \<Rightarrow> forward_formats \<Rightarrow> halt + forward_formats" where
  "color_supported_intent render_intent s =
     and_then (append_element 4 render_intent (ff_supported_intents s)) (\<lambda>a. Inr (s\<lparr>ff_supported_intents := a\<rparr>))"

definition color_supported_feature :: "u32 \<Rightarrow> forward_formats \<Rightarrow> halt + forward_formats" where
  "color_supported_feature feature s =
     and_then (append_element 4 feature (ff_supported_features s)) (\<lambda>a. Inr (s\<lparr>ff_supported_features := a\<rparr>))"

definition color_supported_tf :: "u32 \<Rightarrow> forward_formats \<Rightarrow> halt + forward_formats" where
  "color_supported_tf tf s =
     and_then (append_element 4 tf (ff_supported_tfs s)) (\<lambda>a. Inr (s\<lparr>ff_supported_tfs := a\<rparr>))"

definition color_supported_primaries :: "u32 \<Rightarrow> forward_formats \<Rightarrow> halt + forward_formats" where
  "color_supported_primaries primaries s =
     and_then (append_element 4 primaries (ff_supported_primaries s)) (\<lambda>a. Inr (s\<lparr>ff_supported_primaries := a\<rparr>))"

definition color_mgr_done :: "forward_formats \<Rightarrow> forward_formats" where
  "color_mgr_done s = s\<lparr>ff_color_management_done := True\<rparr>"

definition color_alpha_mode :: "u32 \<Rightarrow> forward_formats \<Rightarrow> halt + forward_formats" where
  "color_alpha_mode alpha_mode s =
     and_then (append_element 4 alpha_mode (ff_alpha_modes s)) (\<lambda>a. Inr (s\<lparr>ff_alpha_modes := a\<rparr>))"

definition color_coef_range_handler :: "u32 \<Rightarrow> u32 \<Rightarrow> forward_formats \<Rightarrow> halt + forward_formats" where
  "color_coef_range_handler coefficients rng s =
     and_then (append_element 8 \<lparr>cr_coefficients = coefficients, cr_range = rng\<rparr> (ff_coef_range_pairs s))
       (\<lambda>a. Inr (s\<lparr>ff_coef_range_pairs := a\<rparr>))"

definition color_rep_done :: "forward_formats \<Rightarrow> forward_formats" where
  "color_rep_done s = s\<lparr>ff_color_representation_done := True\<rparr>"

text \<open>An event of the compositor, given as the event a client of this program would see; a received descriptor gets the
  number the kernel chooses.\<close>

record kernel =
  k_receive :: "int list \<Rightarrow> int"
  k_dup :: "int list \<Rightarrow> int"

fun handle_format_event :: "kernel \<Rightarrow> format_event \<Rightarrow> forward_formats \<Rightarrow> halt + forward_formats" where
  "handle_format_event k (Shm_format f) s = wl_shm_handle_format f s"
| "handle_format_event k (Dmabuf_format f) s = linux_dmabuf_handle_format f s"
| "handle_format_event k (Dmabuf_modifier f hi lo) s = linux_dmabuf_handle_modifier f hi lo s"
| "handle_format_event k (Main_device d) s = Inr (dmabuf_feedback_main_device d s)"
| "handle_format_event k (Format_table _ sz) s =
     (let fd = k_receive k (ff_descriptors s) in Inr (dmabuf_feedback_format_table fd sz (open_fd fd s)))"
| "handle_format_event k (Tranche_target_device d) s = Inr (dmabuf_feedback_tranche_target_device d s)"
| "handle_format_event k (Tranche_flags f) s = Inr (dmabuf_feedback_tranche_flags f s)"
| "handle_format_event k (Tranche_formats is) s = Inr (dmabuf_feedback_tranche_formats is s)"
| "handle_format_event k Tranche_done s = dmabuf_feedback_tranche_done s"
| "handle_format_event k Feedback_done s = Inr (dmabuf_feedback_done (k_dup k) s)"
| "handle_format_event k (Supported_intent i) s = color_supported_intent i s"
| "handle_format_event k (Supported_feature f) s = color_supported_feature f s"
| "handle_format_event k (Supported_tf tf) s = color_supported_tf tf s"
| "handle_format_event k (Supported_primaries p) s = color_supported_primaries p s"
| "handle_format_event k Color_manager_done s = Inr (color_mgr_done s)"
| "handle_format_event k (Supported_alpha_mode m) s = color_alpha_mode m s"
| "handle_format_event k (Supported_coefficients_and_ranges c r) s = color_coef_range_handler c r s"
| "handle_format_event k Color_representation_done s = Inr (color_rep_done s)"
| "handle_format_event k (Drm_device _) s = Inr s"
| "handle_format_event k (Drm_capabilities _) s = Inr s"

fun handle_format_events :: "kernel \<Rightarrow> format_event list \<Rightarrow> forward_formats \<Rightarrow> halt + forward_formats" where
  "handle_format_events k [] s = Inr s"
| "handle_format_events k (e # es) s = and_then (handle_format_event k e s) (handle_format_events k es)"

lemma handle_format_events_append:
  "handle_format_events k (es @ es') s = and_then (handle_format_events k es s) (handle_format_events k es')"
  by (induction es arbitrary: s) (auto simp: and_then_def split: sum.splits)

subsection \<open>Objects of plugin clients\<close>

definition nested_linux_dmabuf_get_default_feedback :: "nat \<Rightarrow> forward_formats \<Rightarrow> forward_formats" where
  "nested_linux_dmabuf_get_default_feedback r s =
     (let s1 = send_dmabuf_feedback_data r (ff_current s) s
      in s1\<lparr>ff_feedback_instances := r # ff_feedback_instances s1\<rparr>)"

definition nested_linux_dmabuf_get_surface_feedback :: "nat \<Rightarrow> nat \<Rightarrow> forward_formats \<Rightarrow> forward_formats" where
  "nested_linux_dmabuf_get_surface_feedback r surface s =
     (let s1 = send_dmabuf_feedback_data r (ff_current s) s
      in s1\<lparr>ff_feedback_instances := r # ff_feedback_instances s1\<rparr>)"

definition linux_dmabuf_feedback_handle_resource_destroy :: "nat \<Rightarrow> forward_formats \<Rightarrow> forward_formats" where
  "linux_dmabuf_feedback_handle_resource_destroy r s =
     s\<lparr>ff_feedback_instances := removeAll r (ff_feedback_instances s)\<rparr>"

text \<open>The loop over the formats with the last one it sent.\<close>

fun changed_formats :: "u32 \<Rightarrow> dmabuf_modifier_pair list \<Rightarrow> format_event list" where
  "changed_formats last_fmt [] = []"
| "changed_formats last_fmt (p # ps) =
     (if dp_format p \<noteq> last_fmt then [Dmabuf_format (dp_format p)] else []) @ changed_formats (dp_format p) ps"

definition bind_linux_dmabuf :: "nat \<Rightarrow> u32 \<Rightarrow> forward_formats \<Rightarrow> forward_formats" where
  "bind_linux_dmabuf r version s =
     (let formats = contents (ff_dmabuf_formats s) in
      send_to r
        ((if version \<le> 3 then changed_formats (- 1) formats else []) @
         (if version = 3 then map (\<lambda>p. Dmabuf_modifier (dp_format p) (dp_modifier_lo p) (dp_modifier_hi p)) formats
          else [])) s)"

definition bind_wl_shm :: "nat \<Rightarrow> forward_formats \<Rightarrow> forward_formats" where
  "bind_wl_shm r s = send_to r (map Shm_format (contents (ff_shm_formats s))) s"

definition bind_drm :: "nat \<Rightarrow> forward_formats \<Rightarrow> forward_formats" where
  "bind_drm r = send_to r [Drm_device ''/dev/dri/renderD128'', Drm_capabilities 1]"

text \<open>The constants of the colour management protocol are generated from its description; \<open>proto\<close> has those the code uses.\<close>

record color_protocol =
  RENDER_INTENT_ABSOLUTE_NO_ADAPTATION :: u32
  RENDER_INTENT_ABSOLUTE_NO_ADAPTATION_SINCE_VERSION :: u32
  TRANSFER_FUNCTION_COMPOUND_POWER_2_4 :: u32
  TRANSFER_FUNCTION_COMPOUND_POWER_2_4_SINCE_VERSION :: u32
  TRANSFER_FUNCTION_SRGB :: u32

text \<open>The loop over the render intents: what it sends, and whether it ran to its end rather than returned.\<close>

fun intent_events :: "color_protocol \<Rightarrow> u32 \<Rightarrow> u32 list \<Rightarrow> format_event list \<times> bool" where
  "intent_events proto version [] = ([], True)"
| "intent_events proto version (i # is) =
     (if \<not> version \<ge> RENDER_INTENT_ABSOLUTE_NO_ADAPTATION_SINCE_VERSION proto \<and>
         i = RENDER_INTENT_ABSOLUTE_NO_ADAPTATION proto then ([], False)
      else let (es, all) = intent_events proto version is in (Supported_intent i # es, all))"

definition tf_event :: "color_protocol \<Rightarrow> u32 \<Rightarrow> u32 \<Rightarrow> format_event" where
  "tf_event proto version tf =
     Supported_tf (if \<not> version \<ge> TRANSFER_FUNCTION_COMPOUND_POWER_2_4_SINCE_VERSION proto \<and>
                      tf = TRANSFER_FUNCTION_COMPOUND_POWER_2_4 proto then TRANSFER_FUNCTION_SRGB proto else tf)"

definition bind_color_manager :: "color_protocol \<Rightarrow> nat \<Rightarrow> u32 \<Rightarrow> forward_formats \<Rightarrow> forward_formats" where
  "bind_color_manager proto r version s =
     (let (intents, all) = intent_events proto version (contents (ff_supported_intents s)) in
      if \<not> all then send_to r intents s
      else send_to r (intents @
             map Supported_feature (contents (ff_supported_features s)) @
             map (tf_event proto version) (contents (ff_supported_tfs s)) @
             map Supported_primaries (contents (ff_supported_primaries s)) @ [Color_manager_done]) s)"

definition bind_color_representation_manager :: "nat \<Rightarrow> forward_formats \<Rightarrow> forward_formats" where
  "bind_color_representation_manager r s =
     send_to r (map Supported_alpha_mode (contents (ff_alpha_modes s)) @
       map (\<lambda>p. Supported_coefficients_and_ranges (cr_coefficients p) (cr_range p)) (contents (ff_coef_range_pairs s)) @
       [Color_representation_done]) s"

subsection \<open>The modifier list from the feedback table\<close>

text \<open>\<open>main\<close> fills the list for clients of linux-dmabuf 3 from the table it maps and the indices of the
  tranches.  \<open>table\<close> is the table's content; an index beyond it, or a store beyond the block, is undefined.\<close>

fun copy_indices ::
  "dmabuf_modifier_pair list \<Rightarrow> u16 list \<Rightarrow> nat \<times> dmabuf_modifier_pair list \<Rightarrow> halt + nat \<times> dmabuf_modifier_pair list" where
  "copy_indices table [] (j, cells) = Inr (j, cells)"
| "copy_indices table (k # ks) (j, cells) =
     (if unat k < length table \<and> j < length cells then copy_indices table ks (Suc j, cells[j := table ! unat k])
      else Inl Undefined)"

fun copy_tranches ::
  "dmabuf_modifier_pair list \<Rightarrow> feedback_tranche list \<Rightarrow> nat \<times> dmabuf_modifier_pair list \<Rightarrow> halt + nat \<times> dmabuf_modifier_pair list" where
  "copy_tranches table [] jc = Inr jc"
| "copy_tranches table (t # ts) jc = and_then (copy_indices table (tr_indices t) jc) (copy_tranches table ts)"

definition fill_dmabuf_formats :: "dmabuf_modifier_pair list option \<Rightarrow> forward_formats \<Rightarrow> halt + forward_formats" where
  "fill_dmabuf_formats table s =
     (let tranches = contents (df_tranches (ff_current s));
          npairs = sum_list (map (\<lambda>t. 2 * length (tr_indices t)) tranches)
      in case table of
           None \<Rightarrow> Inl (Exit 1)
         | Some pairs \<Rightarrow>
             and_then (copy_tranches pairs tranches
                 (0, replicate npairs \<lparr>dp_format = 0, dp_modifier_hi = 0, dp_modifier_lo = 0\<rparr>))
               (\<lambda>(j, cells). Inr (s\<lparr>ff_dmabuf_formats := \<lparr>ar_data = map Some cells, ar_len = of_nat j\<rparr>\<rparr>)))"

lemma copy_indices_ok:
  assumes "\<forall>k \<in> set ks. unat k < length table" and "j + length ks \<le> length cells"
  shows "copy_indices table ks (j, cells) = Inr (j + length ks, overwrite cells j (map (\<lambda>k. table ! unat k) ks))"
  using assms
proof (induction ks arbitrary: j cells)
  case (Cons k ks)
  then show ?case by (simp add: overwrite_def take_Suc_update)
qed simp

lemma overwrite_overwrite:
  "j + length xs + length ys \<le> length cells \<Longrightarrow>
    overwrite (overwrite cells j xs) (j + length xs) ys = overwrite cells j (xs @ ys)"
  by (simp add: overwrite_def ac_simps)

lemma copy_tranches_ok:
  assumes "\<forall>t \<in> set ts. \<forall>k \<in> set (tr_indices t). unat k < length table"
    and "j + length (concat (map tr_indices ts)) \<le> length cells"
  shows "copy_tranches table ts (j, cells) =
    Inr (j + length (concat (map tr_indices ts)),
         overwrite cells j (map (\<lambda>k. table ! unat k) (concat (map tr_indices ts))))"
  using assms
proof (induction ts arbitrary: j cells)
  case (Cons t ts)
  then show ?case
    using overwrite_overwrite [of j "map (\<lambda>k. table ! unat k) (tr_indices t)" _ cells]
    by (simp add: copy_indices_ok add.assoc)
qed simp

lemma fill_dmabuf_formats_in_bounds:
  assumes "\<forall>t \<in> set (contents (df_tranches (ff_current s))). \<forall>k \<in> set (tr_indices t). unat k < length table"
    and "length (concat (map tr_indices (contents (df_tranches (ff_current s))))) < 2 ^ 64"
  shows "\<exists>s'. fill_dmabuf_formats (Some table) s = Inr s' \<and>
    contents (ff_dmabuf_formats s') =
      map (\<lambda>k. table ! unat k) (concat (map tr_indices (contents (df_tranches (ff_current s)))))"
proof -
  define ts where "ts = contents (df_tranches (ff_current s))"
  let ?n = "sum_list (map (\<lambda>t. 2 * length (tr_indices t)) ts)"
  have "?n = 2 * length (concat (map tr_indices ts))"
    by (simp add: length_concat sum_list_const_mult comp_def)
  then have fits: "0 + length (concat (map tr_indices ts)) \<le> length (replicate ?n z)"
    for z :: dmabuf_modifier_pair by simp
  show ?thesis
    using assms copy_tranches_ok [OF _ fits, of table]
    by (simp add: fill_dmabuf_formats_def contents_def [of "ar_data_update f a" for f a]
        contents_def [of "array_ext d n u" for d n u] take_map unat_word_of_nat overwrite_def flip: ts_def)
qed

subsection \<open>What clients are told\<close>

definition sent_to :: "nat \<Rightarrow> forward_formats \<Rightarrow> format_event list" where
  "sent_to r s = map snd (filter (\<lambda>p. fst p = r) (ff_sent s))"

lemma sent_to_send [simp]: "sent_to r (send_to r es s) = sent_to r s @ es"
  by (simp add: sent_to_def send_to_def filter_map comp_def)

lemma formats_ignored: "handle_format_events k (changed_formats f ps) t = Inr t"
  by (induction f ps rule: changed_formats.induct) (auto simp: linux_dmabuf_handle_format_def)

lemma modifiers_kept:
  assumes "array_ok (ff_dmabuf_formats t)" and "unat (ar_len (ff_dmabuf_formats t)) + length ps < 2 ^ 57"
  shows "\<exists>t'. handle_format_events k (map (\<lambda>p. Dmabuf_modifier (dp_format p) (dp_modifier_lo p) (dp_modifier_hi p)) ps) t = Inr t' \<and>
    contents (ff_dmabuf_formats t') = contents (ff_dmabuf_formats t) @
      map (\<lambda>p. \<lparr>dp_format = dp_format p, dp_modifier_hi = dp_modifier_lo p, dp_modifier_lo = dp_modifier_hi p\<rparr>) ps"
  using assms
proof (induction ps arbitrary: t)
  case (Cons p ps)
  let ?q = "\<lparr>dp_format = dp_format p, dp_modifier_hi = dp_modifier_lo p, dp_modifier_lo = dp_modifier_hi p\<rparr>"
  from append_element_ok [of "ff_dmabuf_formats t" 12 ?q] Cons.prems
  obtain a where a: "append_element 12 ?q (ff_dmabuf_formats t) = Inr a" "array_ok a"
    "contents a = contents (ff_dmabuf_formats t) @ [?q]" "unat (ar_len a) = Suc (unat (ar_len (ff_dmabuf_formats t)))"
    by auto
  with Cons.IH [of "t\<lparr>ff_dmabuf_formats := a\<rparr>"] Cons.prems show ?case
    by (simp add: linux_dmabuf_handle_modifier_def)
qed simp

text \<open>A client of linux-dmabuf version 3 gets the halves of every modifier exchanged: when it stores what it is
  told the way this program stores what the compositor tells it, its list has, for every pair the compositor announced,
  the same format with the high and the low half of the modifier swapped.\<close>

theorem version_3_modifiers_swapped:
  assumes "length (contents (ff_dmabuf_formats s)) < 2 ^ 57" and "sent_to r s = []"
  shows "\<exists>t. handle_format_events k (sent_to r (bind_linux_dmabuf r 3 s)) initial_formats = Inr t \<and>
    contents (ff_dmabuf_formats t) =
      map (\<lambda>p. \<lparr>dp_format = dp_format p, dp_modifier_hi = dp_modifier_lo p, dp_modifier_lo = dp_modifier_hi p\<rparr>)
        (contents (ff_dmabuf_formats s))"
proof -
  have "array_ok (ff_dmabuf_formats initial_formats)" "unat (ar_len (ff_dmabuf_formats initial_formats)) = 0"
    "contents (ff_dmabuf_formats initial_formats) = []"
    by (simp_all add: initial_formats_def)
  with modifiers_kept [of initial_formats "contents (ff_dmabuf_formats s)" k] assms show ?thesis
    by (simp add: bind_linux_dmabuf_def handle_format_events_append formats_ignored Let_def)
qed

definition one_modifier :: forward_formats where
  "one_modifier = initial_formats\<lparr>ff_dmabuf_formats :=
     \<lparr>ar_data = [Some \<lparr>dp_format = 0x34325258, dp_modifier_hi = 0x01000000, dp_modifier_lo = 2\<rparr>], ar_len = 1\<rparr>\<rparr>"

lemma version_3_modifiers_swapped_witness:
  "\<exists>t. handle_format_events \<lparr>k_receive = \<lambda>_. 7, k_dup = \<lambda>_. 8\<rparr> (sent_to 1 (bind_linux_dmabuf 1 3 one_modifier))
       initial_formats = Inr t \<and>
     contents (ff_dmabuf_formats t) = [\<lparr>dp_format = 0x34325258, dp_modifier_hi = 2, dp_modifier_lo = 0x01000000\<rparr>]"
proof -
  have "contents (ff_dmabuf_formats one_modifier) =
      [\<lparr>dp_format = 0x34325258, dp_modifier_hi = 0x01000000, dp_modifier_lo = 2\<rparr>]" "sent_to 1 one_modifier = []"
    by (simp_all add: one_modifier_def contents_def sent_to_def initial_formats_def)
  then show ?thesis
    using version_3_modifiers_swapped [of one_modifier 1 "\<lparr>k_receive = \<lambda>_. 7, k_dup = \<lambda>_. 8\<rparr>"] by simp
qed

text \<open>What a client learns when it binds the colour manager.  The announcements come in the compositor's order,
  ended by \<open>done\<close>, for every client that knows the render intent \<open>absolute_no_adaptation\<close> or when the compositor
  does not have it (only a transfer function the client's version lacks is replaced).  But a client of an older version
  under a compositor that has it gets the intents before that one and nothing more: no feature, no transfer
  function, no primaries, and never the \<open>done\<close> it waits for.\<close>

theorem color_manager_announcements:
  "sent_to r (bind_color_manager proto r version s) = sent_to r s @
     (if version < RENDER_INTENT_ABSOLUTE_NO_ADAPTATION_SINCE_VERSION proto \<and>
         RENDER_INTENT_ABSOLUTE_NO_ADAPTATION proto \<in> set (contents (ff_supported_intents s))
      then map Supported_intent
             (takeWhile (\<lambda>i. i \<noteq> RENDER_INTENT_ABSOLUTE_NO_ADAPTATION proto) (contents (ff_supported_intents s)))
      else map Supported_intent (contents (ff_supported_intents s)) @
           map Supported_feature (contents (ff_supported_features s)) @
           map (tf_event proto version) (contents (ff_supported_tfs s)) @
           map Supported_primaries (contents (ff_supported_primaries s)) @ [Color_manager_done])"
proof -
  let ?cut = "\<not> version \<ge> RENDER_INTENT_ABSOLUTE_NO_ADAPTATION_SINCE_VERSION proto"
  have "intent_events proto version is =
      (if ?cut \<and> RENDER_INTENT_ABSOLUTE_NO_ADAPTATION proto \<in> set is
       then (map Supported_intent (takeWhile (\<lambda>i. i \<noteq> RENDER_INTENT_ABSOLUTE_NO_ADAPTATION proto) is), False)
       else (map Supported_intent is, True))" for "is"
    by (induction "is") (auto simp: Let_def split: prod.splits if_splits)
  then show ?thesis by (simp add: bind_color_manager_def not_le)
qed

subsection \<open>The feedback of linux-dmabuf is replayed\<close>

lemma tranche_written [simp]:
  "x\<lparr>tr_device := tr_device y, tr_flags := tr_flags y, tr_indices := tr_indices y\<rparr> = (y :: feedback_tranche)"
  by (cases x, cases y) simp

lemma one_tranche:
  assumes "array_ok (df_tranches (ff_pending t))" and "unat (ar_len (df_tranches (ff_pending t))) < 2 ^ 57"
  shows "\<exists>a. handle_format_events k (tranche_events tr) t =
      Inr (t\<lparr>ff_pending := (ff_pending t)\<lparr>df_tranches := a\<rparr>, ff_pending_tranche := zero_tranche\<rparr>) \<and> array_ok a \<and>
    contents a = contents (df_tranches (ff_pending t)) @ [tr] \<and>
    unat (ar_len a) = Suc (unat (ar_len (df_tranches (ff_pending t))))"
  using append_element_ok [of "df_tranches (ff_pending t)" 40 tr] assms
  by (auto simp: tranche_events_def dmabuf_feedback_tranche_target_device_def dmabuf_feedback_tranche_flags_def
      dmabuf_feedback_tranche_formats_def dmabuf_feedback_tranche_done_def)

lemma all_tranches:
  assumes "array_ok (df_tranches (ff_pending t))" and "unat (ar_len (df_tranches (ff_pending t))) + length trs < 2 ^ 57"
    and "ff_pending_tranche t = zero_tranche"
  shows "\<exists>a. handle_format_events k (concat (map tranche_events trs)) t =
      Inr (t\<lparr>ff_pending := (ff_pending t)\<lparr>df_tranches := a\<rparr>\<rparr>) \<and>
    contents a = contents (df_tranches (ff_pending t)) @ trs"
  using assms
proof (induction trs arbitrary: t)
  case Nil
  have "t = t\<lparr>ff_pending := (ff_pending t)\<lparr>df_tranches := df_tranches (ff_pending t)\<rparr>\<rparr>" by simp
  then show ?case by (intro exI [of _ "df_tranches (ff_pending t)"]) simp
next
  case (Cons tr trs)
  let ?t1 = "\<lambda>a. t\<lparr>ff_pending := (ff_pending t)\<lparr>df_tranches := a\<rparr>, ff_pending_tranche := zero_tranche\<rparr>"
  from one_tranche [of t k tr] Cons.prems
  obtain a where a: "handle_format_events k (tranche_events tr) t = Inr (?t1 a)" "array_ok a"
    "contents a = contents (df_tranches (ff_pending t)) @ [tr]"
    "unat (ar_len a) = Suc (unat (ar_len (df_tranches (ff_pending t))))"
    by auto
  have "?t1 a = t\<lparr>ff_pending := (ff_pending t)\<lparr>df_tranches := a\<rparr>\<rparr>" using Cons.prems(3) by simp
  with a Cons.IH [of "?t1 a"] Cons.prems show ?case by (auto simp: handle_format_events_append)
qed

lemma broadcast_keeps:
  "ff_current (fold (\<lambda>r s. send_dmabuf_feedback_data r (ff_current s) s) rs s) = ff_current s"
  "ff_pending (fold (\<lambda>r s. send_dmabuf_feedback_data r (ff_current s) s) rs s) = ff_pending s"
  "ff_descriptors (fold (\<lambda>r s. send_dmabuf_feedback_data r (ff_current s) s) rs s) = ff_descriptors s"
  "ff_stray_close (fold (\<lambda>r s. send_dmabuf_feedback_data r (ff_current s) s) rs s) = ff_stray_close s"
  by (induction rs arbitrary: s) (simp_all add: send_dmabuf_feedback_data_def send_to_def)

text \<open>C23. The feedback of linux-dmabuf passes through unchanged: a client that asks for the feedback of an instance
  whose current state is complete, and handles what it is told the way this program does, ends with that
  state as its own current one, all tranches with their devices, flags and formats in order; only the
  descriptor of the format table is its own.  So instances nested in each other agree.\<close>

theorem feedback_roundtrip:
  assumes "length (contents (df_tranches (ff_current s))) < 2 ^ 57" and "sent_to r s = []"
    and "df_tranches (ff_pending t) = empty_array" and "ff_pending_tranche t = zero_tranche"
  shows "\<exists>t' a. handle_format_events k (sent_to r (nested_linux_dmabuf_get_default_feedback r s)) t = Inr t' \<and>
    ff_current t' = (ff_current s)\<lparr>df_table_fd := k_receive k (ff_descriptors t), df_tranches := a\<rparr> \<and>
    contents a = contents (df_tranches (ff_current s))"
proof -
  let ?trs = "contents (df_tranches (ff_current s))"
  have sent: "sent_to r (nested_linux_dmabuf_get_default_feedback r s) = feedback_events (ff_current s)"
    using assms(2) by (simp add: nested_linux_dmabuf_get_default_feedback_def send_dmabuf_feedback_data_def Let_def sent_to_def
        send_to_def filter_map comp_def)
  define fd where "fd = k_receive k (ff_descriptors t)"
  define t1 where "t1 = dmabuf_feedback_format_table fd (df_table_fd_size (ff_current s))
    (open_fd fd (dmabuf_feedback_main_device (df_main_device (ff_current s)) t))"
  have p: "ff_pending t1 = \<lparr>df_main_device = df_main_device (ff_current s), df_table_fd = fd,
      df_table_fd_size = df_table_fd_size (ff_current s), df_tranches = empty_array\<rparr>"
    using assms(3) by (simp add: t1_def dmabuf_feedback_format_table_def dmabuf_feedback_main_device_def open_fd_def
        close_fd_def Let_def)
  have tr: "ff_pending_tranche t1 = zero_tranche"
    using assms(4) by (simp add: t1_def dmabuf_feedback_format_table_def dmabuf_feedback_main_device_def open_fd_def
        close_fd_def Let_def)
  from all_tranches [of t1 ?trs k] assms(1) p tr
  obtain a where a: "handle_format_events k (concat (map tranche_events ?trs)) t1 =
      Inr (t1\<lparr>ff_pending := (ff_pending t1)\<lparr>df_tranches := a\<rparr>\<rparr>)" "contents a = ?trs"
    by auto
  have "handle_format_events k (feedback_events (ff_current s)) t =
      Inr (dmabuf_feedback_done (k_dup k) (t1\<lparr>ff_pending := (ff_pending t1)\<lparr>df_tranches := a\<rparr>\<rparr>))"
    by (simp add: feedback_events_def handle_format_events_append a(1) Let_def t1_def [symmetric] fd_def [symmetric])
      (simp add: dmabuf_feedback_main_device_def fd_def t1_def a(1) [unfolded t1_def fd_def dmabuf_feedback_main_device_def])
  moreover have "ff_current (dmabuf_feedback_done (k_dup k) (t1\<lparr>ff_pending := (ff_pending t1)\<lparr>df_tranches := a\<rparr>\<rparr>)) =
      (ff_current s)\<lparr>df_table_fd := fd, df_tranches := a\<rparr>"
    by (simp add: dmabuf_feedback_done_def Let_def broadcast_keeps open_fd_def close_fd_def p)
  ultimately show ?thesis using a(2) 
    by (intro exI [of _ "dmabuf_feedback_done (k_dup k) (t1\<lparr>ff_pending := (ff_pending t1)\<lparr>df_tranches := a\<rparr>\<rparr>)"]
        exI [of _ a]) (simp add: sent fd_def)
qed

definition one_tranche_formats :: forward_formats where
  "one_tranche_formats = initial_formats\<lparr>ff_current := \<lparr>df_main_device = 0xE280, df_table_fd = 9, df_table_fd_size = 32,
     df_tranches = \<lparr>ar_data = [Some \<lparr>tr_device = 0xE280, tr_indices = [0, 1], tr_flags = 1\<rparr>], ar_len = 1\<rparr>\<rparr>\<rparr>"

lemma feedback_roundtrip_witness:
  "\<exists>t' a. handle_format_events \<lparr>k_receive = \<lambda>_. 7, k_dup = \<lambda>_. 8\<rparr>
       (sent_to 1 (nested_linux_dmabuf_get_default_feedback 1 one_tranche_formats)) initial_formats = Inr t' \<and>
     ff_current t' = (ff_current one_tranche_formats)\<lparr>df_table_fd := 7, df_tranches := a\<rparr> \<and>
     contents a = [\<lparr>tr_device = 0xE280, tr_indices = [0, 1], tr_flags = 1\<rparr>]"
proof -
  have "contents (df_tranches (ff_current one_tranche_formats)) = [\<lparr>tr_device = 0xE280, tr_indices = [0, 1], tr_flags = 1\<rparr>]"
    "sent_to 1 one_tranche_formats = []"
    by (simp_all add: one_tranche_formats_def contents_def sent_to_def initial_formats_def)
  then show ?thesis
    using feedback_roundtrip [of one_tranche_formats 1 initial_formats "\<lparr>k_receive = \<lambda>_. 7, k_dup = \<lambda>_. 8\<rparr>"]
    by (simp add: initial_formats_def zero_feedback_def)
qed

subsection \<open>Descriptors of format tables\<close>

definition held :: "forward_formats \<Rightarrow> int list" where
  "held s = filter (\<lambda>fd. fd \<noteq> - 1) [df_table_fd (ff_current s), df_table_fd (ff_pending s)]"

definition descriptors_ok :: "forward_formats \<Rightarrow> bool" where
  "descriptors_ok s \<longleftrightarrow> \<not> ff_stray_close s \<and> distinct (held s) \<and> distinct (ff_descriptors s) \<and>
     set (ff_descriptors s) = set (held s)"

text \<open>A kernel hands out descriptors that are not open; \<open>dup\<close> may fail.\<close>

definition fresh_descriptors :: "kernel \<Rightarrow> bool" where
  "fresh_descriptors k \<longleftrightarrow> (\<forall>fds. k_receive k fds \<ge> 0 \<and> k_receive k fds \<notin> set fds) \<and>
     (\<forall>fds. k_dup k fds = - 1 \<or> k_dup k fds \<ge> 0 \<and> k_dup k fds \<notin> set fds)"

lemma descriptors_cong:
  "df_table_fd (ff_current s') = df_table_fd (ff_current s) \<Longrightarrow> df_table_fd (ff_pending s') = df_table_fd (ff_pending s) \<Longrightarrow>
    ff_descriptors s' = ff_descriptors s \<Longrightarrow> ff_stray_close s' = ff_stray_close s \<Longrightarrow>
    descriptors_ok s' = descriptors_ok s"
  by (simp add: descriptors_ok_def held_def)

lemma descriptors_format_table:
  assumes "fresh_descriptors k" and "descriptors_ok s"
  shows "descriptors_ok (dmabuf_feedback_format_table (k_receive k (ff_descriptors s)) sz
    (open_fd (k_receive k (ff_descriptors s)) s))"
proof -
  define fd where "fd = k_receive k (ff_descriptors s)"
  have "fd \<ge> 0" "fd \<notin> set (ff_descriptors s)" using assms(1) by (auto simp: fd_def fresh_descriptors_def)
  with assms(2) show ?thesis
    unfolding fd_def [symmetric]
    by (auto simp: descriptors_ok_def held_def dmabuf_feedback_format_table_def open_fd_def close_fd_def Let_def
        split: if_splits)
qed

lemma list_single: "distinct xs \<Longrightarrow> set xs = {x} \<Longrightarrow> xs = [x]"
  by (cases xs; cases "tl xs") auto

lemma descriptors_done:
  assumes "fresh_descriptors k" and "descriptors_ok s"
  shows "descriptors_ok (dmabuf_feedback_done (k_dup k) s)"
proof -
  have dup: "k_dup k fds = - 1 \<or> k_dup k fds \<ge> 0 \<and> k_dup k fds \<notin> set fds" for fds
    using assms(1) by (auto simp: fresh_descriptors_def)
  define s1 where "s1 = (if df_table_fd (ff_current s) \<noteq> - 1 then close_fd (df_table_fd (ff_current s)) s else s)"
  have alone: "df_table_fd (ff_current s) \<noteq> - 1 \<Longrightarrow> df_table_fd (ff_pending s) = - 1 \<Longrightarrow>
      remove1 (df_table_fd (ff_current s)) (ff_descriptors s) = []"
    using assms(2) list_single [of "ff_descriptors s" "df_table_fd (ff_current s)"]
    by (simp add: descriptors_ok_def held_def)
  have s1: "\<not> ff_stray_close s1" "ff_pending s1 = ff_pending s" "distinct (ff_descriptors s1)"
    "set (ff_descriptors s1) = (if df_table_fd (ff_pending s) = - 1 then {} else {df_table_fd (ff_pending s)})"
    using assms(2) alone by (auto simp: s1_def descriptors_ok_def held_def close_fd_def split: if_splits)
  have step: "descriptors_ok (dmabuf_feedback_done (k_dup k) s) \<longleftrightarrow>
    descriptors_ok (let s3 = s1\<lparr>ff_current := ff_pending s1, ff_pending := (ff_pending s1)\<lparr>df_tranches := empty_array\<rparr>\<rparr> in
      if df_table_fd (ff_pending s1) \<noteq> - 1 then
        open_fd (k_dup k (ff_descriptors s1)) (s3\<lparr>ff_pending := (ff_pending s3)\<lparr>df_table_fd := k_dup k (ff_descriptors s1)\<rparr>\<rparr>)
      else s3)"
    unfolding dmabuf_feedback_done_def s1_def [symmetric] Let_def by (intro descriptors_cong) (simp_all add: broadcast_keeps)
  show ?thesis
  proof (cases "df_table_fd (ff_pending s) = - 1")
    case True
    with s1 show ?thesis unfolding step by (simp add: descriptors_ok_def held_def Let_def)
  next
    case False
    with s1 have "ff_descriptors s1 = [df_table_fd (ff_pending s)]" by (intro list_single) simp_all
    with False s1 dup [of "[df_table_fd (ff_pending s)]"] show ?thesis unfolding step
      by (auto simp: descriptors_ok_def held_def open_fd_def Let_def)
  qed
qed

lemma and_then_Inr: "and_then r f = Inr y \<longleftrightarrow> (\<exists>x. r = Inr x \<and> f x = Inr y)"
  by (cases r) simp_all

lemmas format_handlers = wl_shm_handle_format_def linux_dmabuf_handle_format_def linux_dmabuf_handle_modifier_def
  dmabuf_feedback_main_device_def dmabuf_feedback_tranche_done_def dmabuf_feedback_tranche_target_device_def
  dmabuf_feedback_tranche_formats_def dmabuf_feedback_tranche_flags_def color_supported_intent_def
  color_supported_feature_def color_supported_tf_def color_supported_primaries_def color_mgr_done_def
  color_alpha_mode_def color_coef_range_handler_def color_rep_done_def

lemma descriptors_event:
  assumes "fresh_descriptors k" and "descriptors_ok s" and "handle_format_event k e s = Inr s'"
  shows "descriptors_ok s'"
proof (cases "e = Feedback_done \<or> (\<exists>fd sz. e = Format_table fd sz)")
  case True
  then show ?thesis using assms by (auto simp: Let_def descriptors_done descriptors_format_table)
next
  case False
  then show ?thesis
    using assms(2,3) by (cases e) (auto simp: format_handlers and_then_Inr descriptors_ok_def held_def simp del: set_empty)
qed

text \<open>Format tables do not leak: whatever the compositor announces, in whatever order and however often, and
  whether or not duplicating a descriptor fails, the process holds open exactly the descriptors of the
  current and the pending table, at most two, and never closes one it does not hold.\<close>

theorem table_descriptors_exact:
  assumes "fresh_descriptors k" and "descriptors_ok s" and "handle_format_events k es s = Inr s'"
  shows "descriptors_ok s' \<and> length (ff_descriptors s') \<le> 2"
proof -
  have ok: "descriptors_ok s'"
    using assms(2,3) by (induction es arbitrary: s) (auto simp: and_then_Inr dest: descriptors_event [OF assms(1)])
  then have "length (ff_descriptors s') = length (held s')"
    by (metis descriptors_ok_def distinct_card)
  with ok show ?thesis by (simp add: held_def)
qed

lemma table_descriptors_exact_witness:
  "\<exists>s'. handle_format_events \<lparr>k_receive = \<lambda>fds. 1 + Max (insert 0 (set fds)), k_dup = \<lambda>_. - 1\<rparr>
       [Format_table 0 16, Format_table 0 16, Feedback_done, Format_table 0 32, Feedback_done] initial_formats = Inr s' \<and>
     descriptors_ok s' \<and> length (ff_descriptors s') \<le> 2"
proof -
  let ?k = "\<lparr>k_receive = \<lambda>fds. 1 + Max (insert 0 (set fds)), k_dup = \<lambda>_. - 1\<rparr>"
  let ?es = "[Format_table 0 16, Format_table 0 16, Feedback_done, Format_table 0 32, Feedback_done]"
  have "fd \<le> Max (insert 0 (set fds))" if "fd = 0 \<or> fd \<in> set fds" for fd :: int and fds
    using that by (intro Max_ge) auto
  then have "0 \<le> 1 + Max (insert 0 (set fds)) \<and> 1 + Max (insert 0 (set fds)) \<notin> set fds" for fds :: "int list"
    by (smt (verit))
  then have "fresh_descriptors ?k" by (simp add: fresh_descriptors_def)
  moreover have "descriptors_ok initial_formats"
    by (simp add: descriptors_ok_def held_def initial_formats_def zero_feedback_def)
  moreover obtain s' where "handle_format_events ?k ?es initial_formats = Inr s'" by (simp add: Let_def)
  ultimately show ?thesis using table_descriptors_exact [of ?k initial_formats ?es s'] by blast
qed

end
