(* ===== verification/ColorDesc.thy ===== *)
theory ColorDesc
  imports Formats Outputs "HOL-Library.AList"
begin

section \<open>Image descriptions of outputs (forward-client.c, forward.c)\<close>

text \<open>
  The colour descriptions the compositor has for its outputs and for surfaces in general: how they are
  requested, collected, replaced and shared.  An \<open>image_description_properties\<close> structure has a number; \<open>NULL\<close>
  is \<open>None\<close>.  A flag with the value it guards is an option.  The structures are counted by reference: the
  \<open>pending\<close> and \<open>current\<close> slot of each \<open>image_description_state\<close> holds one reference, each description object of a
  client another (\<open>cd_descs\<close>, resource and structure, until the object and its uses are gone).  An owner
  of an \<open>image_description_state\<close> is an output (\<open>Of_output\<close>) or the whole display (\<open>desc_surface\<close>).

  The theory keeps these structures in a state of their own, \<open>color_state\<close>; the calls into the other components are
  effects of it (\<open>Init_surface_if_ready\<close> is \<open>init_surface_if_ready\<close> of Outputs), and the last lemmas of the
  theory say how the \<open>output_desc\<close> of Outputs follows from it.
\<close>

subsection \<open>Data\<close>

type_synonym chromaticities = "u32 \<times> u32 \<times> u32 \<times> u32 \<times> u32 \<times> u32 \<times> u32 \<times> u32"

record image_description_properties =
  ip_failed :: bool
  ip_failure_cause :: u32
  ip_failure_reason :: "string option"
  ip_icc_profile :: int
  ip_icc_profile_len :: u32
  ip_tf :: "u32 option"
  ip_eexp :: "u32 option"
  ip_primaries_named :: "u32 option"
  ip_primaries :: "chromaticities option"
  ip_luminances :: "(u32 \<times> u32 \<times> u32) option"
  ip_mastering_display_primaries :: "chromaticities option"
  ip_mastering_luminance :: "(u32 \<times> u32) option"
  ip_max_cll :: "u32 option"
  ip_max_fall :: "u32 option"
  ip_description :: "nat option"
  ip_color_identity_v2_hi :: u32
  ip_color_identity_v2_lo :: u32
  ip_color_identity_v1 :: u32
  ip_reference_count :: nat

record image_description_state =
  id_info_request :: "nat option"
  id_dirty :: bool
  id_pending :: "nat option"
  id_current :: "nat option"

datatype (plugins only: code) desc_owner = Of_output nat | Of_display

text \<open>What the \<open>data\<close> pointer given to a listener points to.\<close>

datatype (plugins only: code) listener_data = Description_state desc_owner | Surface_pointer nat

text \<open>The events of \<open>wp_image_description_info_v1\<close>, received from the compositor and sent to clients.\<close>

datatype (plugins only: code) info_event =
    Icc_file int u32
  | Primaries chromaticities
  | Primaries_named u32
  | Tf_power u32
  | Tf_named u32
  | Luminances u32 u32 u32
  | Target_primaries chromaticities
  | Target_luminance u32 u32
  | Target_max_cll u32
  | Target_max_fall u32

datatype (plugins only: code) color_effect =
    Get_output_description nat nat
  | Get_preferred_parametric nat
  | Get_information nat nat
  | Destroy_info nat
  | Destroy_description nat
  | Close_icc int
  | Init_surface_if_ready nat
  | Send_description_changed nat
  | Send_preferred_changed nat u32
  | Send_preferred_changed2 nat u32 u32
  | Send_failed nat u32 "string option"
  | Send_ready nat u32
  | Send_ready2 nat u32 u32
  | Send_info nat info_event
  | Send_info_done nat
  | Post_no_information nat

record color_state =
  cd_output_desc :: "nat \<Rightarrow> image_description_state"
  cd_desc_surface :: image_description_state
  cd_outputs :: "nat list"
  cd_color_output_data :: "nat \<Rightarrow> listener_data option"
  cd_props :: "nat \<Rightarrow> image_description_properties"
  cd_freed :: "nat list"
  cd_next :: nat
  cd_next_object :: nat
  cd_descs :: "(nat \<times> nat) list"
  cd_color_output_resources :: "nat \<Rightarrow> nat list"
  cd_color_feedback_resources :: "nat list"
  cd_version :: u32
  cd_trace :: "color_effect list"

definition desc_of :: "color_state \<Rightarrow> desc_owner \<Rightarrow> image_description_state" where
  "desc_of s w = (case w of Of_output i \<Rightarrow> cd_output_desc s i | Of_display \<Rightarrow> cd_desc_surface s)"

definition on_desc :: "desc_owner \<Rightarrow> (image_description_state \<Rightarrow> image_description_state) \<Rightarrow> color_state \<Rightarrow> color_state" where
  "on_desc w f s =
     (case w of
        Of_output i \<Rightarrow> s\<lparr>cd_output_desc := (cd_output_desc s)(i := f (cd_output_desc s i))\<rparr>
      | Of_display \<Rightarrow> s\<lparr>cd_desc_surface := f (cd_desc_surface s)\<rparr>)"

definition on_props :: "nat \<Rightarrow> (image_description_properties \<Rightarrow> image_description_properties) \<Rightarrow> color_state \<Rightarrow> color_state" where
  "on_props p f s = s\<lparr>cd_props := (cd_props s)(p := f (cd_props s p))\<rparr>"

definition effects :: "color_effect list \<Rightarrow> color_state \<Rightarrow> color_state" where
  "effects es s = s\<lparr>cd_trace := cd_trace s @ es\<rparr>"

definition assert_then :: "bool \<Rightarrow> (color_state \<Rightarrow> halt + color_state) \<Rightarrow> color_state \<Rightarrow> halt + color_state" where
  "assert_then b f s = (if b then f s else Inl Abort)"

subsection \<open>Reference counts\<close>

definition fresh_props :: image_description_properties where
  "fresh_props = \<lparr>ip_failed = False, ip_failure_cause = 0, ip_failure_reason = None, ip_icc_profile = - 1,
     ip_icc_profile_len = 0, ip_tf = None, ip_eexp = None, ip_primaries_named = None, ip_primaries = None,
     ip_luminances = None, ip_mastering_display_primaries = None, ip_mastering_luminance = None, ip_max_cll = None,
     ip_max_fall = None, ip_description = None, ip_color_identity_v2_hi = 0, ip_color_identity_v2_lo = 0,
     ip_color_identity_v1 = 0, ip_reference_count = 1\<rparr>"

definition create_image_description_props :: "color_state \<Rightarrow> nat \<times> color_state" where
  "create_image_description_props s = (cd_next s, on_props (cd_next s) (\<lambda>_. fresh_props) (s\<lparr>cd_next := Suc (cd_next s)\<rparr>))"

text \<open>The count is a \<open>size_t\<close>: taking one from zero wraps around.  A structure that was freed cannot be used.\<close>

definition unref_image_description_props :: "nat option \<Rightarrow> color_state \<Rightarrow> halt + color_state" where
  "unref_image_description_props r s =
     (case r of
        None \<Rightarrow> Inr s
      | Some p \<Rightarrow>
          if p \<in> set (cd_freed s) then Inl Undefined
          else
            let n = ip_reference_count (cd_props s p);
                m = (if n = 0 then 2 ^ 64 - 1 else n - 1);
                s1 = on_props p (\<lambda>q. q\<lparr>ip_reference_count := m\<rparr>) s
            in if m > 0 then Inr s1
               else (case ip_description (cd_props s p) of
                       None \<Rightarrow> Inl Abort
                     | Some d \<Rightarrow>
                         Inr ((effects ([Destroy_description d] @
                           (if ip_icc_profile (cd_props s p) \<ge> 0 then [Close_icc (ip_icc_profile (cd_props s p))] else [])) s1)
                           \<lparr>cd_freed := p # cd_freed s\<rparr>)))"

subsection \<open>Requesting a description\<close>

text \<open>A request to the compositor for a description, put into the pending slot.\<close>

definition request_description :: "desc_owner \<Rightarrow> color_state \<Rightarrow> color_state" where
  "request_description w s =
     (let (p, s1) = create_image_description_props s;
          d = cd_next_object s1;
          s2 = on_props p (\<lambda>q. q\<lparr>ip_description := Some d\<rparr>) (s1\<lparr>cd_next_object := Suc d\<rparr>)
      in effects [case w of Of_output i \<Rightarrow> Get_output_description i d | Of_display \<Rightarrow> Get_preferred_parametric d]
           (on_desc w (\<lambda>st. st\<lparr>id_pending := Some p\<rparr>) s2))"

definition request_new_image_desc :: "desc_owner \<Rightarrow> color_state \<Rightarrow> halt + color_state" where
  "request_new_image_desc w s =
     (let s1 = on_desc w (\<lambda>st. st\<lparr>id_dirty := False\<rparr>) s in
      assert_then (id_pending (desc_of s1 w) = None)
        (assert_then (id_info_request (desc_of s1 w) = None) (\<lambda>s. Inr (request_description w s))) s1)"

text \<open>The listener of the colour output is given the \<open>swaylock_surface\<close> as its data.\<close>

definition setup_color_management_for_surface_desc :: "nat \<Rightarrow> color_state \<Rightarrow> color_state" where
  "setup_color_management_for_surface_desc i s =
     request_description (Of_output i)
       (s\<lparr>cd_color_output_data := (cd_color_output_data s)(i := Some (Surface_pointer i)), cd_outputs := i # cd_outputs s\<rparr>)"

definition setup_surface_feedback :: "color_state \<Rightarrow> color_state" where
  "setup_surface_feedback = request_description Of_display"

subsection \<open>Information about a description\<close>

definition on_pending_props ::
  "desc_owner \<Rightarrow> (image_description_properties \<Rightarrow> image_description_properties) \<Rightarrow> color_state \<Rightarrow> halt + color_state" where
  "on_pending_props w f s =
     (case id_pending (desc_of s w) of
        None \<Rightarrow> Inl Undefined
      | Some p \<Rightarrow> if p \<in> set (cd_freed s) then Inl Undefined else Inr (on_props p f s))"

fun record_info :: "info_event \<Rightarrow> image_description_properties \<Rightarrow> image_description_properties" where
  "record_info (Icc_file icc icc_size) q = q\<lparr>ip_icc_profile := icc, ip_icc_profile_len := icc_size\<rparr>"
| "record_info (Primaries xs) q = q\<lparr>ip_primaries := Some xs\<rparr>"
| "record_info (Primaries_named primaries) q = q\<lparr>ip_primaries_named := Some primaries\<rparr>"
| "record_info (Tf_power eexp) q = q\<lparr>ip_eexp := Some eexp\<rparr>"
| "record_info (Tf_named tf) q = q\<lparr>ip_tf := Some tf\<rparr>"
| "record_info (Luminances min_lum max_lum reference_lum) q = q\<lparr>ip_mastering_luminance := Some (min_lum, max_lum)\<rparr>"
| "record_info (Target_primaries xs) q = q\<lparr>ip_mastering_display_primaries := Some xs\<rparr>"
| "record_info (Target_luminance min_lum max_lum) q = q\<lparr>ip_mastering_luminance := Some (min_lum, max_lum)\<rparr>"
| "record_info (Target_max_cll max_cll) q = q\<lparr>ip_max_cll := Some max_cll\<rparr>"
| "record_info (Target_max_fall max_fall) q = q\<lparr>ip_max_fall := Some max_fall\<rparr>"

text \<open>\<open>image_desc_info_handle_\<close>\dots; only the handler of the profile asserts.\<close>

definition image_desc_info_handle :: "desc_owner \<Rightarrow> info_event \<Rightarrow> color_state \<Rightarrow> halt + color_state" where
  "image_desc_info_handle w e s =
     (case (e, id_pending (desc_of s w)) of
        (Icc_file _ _, Some p) \<Rightarrow>
          assert_then (p \<in> set (cd_freed s) \<or> ip_icc_profile (cd_props s p) = - 1) (on_pending_props w (record_info e)) s
      | _ \<Rightarrow> on_pending_props w (record_info e) s)"

text \<open>The pending description becomes the current one.\<close>

definition commit_description :: "desc_owner \<Rightarrow> color_state \<Rightarrow> halt + color_state" where
  "commit_description w s =
     and_then (unref_image_description_props (id_current (desc_of s w)) s) (\<lambda>s1.
       let s2 = on_desc w (\<lambda>st. st\<lparr>id_current := id_pending st, id_pending := None\<rparr>) s1
       in if id_dirty (desc_of s2 w) then request_new_image_desc w s2 else Inr s2)"

definition color_identity_v2_to_v1 :: "u32 \<Rightarrow> u32 \<Rightarrow> u32" where
  "color_identity_v2_to_v1 identity_hi identity_lo = identity_lo"

definition announce_description :: "desc_owner \<Rightarrow> color_state \<Rightarrow> color_state" where
  "announce_description w s =
     (case w of
        Of_output i \<Rightarrow> effects (Init_surface_if_ready i # map Send_description_changed (cd_color_output_resources s i)) s
      | Of_display \<Rightarrow> s)"

definition announce_preferred :: "(nat \<Rightarrow> u32) \<Rightarrow> nat \<Rightarrow> color_state \<Rightarrow> color_state" where
  "announce_preferred resource_version p s =
     effects (map (\<lambda>r.
       if resource_version r \<ge> 2 then
         Send_preferred_changed2 r (ip_color_identity_v2_hi (cd_props s p)) (ip_color_identity_v2_lo (cd_props s p))
       else if cd_version s \<ge> 2 then
         Send_preferred_changed r (color_identity_v2_to_v1 (ip_color_identity_v2_hi (cd_props s p))
           (ip_color_identity_v2_lo (cd_props s p)))
       else Send_preferred_changed r (ip_color_identity_v1 (cd_props s p))) (cd_color_feedback_resources s)) s"

definition image_desc_info_handle_done :: "(nat \<Rightarrow> u32) \<Rightarrow> nat \<Rightarrow> desc_owner \<Rightarrow> color_state \<Rightarrow> halt + color_state" where
  "image_desc_info_handle_done resource_version info w s =
     and_then (commit_description w (effects [Destroy_info info] s)) (\<lambda>s1.
       case w of
         Of_output i \<Rightarrow> Inr (announce_description w s1)
       | Of_display \<Rightarrow>
           (case id_current (desc_of s1 w) of
              None \<Rightarrow> if cd_color_feedback_resources s1 = [] then Inr s1 else Inl Undefined
            | Some p \<Rightarrow> Inr (announce_preferred resource_version p s1)))"

definition image_desc_handle_failed :: "desc_owner \<Rightarrow> u32 \<Rightarrow> string \<Rightarrow> color_state \<Rightarrow> halt + color_state" where
  "image_desc_handle_failed w cause msg s =
     and_then (on_pending_props w (\<lambda>q. q\<lparr>ip_failed := True, ip_failure_cause := cause\<rparr>) s) (\<lambda>s1.
     assert_then (case id_pending (desc_of s1 w) of None \<Rightarrow> False | Some p \<Rightarrow> ip_failure_reason (cd_props s1 p) = None)
       (\<lambda>s1. and_then (on_pending_props w (\<lambda>q. q\<lparr>ip_failure_reason := Some msg\<rparr>) s1) (\<lambda>s2.
         and_then (commit_description w s2) (\<lambda>s3. Inr (announce_description w s3)))) s1)"

definition get_information :: "desc_owner \<Rightarrow> nat \<Rightarrow> color_state \<Rightarrow> halt + color_state" where
  "get_information w d s =
     assert_then (case id_pending (desc_of s w) of None \<Rightarrow> False | Some p \<Rightarrow> ip_description (cd_props s p) = Some d)
       (assert_then (id_info_request (desc_of s w) = None)
         (\<lambda>s. let info = cd_next_object s in
              Inr (effects [Get_information d info]
                (on_desc w (\<lambda>st. st\<lparr>id_info_request := Some info\<rparr>) (s\<lparr>cd_next_object := Suc info\<rparr>))))) s"

definition image_desc_handle_ready :: "desc_owner \<Rightarrow> nat \<Rightarrow> u32 \<Rightarrow> color_state \<Rightarrow> halt + color_state" where
  "image_desc_handle_ready w d identity s =
     and_then (on_pending_props w (\<lambda>q. q\<lparr>ip_color_identity_v1 := identity\<rparr>) s) (get_information w d)"

definition image_desc_handle_ready2 :: "desc_owner \<Rightarrow> nat \<Rightarrow> u32 \<Rightarrow> u32 \<Rightarrow> color_state \<Rightarrow> halt + color_state" where
  "image_desc_handle_ready2 w d identity_hi identity_lo s =
     and_then (on_pending_props w
         (\<lambda>q. q\<lparr>ip_color_identity_v2_hi := identity_hi, ip_color_identity_v2_lo := identity_lo\<rparr>) s)
       (get_information w d)"

subsection \<open>Changes\<close>

definition description_changed :: "desc_owner \<Rightarrow> color_state \<Rightarrow> halt + color_state" where
  "description_changed w s =
     (if id_pending (desc_of s w) \<noteq> None then Inr (on_desc w (\<lambda>st. st\<lparr>id_dirty := True\<rparr>) s)
      else request_new_image_desc w s)"

definition color_feedback_handle_preferred_changed :: "color_state \<Rightarrow> halt + color_state" where
  "color_feedback_handle_preferred_changed = description_changed Of_display"

definition color_feedback_handle_preferred_changed2 :: "color_state \<Rightarrow> halt + color_state" where
  "color_feedback_handle_preferred_changed2 = description_changed Of_display"

text \<open>The handler takes its data for an \<open>image_description_state\<close>.\<close>

definition color_output_handle_image_desc_changed :: "listener_data option \<Rightarrow> color_state \<Rightarrow> halt + color_state" where
  "color_output_handle_image_desc_changed data s =
     (case data of
        Some (Description_state w) \<Rightarrow> description_changed w s
      | _ \<Rightarrow> Inl Undefined)"

subsection \<open>Descriptions for clients\<close>

definition create_output_image_desc :: "nat \<Rightarrow> u32 \<Rightarrow> nat option \<Rightarrow> color_state \<Rightarrow> halt + color_state" where
  "create_output_image_desc r version props s =
     (case props of
        None \<Rightarrow> Inl Undefined
      | Some p \<Rightarrow>
          let q = cd_props s p;
              s1 = on_props p (\<lambda>q. q\<lparr>ip_reference_count := ip_reference_count q + 1\<rparr>) (s\<lparr>cd_descs := (r, p) # cd_descs s\<rparr>)
          in if p \<in> set (cd_freed s) then Inl Undefined
             else if ip_failed q then Inr (effects [Send_failed r (ip_failure_cause q) (ip_failure_reason q)] s1)
             else if version \<ge> 2 then
               assert_then (cd_version s \<ge> 2)
                 (\<lambda>s. Inr (effects [Send_ready2 r (ip_color_identity_v2_hi q) (ip_color_identity_v2_lo q)] s)) s1
             else if cd_version s \<ge> 2 then
               Inr (effects [Send_ready r (color_identity_v2_to_v1 (ip_color_identity_v2_hi q) (ip_color_identity_v2_lo q))] s1)
             else Inr (effects [Send_ready r (ip_color_identity_v1 q)] s1))"

text \<open>The object is gone and no surface uses it (\<open>delete_image_desc_if_unreferenced\<close> with properties).\<close>

definition delete_output_image_desc :: "nat \<Rightarrow> color_state \<Rightarrow> halt + color_state" where
  "delete_output_image_desc r s =
     (case map_of (cd_descs s) r of
        None \<Rightarrow> Inr s
      | Some p \<Rightarrow> unref_image_description_props (Some p) (s\<lparr>cd_descs := AList.delete r (cd_descs s)\<rparr>))"

text \<open>The information about a description goes to the object \<open>info\<close>.\<close>

definition information_events :: "image_description_properties \<Rightarrow> info_event list" where
  "information_events q =
     (if ip_icc_profile q \<ge> 0 then [Icc_file (ip_icc_profile q) (ip_icc_profile_len q)] else []) @
     (case ip_tf q of None \<Rightarrow> [] | Some tf \<Rightarrow> [Tf_named tf]) @
     (case ip_eexp q of None \<Rightarrow> [] | Some eexp \<Rightarrow> [Tf_power eexp]) @
     (case ip_primaries_named q of None \<Rightarrow> [] | Some primaries \<Rightarrow> [Primaries_named primaries]) @
     (case ip_primaries q of None \<Rightarrow> [] | Some xs \<Rightarrow> [Primaries xs]) @
     (case ip_luminances q of None \<Rightarrow> [] | Some (a, b, c) \<Rightarrow> [Luminances a b c]) @
     (case ip_mastering_display_primaries q of None \<Rightarrow> [] | Some xs \<Rightarrow> [Target_primaries xs]) @
     (case ip_mastering_luminance q of None \<Rightarrow> [] | Some (a, b) \<Rightarrow> [Target_luminance a b]) @
     (case ip_max_cll q of None \<Rightarrow> [] | Some v \<Rightarrow> [Target_max_cll v]) @
     (case ip_max_fall q of None \<Rightarrow> [] | Some v \<Rightarrow> [Target_max_fall v])"

definition nested_image_desc_get_information :: "nat \<Rightarrow> nat \<Rightarrow> color_state \<Rightarrow> color_state" where
  "nested_image_desc_get_information r info s =
     (case map_of (cd_descs s) r of
        None \<Rightarrow> effects [Post_no_information r] s
      | Some p \<Rightarrow> effects (map (Send_info info) (information_events (cd_props s p)) @ [Send_info_done info]) s)"

definition color_output_get_image_description :: "nat \<Rightarrow> u32 \<Rightarrow> nat \<Rightarrow> color_state \<Rightarrow> halt + color_state" where
  "color_output_get_image_description r version i s =
     assert_then (id_current (cd_output_desc s i) \<noteq> None)
       (\<lambda>s. create_output_image_desc r version (id_current (cd_output_desc s i)) s) s"

text \<open>The surface behind a feedback object, as the state of the program has it: \<open>None\<close> when it was freed.\<close>

definition feedback_surface :: "swaylock_state \<Rightarrow> nat \<Rightarrow> nat option option" where
  "feedback_surface st p = (if alive st p then Some (fs_sway_surface (plugin_surface st p)) else None)"

definition nested_color_feedback_get_preferred ::
  "nat \<Rightarrow> u32 \<Rightarrow> nat option option \<Rightarrow> color_state \<Rightarrow> halt + color_state" where
  "nested_color_feedback_get_preferred r version sway s =
     (case sway of
        None \<Rightarrow> Inl Undefined
      | Some None \<Rightarrow> create_output_image_desc r version (id_current (cd_desc_surface s)) s
      | Some (Some i) \<Rightarrow>
          assert_then (id_current (cd_output_desc s i) \<noteq> None)
            (\<lambda>s. create_output_image_desc r version
              (if \<not> ip_failed (cd_props s (the (id_current (cd_output_desc s i)))) then id_current (cd_output_desc s i)
               else id_current (cd_desc_surface s)) s) s)"

definition nested_color_feedback_get_preferred_parameteric ::
  "nat \<Rightarrow> u32 \<Rightarrow> nat option option \<Rightarrow> color_state \<Rightarrow> halt + color_state" where
  "nested_color_feedback_get_preferred_parameteric r version sway s =
     (case sway of
        None \<Rightarrow> Inl Undefined
      | Some None \<Rightarrow> create_output_image_desc r version (id_current (cd_desc_surface s)) s
      | Some (Some i) \<Rightarrow>
          assert_then (id_current (cd_output_desc s i) \<noteq> None)
            (\<lambda>s. create_output_image_desc r version
              (let q = cd_props s (the (id_current (cd_output_desc s i))) in
               if \<not> ip_failed q \<and> ip_icc_profile q = - 1 then id_current (cd_output_desc s i)
               else id_current (cd_desc_surface s)) s) s)"

definition nested_color_get_surface_feedback :: "nat \<Rightarrow> color_state \<Rightarrow> color_state" where
  "nested_color_get_surface_feedback r s = s\<lparr>cd_color_feedback_resources := r # cd_color_feedback_resources s\<rparr>"

definition color_feedback_handle_resource_destroy :: "nat \<Rightarrow> color_state \<Rightarrow> color_state" where
  "color_feedback_handle_resource_destroy r s =
     s\<lparr>cd_color_feedback_resources := removeAll r (cd_color_feedback_resources s)\<rparr>"

subsection \<open>Sequences of events\<close>

text \<open>What can happen to the descriptions: outputs that get a colour description, the events of the compositor, and the
  requests of clients.  A new object of a client gets the next number; the surface behind a feedback object
  is an argument (see \<open>feedback_surface\<close>).\<close>

datatype (plugins only: code) color_op =
    Setup_output nat
  | Ready desc_owner nat u32
  | Ready2 desc_owner nat u32 u32
  | Failed desc_owner u32 string
  | Info desc_owner info_event
  | Info_done desc_owner nat
  | Preferred_changed
  | Preferred_changed2
  | Output_changed nat
  | Get_output_desc u32 nat
  | Get_preferred u32 "nat option option"
  | Get_preferred_param u32 "nat option option"
  | Delete_desc nat
  | Get_info nat nat
  | Get_feedback
  | Destroy_feedback nat

definition with_new :: "(nat \<Rightarrow> color_state \<Rightarrow> halt + color_state) \<Rightarrow> color_state \<Rightarrow> halt + color_state" where
  "with_new f s = f (cd_next_object s) (s\<lparr>cd_next_object := Suc (cd_next_object s)\<rparr>)"

fun do_color_op :: "(nat \<Rightarrow> u32) \<Rightarrow> color_op \<Rightarrow> color_state \<Rightarrow> halt + color_state" where
  "do_color_op v (Setup_output i) s =
     assert_then (i \<notin> set (cd_outputs s)) (\<lambda>s. Inr (setup_color_management_for_surface_desc i s)) s"
| "do_color_op v (Ready w d identity) s = image_desc_handle_ready w d identity s"
| "do_color_op v (Ready2 w d hi lo) s = image_desc_handle_ready2 w d hi lo s"
| "do_color_op v (Failed w cause msg) s = image_desc_handle_failed w cause msg s"
| "do_color_op v (Info w e) s = image_desc_info_handle w e s"
| "do_color_op v (Info_done w info) s = image_desc_info_handle_done v info w s"
| "do_color_op v Preferred_changed s = color_feedback_handle_preferred_changed s"
| "do_color_op v Preferred_changed2 s = color_feedback_handle_preferred_changed2 s"
| "do_color_op v (Output_changed i) s = color_output_handle_image_desc_changed (cd_color_output_data s i) s"
| "do_color_op v (Get_output_desc version i) s = with_new (\<lambda>r. color_output_get_image_description r version i) s"
| "do_color_op v (Get_preferred version sway) s = with_new (\<lambda>r. nested_color_feedback_get_preferred r version sway) s"
| "do_color_op v (Get_preferred_param version sway) s =
     with_new (\<lambda>r. nested_color_feedback_get_preferred_parameteric r version sway) s"
| "do_color_op v (Delete_desc r) s = delete_output_image_desc r s"
| "do_color_op v (Get_info r info) s = Inr (nested_image_desc_get_information r info s)"
| "do_color_op v Get_feedback s = with_new (\<lambda>r s. Inr (nested_color_get_surface_feedback r s)) s"
| "do_color_op v (Destroy_feedback r) s = Inr (color_feedback_handle_resource_destroy r s)"

fun do_color_ops :: "(nat \<Rightarrow> u32) \<Rightarrow> color_op list \<Rightarrow> color_state \<Rightarrow> halt + color_state" where
  "do_color_ops v [] s = Inr s"
| "do_color_ops v (op # ops) s = and_then (do_color_op v op s) (do_color_ops v ops)"

definition zero_desc :: image_description_state where
  "zero_desc = \<lparr>id_info_request = None, id_dirty = False, id_pending = None, id_current = None\<rparr>"

text \<open>After \<open>main\<close> asked for the description of its test surface.\<close>

definition initial_color_state :: "u32 \<Rightarrow> color_state" where
  "initial_color_state version =
     setup_surface_feedback \<lparr>cd_output_desc = (\<lambda>_. zero_desc), cd_desc_surface = zero_desc, cd_outputs = [],
       cd_color_output_data = (\<lambda>_. None), cd_props = (\<lambda>_. fresh_props), cd_freed = [], cd_next = 0, cd_next_object = 0,
       cd_descs = [], cd_color_output_resources = (\<lambda>_. []), cd_color_feedback_resources = [], cd_version = version,
       cd_trace = []\<rparr>"

subsection \<open>The reference counts are exact\<close>

definition slots :: "image_description_state \<Rightarrow> nat list" where
  "slots st = (case id_pending st of None \<Rightarrow> [] | Some p \<Rightarrow> [p]) @ (case id_current st of None \<Rightarrow> [] | Some p \<Rightarrow> [p])"

definition owners :: "color_state \<Rightarrow> desc_owner list" where
  "owners s = Of_display # map Of_output (cd_outputs s)"

definition refs :: "color_state \<Rightarrow> nat \<Rightarrow> nat" where
  "refs s p = sum_list (map (\<lambda>w. count_list (slots (desc_of s w)) p) (owners s)) + count_list (map snd (cd_descs s)) p"

text \<open>\<open>R\<close> counts the references: a structure is allocated as long as it has one, and then its count is their number.\<close>

definition counted_at :: "color_state \<Rightarrow> nat \<Rightarrow> nat \<Rightarrow> bool" where
  "counted_at s p n \<longleftrightarrow>
     (if p < cd_next s \<and> p \<notin> set (cd_freed s)
      then ip_reference_count (cd_props s p) = n \<and> 0 < n \<and> ip_description (cd_props s p) \<noteq> None
      else n = 0) \<and> (p \<in> set (cd_freed s) \<longrightarrow> p < cd_next s)"

definition counted :: "color_state \<Rightarrow> (nat \<Rightarrow> nat) \<Rightarrow> bool" where
  "counted s R \<longleftrightarrow> (\<forall>p. counted_at s p (R p))"

definition shaped :: "color_state \<Rightarrow> bool" where
  "shaped s \<longleftrightarrow> distinct (cd_outputs s) \<and> (\<forall>i w. cd_color_output_data s i \<noteq> Some (Description_state w)) \<and> (\<forall>i. i \<notin> set (cd_outputs s) \<longrightarrow> cd_output_desc s i = zero_desc) \<and>
     distinct (map fst (cd_descs s)) \<and> (\<forall>r \<in> fst ` set (cd_descs s). r < cd_next_object s)"

definition refs_exact :: "color_state \<Rightarrow> bool" where
  "refs_exact s \<longleftrightarrow> counted s (refs s) \<and> shaped s"

lemma desc_of_on_desc [simp]: "desc_of (on_desc w f s) w' = (if w' = w then f (desc_of s w) else desc_of s w')"
  by (auto simp: desc_of_def on_desc_def split: desc_owner.splits)

lemma on_desc_keeps [simp]:
  "cd_outputs (on_desc w f s) = cd_outputs s" "cd_props (on_desc w f s) = cd_props s" "cd_freed (on_desc w f s) = cd_freed s"
  "cd_next (on_desc w f s) = cd_next s" "cd_next_object (on_desc w f s) = cd_next_object s"
  "cd_descs (on_desc w f s) = cd_descs s" "cd_version (on_desc w f s) = cd_version s"
  "cd_color_feedback_resources (on_desc w f s) = cd_color_feedback_resources s"
  "cd_color_output_data (on_desc w f s) = cd_color_output_data s" "owners (on_desc w f s) = owners s"
  by (simp_all add: on_desc_def owners_def split: desc_owner.splits)

lemma other_desc [simp]: "desc_of (on_props p g s) = desc_of s" "desc_of (effects es s) = desc_of s"
  by (simp_all add: desc_of_def on_props_def effects_def fun_eq_iff split: desc_owner.splits)

lemma other_keeps [simp]:
  "cd_outputs (on_props p g s) = cd_outputs s" "cd_outputs (effects es s) = cd_outputs s"
  "cd_output_desc (on_props p g s) = cd_output_desc s" "cd_output_desc (effects es s) = cd_output_desc s"
  "cd_color_output_data (on_props p g s) = cd_color_output_data s" "cd_color_output_data (effects es s) = cd_color_output_data s"
  "cd_descs (on_props p g s) = cd_descs s" "cd_descs (effects es s) = cd_descs s"
  "cd_next_object (on_props p g s) = cd_next_object s" "cd_next_object (effects es s) = cd_next_object s"
  "cd_next (on_props p g s) = cd_next s" "cd_next (effects es s) = cd_next s"
  "cd_freed (on_props p g s) = cd_freed s" "cd_freed (effects es s) = cd_freed s" "cd_props (effects es s) = cd_props s"
  by (simp_all add: on_props_def effects_def)

lemma derived_keeps [simp]:
  "owners (on_props p g s) = owners s" "owners (effects es s) = owners s"
  "refs (on_props p g s) = refs s" "refs (effects es s) = refs s"
  "shaped (on_props p g s) = shaped s" "shaped (effects es s) = shaped s"
  "counted (effects es s) = counted s" "refs_exact (effects es s) = refs_exact s"
  by (simp_all add: owners_def refs_def shaped_def counted_def counted_at_def refs_exact_def fun_eq_iff)

lemma counted_on_desc [simp]: "counted (on_desc w f s) R = counted s R"
  by (simp add: counted_def counted_at_def)

lemma sum_list_update:
  "distinct xs \<Longrightarrow> w \<in> set xs \<Longrightarrow>
    sum_list (map (\<lambda>x. if x = w then v else g x) xs) + g w = sum_list (map g xs) + (v :: nat)"
proof (induction xs)
  case (Cons x xs)
  show ?case
  proof (cases "x = w")
    case True
    with Cons.prems have "map (\<lambda>x. if x = w then v else g x) xs = map g xs" by (auto intro: map_cong)
    then have "sum_list (map (\<lambda>x. if x = w then v else g x) xs) = sum_list (map g xs)" by (rule arg_cong)
    with True show ?thesis by simp
  next
    case False
    with Cons show ?thesis by simp
  qed
qed simp

lemma refs_on_desc:
  assumes "shaped s" and "w \<in> set (owners s)"
  shows "refs (on_desc w f s) p + count_list (slots (desc_of s w)) p = refs s p + count_list (slots (f (desc_of s w))) p"
proof -
  have "distinct (owners s)" using assms(1) by (auto simp: shaped_def owners_def distinct_map inj_on_def)
  from sum_list_update [OF this assms(2), of "count_list (slots (f (desc_of s w))) p" "\<lambda>w. count_list (slots (desc_of s w)) p"]
  show ?thesis by (simp add: refs_def if_distrib [of "\<lambda>st. count_list (slots st) p"] cong: if_cong)
qed

lemma shaped_on_desc: "shaped s \<Longrightarrow> w \<in> set (owners s) \<Longrightarrow> shaped (on_desc w f s)"
  by (cases w) (auto simp: shaped_def owners_def on_desc_def)

lemma not_owner: "shaped s \<Longrightarrow> w \<notin> set (owners s) \<Longrightarrow> desc_of s w = zero_desc"
  by (cases w) (auto simp: shaped_def owners_def desc_of_def)

lemma pending_owner:
  assumes "shaped s" and "id_pending (desc_of s w) \<noteq> None"
  shows "w \<in> set (owners s)"
proof (rule ccontr)
  assume "w \<notin> set (owners s)"
  with assms(1) have "desc_of s w = zero_desc" by (rule not_owner)
  with assms(2) show False by (simp add: zero_desc_def)
qed

lemma slot_counts:
  "id_pending st = Some p \<Longrightarrow> 0 < count_list (slots st) p" "id_current st = Some p \<Longrightarrow> 0 < count_list (slots st) p"
  by (simp_all add: slots_def split: option.split)

lemma refs_slot:
  assumes "shaped s" and "0 < count_list (slots (desc_of s w)) p"
  shows "0 < refs s p"
proof -
  have "w \<in> set (owners s)"
  proof (rule ccontr)
    assume "w \<notin> set (owners s)"
    with assms(1) have "desc_of s w = zero_desc" by (rule not_owner)
    with assms(2) show False by (simp add: zero_desc_def slots_def)
  qed
  then have "count_list (slots (desc_of s w)) p \<le> sum_list (map (\<lambda>w. count_list (slots (desc_of s w)) p) (owners s))"
    by (intro member_le_sum_list) auto
  with assms(2) show ?thesis by (simp add: refs_def)
qed

lemma countedD: "counted s R \<Longrightarrow> counted_at s p (R p)"
  by (simp add: counted_def)

lemma counted_live: "counted s R \<Longrightarrow> 0 < R p \<Longrightarrow> p < cd_next s \<and> p \<notin> set (cd_freed s)"
  using countedD [of s R p] by (auto simp: counted_at_def split: if_splits)

lemma counted_on_props:
  assumes "counted s R" and "\<And>q. ip_reference_count (g q) = ip_reference_count q" and "\<And>q. ip_description (g q) = ip_description q"
  shows "counted (on_props p g s) R"
  unfolding counted_def
proof
  fix x
  show "counted_at (on_props p g s) x (R x)"
    using countedD [OF assms(1), of x] assms(2,3) by (auto simp: counted_at_def on_props_def split: if_splits)
qed

lemma counted_drop:
  assumes "counted s R" and "1 < R q"
  shows "counted (on_props q (\<lambda>x. x\<lparr>ip_reference_count := R q - 1\<rparr>) s) (R(q := R q - 1))"
  unfolding counted_def
proof
  fix x
  show "counted_at (on_props q (\<lambda>x. x\<lparr>ip_reference_count := R q - 1\<rparr>) s) x ((R(q := R q - 1)) x)"
    using countedD [OF assms(1), of x] assms(2) counted_live [OF assms(1), of q]
    by (cases "x = q") (simp_all add: counted_at_def on_props_def)
qed

lemma counted_free:
  assumes "counted s R" and "R q = 1" and "cd_next s' = cd_next s" and "cd_freed s' = q # cd_freed s"
    and "\<And>p. p \<noteq> q \<Longrightarrow> cd_props s' p = cd_props s p"
  shows "counted s' (R(q := 0))"
  unfolding counted_def
proof
  fix x
  show "counted_at s' x ((R(q := 0)) x)"
    using countedD [OF assms(1), of x] assms(2-4) assms(5) [of x] counted_live [OF assms(1), of q]
    by (cases "x = q") (simp_all add: counted_at_def)
qed

lemma unref_outcome:
  assumes "counted s R" and "0 < R q" and "unref_image_description_props (Some q) s = Inr s'"
  shows "\<exists>es. s' = (if 1 < R q then on_props q (\<lambda>x. x\<lparr>ip_reference_count := R q - 1\<rparr>) s
    else (effects es (on_props q (\<lambda>x. x\<lparr>ip_reference_count := 0\<rparr>) s))\<lparr>cd_freed := q # cd_freed s\<rparr>)"
proof -
  from counted_live [OF assms(1,2)] have live: "q < cd_next s" "q \<notin> set (cd_freed s)" by auto
  then have "ip_reference_count (cd_props s q) = R q"
    using countedD [OF assms(1), of q] by (simp add: counted_at_def)
  with assms(2,3) live show ?thesis
    by (auto simp: unref_image_description_props_def Let_def split: if_splits option.splits)
qed

lemma set_freed_keeps [simp]:
  "desc_of (s\<lparr>cd_freed := fs\<rparr>) = desc_of s" "owners (s\<lparr>cd_freed := fs\<rparr>) = owners s" "shaped (s\<lparr>cd_freed := fs\<rparr>) = shaped s"
  by (simp_all add: desc_of_def owners_def shaped_def fun_eq_iff split: desc_owner.splits)

lemma counted_unref:
  assumes "counted s R" and "0 < R q" and "unref_image_description_props (Some q) s = Inr s'"
  shows "counted s' (R(q := R q - 1)) \<and> desc_of s' = desc_of s \<and> owners s' = owners s \<and> cd_descs s' = cd_descs s \<and>
    shaped s' = shaped s \<and> cd_next_object s' = cd_next_object s"
proof (cases "1 < R q")
  case True
  with unref_outcome [OF assms] counted_drop [OF assms(1) True] show ?thesis by auto
next
  case False
  with assms(2) have one: "R q = 1" by simp
  from unref_outcome [OF assms] False obtain es where
    s': "s' = (effects es (on_props q (\<lambda>x. x\<lparr>ip_reference_count := 0\<rparr>) s))\<lparr>cd_freed := q # cd_freed s\<rparr>" by auto
  have "counted s' (R(q := 0))" using assms(1) one by (rule counted_free) (simp_all add: s' on_props_def)
  with one s' show ?thesis by simp
qed

text \<open>One lemma per building block: writing to a structure without touching its count, a new description for an
  empty pending slot, the move from pending to current, a new and a lost object of a client.\<close>

lemma exact_on_props:
  assumes "refs_exact s" and "\<And>q. ip_reference_count (g q) = ip_reference_count q" and "\<And>q. ip_description (g q) = ip_description q"
  shows "refs_exact (on_props p g s)"
  using assms counted_on_props [of s "refs s" g p] by (simp add: refs_exact_def)

lemma exact_pending_props:
  assumes "refs_exact s" and "on_pending_props w g s = Inr s'"
    and "\<And>q. ip_reference_count (g q) = ip_reference_count q" and "\<And>q. ip_description (g q) = ip_description q"
  shows "refs_exact s' \<and> desc_of s' = desc_of s \<and> owners s' = owners s"
  using assms exact_on_props [of s g] by (auto simp: on_pending_props_def split: option.splits if_splits)

lemma desc_of_object [simp]: "desc_of (s\<lparr>cd_next_object := n\<rparr>) = desc_of s" "owners (s\<lparr>cd_next_object := n\<rparr>) = owners s"
  "desc_of (s\<lparr>cd_next := n\<rparr>) = desc_of s" "owners (s\<lparr>cd_next := n\<rparr>) = owners s"
  by (simp_all add: desc_of_def owners_def fun_eq_iff split: desc_owner.splits)

lemma exact_object:
  assumes "refs_exact s" shows "refs_exact (s\<lparr>cd_next_object := Suc (cd_next_object s)\<rparr>)"
proof -
  have "refs (s\<lparr>cd_next_object := Suc (cd_next_object s)\<rparr>) = refs s"
    by (simp add: refs_def fun_eq_iff)
  with assms show ?thesis
    by (auto simp: refs_exact_def counted_def counted_at_def shaped_def less_Suc_eq)
qed

lemma counted_new:
  assumes "counted s R"
  shows "counted (on_props (cd_next s) (\<lambda>_. fresh_props\<lparr>ip_description := Some d\<rparr>)
    (s\<lparr>cd_next := Suc (cd_next s), cd_next_object := n\<rparr>)) (R(cd_next s := 1))"
  unfolding counted_def
proof
  fix x
  show "counted_at (on_props (cd_next s) (\<lambda>_. fresh_props\<lparr>ip_description := Some d\<rparr>)
      (s\<lparr>cd_next := Suc (cd_next s), cd_next_object := n\<rparr>)) x ((R(cd_next s := 1)) x)"
    using countedD [OF assms, of x] by (auto simp: counted_at_def on_props_def fresh_props_def less_Suc_eq split: if_splits)
qed

lemma request_description_eq:
  "request_description w s =
     effects [case w of Of_output i \<Rightarrow> Get_output_description i (cd_next_object s)
              | Of_display \<Rightarrow> Get_preferred_parametric (cd_next_object s)]
       (on_desc w (\<lambda>st. st\<lparr>id_pending := Some (cd_next s)\<rparr>)
         (on_props (cd_next s) (\<lambda>_. fresh_props\<lparr>ip_description := Some (cd_next_object s)\<rparr>)
           (s\<lparr>cd_next := Suc (cd_next s), cd_next_object := Suc (cd_next_object s)\<rparr>)))"
  by (cases w) (simp_all add: request_description_def create_image_description_props_def on_props_def Let_def)

lemma exact_request:
  assumes "refs_exact s" and "w \<in> set (owners s)" and "id_pending (desc_of s w) = None"
  shows "refs_exact (request_description w s)"
proof -
  let ?n = "cd_next s"
  define s1 where "s1 = on_props ?n (\<lambda>_. fresh_props\<lparr>ip_description := Some (cd_next_object s)\<rparr>)
    (s\<lparr>cd_next := Suc ?n, cd_next_object := Suc (cd_next_object s)\<rparr>)"
  have same: "desc_of s1 = desc_of s" "owners s1 = owners s" "refs s1 = refs s"
    by (simp_all add: s1_def refs_def fun_eq_iff)
  have shaped: "shaped s1" using assms(1) by (auto simp: refs_exact_def s1_def shaped_def less_Suc_eq)
  have none: "refs s ?n = 0"
    using assms(1) countedD [of s "refs s" ?n] by (simp add: refs_exact_def counted_at_def)
  have "refs (on_desc w (\<lambda>st. st\<lparr>id_pending := Some ?n\<rparr>) s1) = (refs s)(?n := 1)"
  proof
    fix p
    show "refs (on_desc w (\<lambda>st. st\<lparr>id_pending := Some ?n\<rparr>) s1) p = ((refs s)(?n := 1)) p"
      using refs_on_desc [OF shaped, of w "\<lambda>st. st\<lparr>id_pending := Some ?n\<rparr>" p] assms(2,3) none
      by (cases "p = ?n") (simp_all add: same slots_def split: option.splits)
  qed
  moreover have "counted s1 ((refs s)(?n := 1))"
    using assms(1) counted_new [of s "refs s" "cd_next_object s" "Suc (cd_next_object s)"]
    by (simp add: s1_def refs_exact_def)
  ultimately show ?thesis
    using shaped_on_desc [OF shaped, of w] assms(2) same
    by (simp add: request_description_eq s1_def [symmetric] refs_exact_def)
qed

lemma refs_on_desc_same:
  assumes "shaped s" and "\<And>st. slots (f st) = slots st"
  shows "refs (on_desc w f s) = refs s"
proof -
  have "slots (if w' = w then f (desc_of s w) else desc_of s w') = slots (desc_of s w')" for w'
    using assms(2) by simp
  then show ?thesis by (simp add: refs_def fun_eq_iff)
qed

lemma exact_flag:
  assumes "refs_exact s" and "w \<in> set (owners s)" and "\<And>st. slots (f st) = slots st"
  shows "refs_exact (on_desc w f s)"
  using assms shaped_on_desc [of s w f] by (simp add: refs_exact_def refs_on_desc_same)

lemma exact_request_new:
  assumes "refs_exact s" and "w \<in> set (owners s)" and "request_new_image_desc w s = Inr s'"
  shows "refs_exact s'"
proof -
  let ?s1 = "on_desc w (\<lambda>st. st\<lparr>id_dirty := False\<rparr>) s"
  from assms(3) have "id_pending (desc_of ?s1 w) = None" "s' = request_description w ?s1"
    by (auto simp: request_new_image_desc_def Let_def assert_then_def split: if_splits)
  moreover have "refs_exact ?s1" using assms(1,2) by (rule exact_flag) (simp add: slots_def)
  ultimately show ?thesis using assms(2) by (simp add: exact_request)
qed

lemma moved_zero: "zero_desc\<lparr>id_current := id_pending zero_desc, id_pending := None\<rparr> = zero_desc"
  by (simp add: zero_desc_def)

lemma exact_commit:
  assumes "refs_exact s" and "commit_description w s = Inr s'"
  shows "refs_exact s'"
proof (cases "w \<in> set (owners s)")
  case False
  then have z: "desc_of s w = zero_desc" using assms(1) by (auto simp: refs_exact_def not_owner)
  then have "on_desc w (\<lambda>st. st\<lparr>id_current := id_pending st, id_pending := None\<rparr>) s = s"
    by (cases w) (simp_all add: on_desc_def desc_of_def moved_zero fun_upd_idem)
  with z assms show ?thesis
    by (simp add: commit_description_def unref_image_description_props_def zero_desc_def Let_def)
next
  case True
  let ?f = "\<lambda>st. st\<lparr>id_current := id_pending st, id_pending := None\<rparr>"
  from assms(2) obtain s1 where s1: "unref_image_description_props (id_current (desc_of s w)) s = Inr s1"
    and s': "s' = on_desc w ?f s1 \<or> request_new_image_desc w (on_desc w ?f s1) = Inr s'"
    by (auto simp: commit_description_def Let_def and_then_Inr split: if_splits)
  have "refs_exact (on_desc w ?f s1) \<and> owners s1 = owners s"
  proof (cases "id_current (desc_of s w)")
    case None
    with s1 have "s1 = s" by (simp add: unref_image_description_props_def)
    moreover have "refs (on_desc w ?f s) p = refs s p" for p
      using refs_on_desc [of s w ?f p] assms(1) True None by (simp add: refs_exact_def slots_def split: option.splits)
    then have "refs (on_desc w ?f s) = refs s" by (rule ext)
    ultimately show ?thesis
      using assms(1) True shaped_on_desc [of s w ?f] by (simp add: refs_exact_def)
  next
    case (Some q)
    have "0 < refs s q" using assms(1) Some by (intro refs_slot [of s w]) (auto simp: refs_exact_def slot_counts)
    with counted_unref [of s "refs s" q s1] s1 Some assms(1)
    have c: "counted s1 ((refs s)(q := refs s q - 1))" "desc_of s1 = desc_of s" "owners s1 = owners s" "cd_descs s1 = cd_descs s"
      "shaped s1" by (auto simp: refs_exact_def)
    then have "refs s1 = refs s" by (simp add: refs_def fun_eq_iff)
    with \<open>0 < refs s q\<close> have "refs (on_desc w ?f s1) p = ((refs s)(q := refs s q - 1)) p" for p
      using refs_on_desc [of s1 w ?f p] c True Some by (simp add: slots_def split: option.splits if_splits)
    then have "refs (on_desc w ?f s1) = (refs s)(q := refs s q - 1)" by (rule ext)
    with c True show ?thesis using shaped_on_desc [of s1 w ?f] by (simp add: refs_exact_def)
  qed
  with s' True show ?thesis using exact_request_new [of "on_desc w ?f s1" w s'] by auto
qed

lemma exact_create:
  assumes "refs_exact s" and "r \<notin> fst ` set (cd_descs s)" and "r < cd_next_object s"
    and "create_output_image_desc r version props s = Inr s'" and "\<And>p. props = Some p \<Longrightarrow> 0 < refs s p"
  shows "refs_exact s'"
proof -
  from assms(4) obtain p es where p: "props = Some p" and
    s': "s' = effects es (on_props p (\<lambda>q. q\<lparr>ip_reference_count := ip_reference_count q + 1\<rparr>) (s\<lparr>cd_descs := (r, p) # cd_descs s\<rparr>))"
    by (auto simp: create_output_image_desc_def Let_def assert_then_def split: option.splits if_splits)
  let ?s1 = "s\<lparr>cd_descs := (r, p) # cd_descs s\<rparr>"
  have same: "desc_of ?s1 = desc_of s" "owners ?s1 = owners s"
    by (simp_all add: desc_of_def owners_def fun_eq_iff split: desc_owner.splits)
  have "refs ?s1 = (refs s)(p := Suc (refs s p))" by (simp add: refs_def same fun_eq_iff)
  moreover have "counted (on_props p (\<lambda>q. q\<lparr>ip_reference_count := ip_reference_count q + 1\<rparr>) ?s1) ((refs s)(p := Suc (refs s p)))"
    unfolding counted_def
  proof
    fix x
    have "counted s (refs s)" using assms(1) by (simp add: refs_exact_def)
    from countedD [OF this, of x] assms(5) [OF p]
    show "counted_at (on_props p (\<lambda>q. q\<lparr>ip_reference_count := ip_reference_count q + 1\<rparr>) ?s1) x (((refs s)(p := Suc (refs s p))) x)"
      by (cases "x = p") (auto simp: counted_at_def on_props_def split: if_splits)
  qed
  moreover have "shaped ?s1" using assms(1-3) by (auto simp: refs_exact_def shaped_def)
  ultimately show ?thesis by (simp add: s' refs_exact_def)
qed

lemma exact_new_object:
  assumes "refs_exact s"
    and "\<And>r s1. refs_exact s1 \<Longrightarrow> r \<notin> fst ` set (cd_descs s1) \<Longrightarrow> r < cd_next_object s1 \<Longrightarrow> desc_of s1 = desc_of s \<Longrightarrow>
      refs s1 = refs s \<Longrightarrow> f r s1 = Inr s' \<Longrightarrow> refs_exact s'"
    and "with_new f s = Inr s'"
  shows "refs_exact s'"
proof -
  let ?s1 = "s\<lparr>cd_next_object := Suc (cd_next_object s)\<rparr>"
  have "cd_next_object s \<notin> fst ` set (cd_descs s)" using assms(1) by (auto simp: refs_exact_def shaped_def)
  moreover have "refs ?s1 = refs s" by (simp add: refs_def fun_eq_iff)
  ultimately show ?thesis
    using assms(2) [of ?s1 "cd_next_object s"] exact_object [OF assms(1)] assms(3) by (simp add: with_new_def)
qed

lemma refs_current: "refs_exact s \<Longrightarrow> id_current (desc_of s w) = Some p \<Longrightarrow> 0 < refs s p"
  by (rule refs_slot [of s w]) (simp_all add: refs_exact_def slot_counts)

lemma current_of: "cd_output_desc s i = desc_of s (Of_output i)" "cd_desc_surface s = desc_of s Of_display"
  by (simp_all add: desc_of_def)

lemma exact_delete:
  assumes "refs_exact s" and "delete_output_image_desc r s = Inr s'"
  shows "refs_exact s'"
proof (cases "map_of (cd_descs s) r")
  case None
  with assms show ?thesis by (simp add: delete_output_image_desc_def)
next
  case (Some p)
  let ?s1 = "s\<lparr>cd_descs := AList.delete r (cd_descs s)\<rparr>"
  have ok: "counted s (refs s)" "shaped s" using assms(1) by (auto simp: refs_exact_def)
  have same: "desc_of ?s1 = desc_of s" "owners ?s1 = owners s"
    by (simp_all add: desc_of_def owners_def fun_eq_iff split: desc_owner.splits)
  have split: "count_list (map snd ds) x = count_list (map snd (AList.delete r ds)) x + (if x = p then 1 else 0)"
    if "distinct (map fst ds)" "map_of ds r = Some p" for ds :: "(nat \<times> nat) list" and x
    using that
  proof (induction ds)
    case (Cons d ds)
    show ?case
    proof (cases "fst d = r")
      case True
      with Cons.prems have "AList.delete r ds = ds" by (auto intro: delete_id)
      with True Cons.prems show ?thesis by auto
    next
      case False
      with Cons show ?thesis by auto
    qed
  qed simp
  have r: "refs s x = refs ?s1 x + (if x = p then 1 else 0)" for x
    using split [of "cd_descs s" x] ok(2) Some by (simp add: refs_def same shaped_def)
  have "counted ?s1 (refs s)" using ok(1) by (simp add: counted_def counted_at_def)
  moreover have "0 < refs s p" using r [of p] by simp
  moreover have "unref_image_description_props (Some p) ?s1 = Inr s'"
    using assms(2) Some by (simp add: delete_output_image_desc_def)
  ultimately have u: "counted s' ((refs s)(p := refs s p - 1))" "desc_of s' = desc_of ?s1" "owners s' = owners ?s1"
    "cd_descs s' = cd_descs ?s1" "shaped s' = shaped ?s1" using counted_unref [of ?s1 "refs s" p s'] by auto
  have "refs s' = refs ?s1" using u(2-4) by (simp add: refs_def fun_eq_iff)
  also have "refs ?s1 = (refs s)(p := refs s p - 1)" using r by (auto simp: fun_eq_iff)
  finally have "counted s' (refs s')" using u(1) by simp
  moreover have "\<forall>x \<in> fst ` set (AList.delete r (cd_descs s)). x < cd_next_object s"
    using ok(2) AList.dom_delete_subset [of r "cd_descs s"] unfolding shaped_def by blast
  then have "shaped ?s1" using ok(2) by (simp add: shaped_def AList.distinct_delete)
  ultimately show ?thesis using u(5) by (simp add: refs_exact_def)
qed

lemma exact_information:
  assumes "refs_exact s" and "get_information w d s = Inr s'"
  shows "refs_exact s'"
proof -
  let ?s1 = "s\<lparr>cd_next_object := Suc (cd_next_object s)\<rparr>"
  let ?f = "\<lambda>st. st\<lparr>id_info_request := Some (cd_next_object s)\<rparr>"
  from assms(2) have pending: "id_pending (desc_of s w) \<noteq> None" and
    s': "s' = effects [Get_information d (cd_next_object s)] (on_desc w ?f ?s1)"
    by (auto simp: get_information_def assert_then_def Let_def split: if_splits option.splits)
  have "w \<in> set (owners s)"
    using pending pending_owner [of s w] assms(1) by (simp add: refs_exact_def)
  then show ?thesis
    using exact_flag [OF exact_object [OF assms(1)], of w ?f] by (simp add: s' slots_def)
qed

lemma exact_setup:
  assumes "refs_exact s" and "i \<notin> set (cd_outputs s)"
  shows "refs_exact (setup_color_management_for_surface_desc i s)"
proof -
  let ?s1 = "s\<lparr>cd_color_output_data := (cd_color_output_data s)(i := Some (Surface_pointer i)), cd_outputs := i # cd_outputs s\<rparr>"
  have zero: "desc_of s (Of_output i) = zero_desc"
    using assms by (auto simp: refs_exact_def shaped_def desc_of_def)
  have same: "desc_of ?s1 = desc_of s" "owners ?s1 = Of_display # Of_output i # map Of_output (cd_outputs s)"
    by (simp_all add: desc_of_def owners_def fun_eq_iff split: desc_owner.splits)
  have "refs ?s1 = refs s"
    by (simp add: refs_def same zero fun_eq_iff owners_def) (simp add: zero_desc_def slots_def)
  with assms have "refs_exact ?s1"
    by (auto simp: refs_exact_def shaped_def counted_def counted_at_def)
  moreover have "id_pending (desc_of ?s1 (Of_output i)) = None" by (simp add: same zero) (simp add: zero_desc_def)
  moreover have "Of_output i \<in> set (owners ?s1)" by (simp add: same)
  ultimately show ?thesis
    by (simp only: setup_color_management_for_surface_desc_def exact_request)
qed

lemma exact_changed:
  assumes "refs_exact s" and "w \<in> set (owners s)" and "description_changed w s = Inr s'"
  shows "refs_exact s'"
  using assms exact_request_new exact_flag [of s w "\<lambda>st. st\<lparr>id_dirty := True\<rparr>"]
  by (auto simp: description_changed_def slots_def split: if_splits)

lemma exact_failed:
  assumes "refs_exact s" and "image_desc_handle_failed w cause msg s = Inr s'"
  shows "refs_exact s'"
proof -
  from assms(2) obtain s1 s2 s3 where s1: "on_pending_props w (\<lambda>q. q\<lparr>ip_failed := True, ip_failure_cause := cause\<rparr>) s = Inr s1"
    and s2: "on_pending_props w (\<lambda>q. q\<lparr>ip_failure_reason := Some msg\<rparr>) s1 = Inr s2"
    and s3: "commit_description w s2 = Inr s3" and s': "s' = announce_description w s3"
    by (auto simp: image_desc_handle_failed_def and_then_Inr assert_then_def split: if_splits)
  from exact_pending_props [OF assms(1) s1] have "refs_exact s1" by simp
  from exact_pending_props [OF this s2] have "refs_exact s2" by simp
  from exact_commit [OF this s3] show ?thesis by (cases w) (simp_all add: s' announce_description_def)
qed

lemma same_effects: "\<exists>es. s = effects es s"
  by (rule exI [of _ "[]"]) (simp add: effects_def)

lemma exact_done:
  assumes "refs_exact s" and "image_desc_info_handle_done v info w s = Inr s'"
  shows "refs_exact s'"
proof -
  from assms(2) obtain s1 where s1: "commit_description w (effects [Destroy_info info] s) = Inr s1"
    and s': "\<exists>es. s' = effects es s1"
    by (cases w) (auto simp: image_desc_info_handle_done_def and_then_Inr announce_description_def announce_preferred_def
        same_effects split: option.splits if_splits)
  from assms(1) have "refs_exact (effects [Destroy_info info] s)" by simp
  from exact_commit [OF this s1] s' show ?thesis by auto
qed

lemma exact_ready:
  assumes "refs_exact s" and "and_then (on_pending_props w g s) (get_information w d) = Inr s'"
    and "\<And>q. ip_reference_count (g q) = ip_reference_count q" and "\<And>q. ip_description (g q) = ip_description q"
  shows "refs_exact s'"
proof -
  from assms(2) obtain s1 where s1: "on_pending_props w g s = Inr s1" "get_information w d s1 = Inr s'"
    by (auto simp: and_then_Inr)
  from exact_pending_props [OF assms(1) s1(1) assms(3,4)] have "refs_exact s1" by simp
  then show ?thesis using s1(2) by (rule exact_information)
qed

lemma record_info_keeps:
  "ip_reference_count (record_info e q) = ip_reference_count q" "ip_description (record_info e q) = ip_description q"
  by (cases e; simp)+

lemma exact_info:
  assumes "refs_exact s" and "image_desc_info_handle w e s = Inr s'"
  shows "refs_exact s'"
proof -
  from assms(2) have "on_pending_props w (record_info e) s = Inr s'"
    by (auto simp: image_desc_info_handle_def assert_then_def split: info_event.splits option.splits if_splits)
  from exact_pending_props [OF assms(1) this record_info_keeps] show ?thesis by simp
qed

lemma feedback_keeps [simp]:
  "desc_of (s\<lparr>cd_color_feedback_resources := x\<rparr>) = desc_of s" "owners (s\<lparr>cd_color_feedback_resources := x\<rparr>) = owners s"
  by (simp_all add: desc_of_def owners_def fun_eq_iff split: desc_owner.splits)

lemma exact_feedback: "refs_exact (s\<lparr>cd_color_feedback_resources := x\<rparr>) = refs_exact s"
  by (simp add: refs_exact_def counted_def counted_at_def shaped_def refs_def)

lemma exact_op:
  assumes "refs_exact s" and "do_color_op v op s = Inr s'"
  shows "refs_exact s'"
proof (cases op)
  case (Setup_output i)
  with assms show ?thesis by (auto simp: assert_then_def exact_setup split: if_splits)
next
  case (Ready w d identity)
  with assms show ?thesis by (auto simp: image_desc_handle_ready_def intro: exact_ready)
next
  case (Ready2 w d hi lo)
  with assms show ?thesis by (auto simp: image_desc_handle_ready2_def intro: exact_ready)
next
  case (Output_changed i)
  with assms show ?thesis
    by (auto simp: color_output_handle_image_desc_changed_def refs_exact_def shaped_def split: option.splits listener_data.splits)
next
  case Preferred_changed
  with assms show ?thesis
    by (auto simp: color_feedback_handle_preferred_changed_def owners_def intro: exact_changed [of s Of_display])
next
  case Preferred_changed2
  with assms show ?thesis
    by (auto simp: color_feedback_handle_preferred_changed2_def owners_def intro: exact_changed [of s Of_display])
next
  case (Get_output_desc version i)
  show ?thesis
    by (rule exact_new_object [OF assms(1) _ assms(2) [unfolded Get_output_desc do_color_op.simps]])
      (auto simp: color_output_get_image_description_def assert_then_def current_of refs_current [OF assms(1)]
        split: if_splits intro: exact_create)
next
  case (Get_preferred version sway)
  show ?thesis
    by (rule exact_new_object [OF assms(1) _ assms(2) [unfolded Get_preferred do_color_op.simps]])
      (auto simp: nested_color_feedback_get_preferred_def assert_then_def current_of refs_current [OF assms(1)]
        split: if_splits option.splits intro: exact_create)
next
  case (Get_preferred_param version sway)
  show ?thesis
    by (rule exact_new_object [OF assms(1) _ assms(2) [unfolded Get_preferred_param do_color_op.simps]])
      (auto simp: nested_color_feedback_get_preferred_parameteric_def assert_then_def current_of Let_def
        refs_current [OF assms(1)] split: if_splits option.splits intro: exact_create)
next
  case (Get_info r info)
  with assms show ?thesis by (auto simp: nested_image_desc_get_information_def split: option.splits)
next
  case Get_feedback
  then show ?thesis using assms exact_object [OF assms(1)]
    by (auto simp: with_new_def nested_color_get_surface_feedback_def exact_feedback)
next
  case (Destroy_feedback r)
  with assms show ?thesis by (auto simp: color_feedback_handle_resource_destroy_def exact_feedback)
qed (use assms in \<open>auto intro: exact_failed exact_info exact_done exact_delete\<close>)

lemma exact_initial: "refs_exact (initial_color_state version)"
proof -
  define s where "s = \<lparr>cd_output_desc = (\<lambda>_. zero_desc), cd_desc_surface = zero_desc, cd_outputs = [],
       cd_color_output_data = (\<lambda>_. None), cd_props = (\<lambda>_. fresh_props), cd_freed = [], cd_next = 0, cd_next_object = 0,
       cd_descs = [], cd_color_output_resources = (\<lambda>_. []), cd_color_feedback_resources = [], cd_version = version,
       cd_trace = []\<rparr>"
  have "refs_exact s"
    by (simp add: s_def refs_exact_def shaped_def counted_def counted_at_def refs_def owners_def desc_of_def)
      (simp add: zero_desc_def slots_def)
  then have "refs_exact (request_description Of_display s)"
    by (rule exact_request) (simp_all add: owners_def desc_of_def s_def zero_desc_def)
  then show ?thesis by (simp add: initial_color_state_def setup_surface_feedback_def s_def)
qed



end
