(* ===== verification/ColorReplay.thy ===== *)
theory ColorReplay
  imports ColorDesc ForwardLife
begin

section \<open>Colour descriptions over time\<close>

text \<open>
  What becomes of the colour descriptions of ColorDesc: a second description of the same output or surface, a
  feedback object that outlives its surface, and the information a client gets compared to the one received.
  Then the requests of clients that make descriptions of their own.
\<close>

subsection \<open>A second description\<close>

text \<open>The pointer to the object that delivers the information is set when a description is ready, and nothing sets it back.\<close>

definition keeps_request :: "color_state \<Rightarrow> color_state \<Rightarrow> bool" where
  "keeps_request s s' \<longleftrightarrow> (\<forall>w. id_info_request (desc_of s w) \<noteq> None \<longrightarrow> id_info_request (desc_of s' w) \<noteq> None)"

lemma keeps_request_same: "desc_of s' = desc_of s \<Longrightarrow> keeps_request s s'"
  by (simp add: keeps_request_def)

lemma keeps_request_trans: "keeps_request s s' \<Longrightarrow> keeps_request s' s'' \<Longrightarrow> keeps_request s s''"
  by (auto simp: keeps_request_def)

lemma keeps_request_desc:
  "(\<And>st. id_info_request st \<noteq> None \<Longrightarrow> id_info_request (f st) \<noteq> None) \<Longrightarrow> keeps_request s (on_desc w f s)"
  by (simp add: keeps_request_def)

lemma unref_desc: "unref_image_description_props q s = Inr s' \<Longrightarrow> desc_of s' = desc_of s"
  by (auto simp: unref_image_description_props_def Let_def split: option.splits if_splits)

lemma keeps_unref: "unref_image_description_props q s = Inr s' \<Longrightarrow> keeps_request s s'"
  by (rule keeps_request_same) (rule unref_desc)

lemma keeps_pending: "on_pending_props w g s = Inr s' \<Longrightarrow> keeps_request s s'"
  by (rule keeps_request_same) (auto simp: on_pending_props_def split: option.splits if_splits)

lemma keeps_request_description: "keeps_request s (request_description w s)"
  by (rule keeps_request_trans [OF keeps_request_same keeps_request_trans [OF keeps_request_desc keeps_request_same]])
    (auto simp: request_description_eq)

lemma keeps_request_new: "request_new_image_desc w s = Inr s' \<Longrightarrow> keeps_request s s'"
  using keeps_request_trans [OF keeps_request_desc [of "\<lambda>st. st\<lparr>id_dirty := False\<rparr>" s w] keeps_request_description]
  by (auto simp: request_new_image_desc_def Let_def assert_then_def split: if_splits)

lemma keeps_commit:
  assumes "commit_description w s = Inr s'"
  shows "keeps_request s s'"
proof -
  let ?f = "\<lambda>st. st\<lparr>id_current := id_pending st, id_pending := None\<rparr>"
  from assms obtain s1 where "unref_image_description_props (id_current (desc_of s w)) s = Inr s1"
    and s': "s' = on_desc w ?f s1 \<or> request_new_image_desc w (on_desc w ?f s1) = Inr s'"
    by (auto simp: commit_description_def Let_def and_then_Inr split: if_splits)
  then have "keeps_request s (on_desc w ?f s1)"
    by (intro keeps_request_trans [OF keeps_unref keeps_request_desc]) simp_all
  with s' show ?thesis by (auto intro: keeps_request_trans keeps_request_new)
qed

lemma keeps_information: "get_information w d s = Inr s' \<Longrightarrow> keeps_request s s'"
  by (auto simp: get_information_def assert_then_def Let_def keeps_request_def split: if_splits option.splits)

lemma keeps_changed: "description_changed w s = Inr s' \<Longrightarrow> keeps_request s s'"
  by (auto simp: description_changed_def split: if_splits intro: keeps_request_new keeps_request_desc)

lemma keeps_create: "create_output_image_desc r version props s = Inr s' \<Longrightarrow> desc_of s' = desc_of s"
proof -
  have "desc_of (s\<lparr>cd_descs := x\<rparr>) = desc_of s" for x
    by (simp add: desc_of_def fun_eq_iff split: desc_owner.splits)
  then show "create_output_image_desc r version props s = Inr s' \<Longrightarrow> desc_of s' = desc_of s"
    by (auto simp: create_output_image_desc_def Let_def assert_then_def split: option.splits if_splits)
qed

lemma keeps_done:
  assumes "image_desc_info_handle_done v info w s = Inr s'"
  shows "keeps_request s s'"
proof -
  from assms obtain s1 where s1: "commit_description w (effects [Destroy_info info] s) = Inr s1"
    and s': "desc_of s' = desc_of s1"
    by (cases w) (auto simp: image_desc_info_handle_done_def and_then_Inr announce_description_def announce_preferred_def
        split: option.splits if_splits)
  from keeps_commit [OF s1] s' show ?thesis by (simp add: keeps_request_def)
qed

lemma keeps_failed:
  assumes "image_desc_handle_failed w cause msg s = Inr s'"
  shows "keeps_request s s'"
proof -
  from assms obtain s1 s2 s3 where s1: "on_pending_props w (\<lambda>q. q\<lparr>ip_failed := True, ip_failure_cause := cause\<rparr>) s = Inr s1"
    and s2: "on_pending_props w (\<lambda>q. q\<lparr>ip_failure_reason := Some msg\<rparr>) s1 = Inr s2"
    and s3: "commit_description w s2 = Inr s3" and s': "s' = announce_description w s3"
    by (auto simp: image_desc_handle_failed_def and_then_Inr assert_then_def split: if_splits)
  have "desc_of s' = desc_of s3" by (cases w) (simp_all add: s' announce_description_def)
  then show ?thesis
    by (intro keeps_request_trans [OF keeps_pending [OF s1] keeps_request_trans [OF keeps_pending [OF s2]
      keeps_request_trans [OF keeps_commit [OF s3] keeps_request_same]]])
qed

lemma keeps_op:
  assumes "do_color_op v op s = Inr s'"
  shows "keeps_request s s'"
proof (cases op)
  case (Setup_output i)
  have "desc_of (s\<lparr>cd_color_output_data := x, cd_outputs := y\<rparr>) = desc_of s" for x y
    by (simp add: desc_of_def fun_eq_iff split: desc_owner.splits)
  with Setup_output assms keeps_request_description show ?thesis
    by (auto simp: assert_then_def setup_color_management_for_surface_desc_def keeps_request_def split: if_splits)
next
  case (Ready w d identity)
  with assms show ?thesis
    by (auto simp: image_desc_handle_ready_def and_then_Inr intro: keeps_request_trans keeps_pending keeps_information)
next
  case (Ready2 w d hi lo)
  with assms show ?thesis
    by (auto simp: image_desc_handle_ready2_def and_then_Inr intro: keeps_request_trans keeps_pending keeps_information)
next
  case (Info w e)
  with assms have "on_pending_props w (record_info e) s = Inr s'"
    by (auto simp: image_desc_info_handle_def assert_then_def split: info_event.splits option.splits if_splits)
  then show ?thesis by (rule keeps_pending)
next
  case (Output_changed i)
  with assms show ?thesis
    by (auto simp: color_output_handle_image_desc_changed_def split: option.splits listener_data.splits intro: keeps_changed)
next
  case (Get_output_desc version i)
  with assms show ?thesis
    by (auto simp: with_new_def color_output_get_image_description_def assert_then_def dest!: keeps_create
        intro: keeps_request_same split: if_splits)
next
  case (Get_preferred version sway)
  with assms show ?thesis
    by (auto simp: with_new_def nested_color_feedback_get_preferred_def assert_then_def dest!: keeps_create
        intro: keeps_request_same split: if_splits option.splits)
next
  case (Get_preferred_param version sway)
  with assms show ?thesis
    by (auto simp: with_new_def nested_color_feedback_get_preferred_parameteric_def assert_then_def Let_def dest!: keeps_create
        intro: keeps_request_same split: if_splits option.splits)
next
  case (Delete_desc r)
  have "desc_of (s\<lparr>cd_descs := x\<rparr>) = desc_of s" for x
    by (simp add: desc_of_def fun_eq_iff split: desc_owner.splits)
  with Delete_desc assms show ?thesis
    by (auto simp: delete_output_image_desc_def keeps_request_def split: option.splits dest!: keeps_unref)
qed (use assms in \<open>auto simp: color_feedback_handle_preferred_changed_def color_feedback_handle_preferred_changed2_def
  nested_image_desc_get_information_def with_new_def nested_color_get_surface_feedback_def color_feedback_handle_resource_destroy_def
  intro: keeps_failed keeps_done keeps_changed keeps_request_same split: option.splits\<close>)

lemma isl_and_then: "isl r \<Longrightarrow> isl (and_then r f)"
  by (cases r) auto


definition described :: "halt + color_state" where
  "described = do_color_ops (\<lambda>_. 1) [Ready Of_display 0 5, Info Of_display (Tf_named 9), Info_done Of_display 1] (initial_color_state 1)"


subsection \<open>A feedback object that outlives its surface\<close>

lemma destroyed_not_alive: "st_halt (wl_resource_destroy p st) = None \<Longrightarrow> \<not> alive (wl_resource_destroy p st) p"
  by (auto simp: wl_resource_destroy_def run.simps remove_resource_def alive_def on_forward_def halt_with_def
      split: option.splits if_splits)



subsection \<open>The information a client gets\<close>

text \<open>The part of a structure that is information about the description.\<close>

definition same_information :: "image_description_properties \<Rightarrow> image_description_properties \<Rightarrow> bool" where
  "same_information q r \<longleftrightarrow>
     ip_icc_profile q = ip_icc_profile r \<and> (ip_icc_profile q \<ge> 0 \<longrightarrow> ip_icc_profile_len q = ip_icc_profile_len r) \<and>
     ip_tf q = ip_tf r \<and> ip_eexp q = ip_eexp r \<and> ip_primaries_named q = ip_primaries_named r \<and>
     ip_primaries q = ip_primaries r \<and> ip_luminances q = ip_luminances r \<and>
     ip_mastering_display_primaries q = ip_mastering_display_primaries r \<and>
     ip_mastering_luminance q = ip_mastering_luminance r \<and> ip_max_cll q = ip_max_cll r \<and> ip_max_fall q = ip_max_fall r"

definition learn :: "info_event list \<Rightarrow> image_description_properties" where
  "learn es = fold record_info es fresh_props"

lemma learn_luminances: "ip_luminances (learn es) = None"
proof -
  have "ip_luminances (fold record_info es q) = ip_luminances q" for q
  proof (induction es arbitrary: q)
    case (Cons e es)
    have "ip_luminances (record_info e q) = ip_luminances q" by (cases e) simp_all
    with Cons show ?case by simp
  qed simp
  then show ?thesis by (simp add: learn_def fresh_props_def)
qed

lemma replay:
  assumes "ip_luminances q = None" and "ip_icc_profile q \<ge> - 1"
  shows "same_information (fold record_info (information_events q) fresh_props) q"
proof -
  have "ip_icc_profile q \<ge> 0 \<or> ip_icc_profile q = - 1" using assms(2) by arith
  then show ?thesis
    using assms(1)
    by (cases "ip_icc_profile q \<ge> 0"; cases "ip_tf q"; cases "ip_eexp q"; cases "ip_primaries_named q"; cases "ip_primaries q";
        cases "ip_mastering_display_primaries q")
      (auto simp: information_events_def same_information_def fresh_props_def split: option.splits)
qed

lemma icc_valid:
  assumes "\<forall>icc n. Icc_file icc n \<in> set es \<longrightarrow> icc \<ge> 0"
  shows "ip_icc_profile (learn es) \<ge> - 1"
proof -
  from assms have ok: "\<forall>e \<in> set es. \<forall>icc n. e = Icc_file icc n \<longrightarrow> icc \<ge> 0" by auto
  have "ip_icc_profile (fold record_info es q) \<ge> - 1" if "ip_icc_profile q \<ge> - 1" for q
    using that ok
  proof (induction es arbitrary: q)
    case (Cons e es)
    then have "ip_icc_profile (record_info e q) \<ge> - 1" by (cases e) auto
    with Cons show ?case by simp
  qed simp
  then show ?thesis by (simp add: learn_def fresh_props_def)
qed

text \<open>The luminances of the primaries are taken for those of the target.\<close>

fun demote :: "info_event \<Rightarrow> info_event" where
  "demote (Luminances min_lum max_lum reference_lum) = Target_luminance min_lum max_lum"
| "demote e = e"



subsection \<open>Descriptions made by clients\<close>

text \<open>The requests on the creator of a parametric description, with the table that dispatches them.\<close>

datatype (plugins only: code) params_request =
    Set_tf_named u32
  | Set_tf_power u32
  | Set_primaries_named u32
  | Set_primaries chromaticities
  | Set_luminances u32 u32 u32
  | Set_mastering_display_primaries chromaticities
  | Set_mastering_luminance u32 u32
  | Set_max_cll u32
  | Set_max_fall u32

definition nested_desc_creator_params_set_max_cll :: "u32 \<Rightarrow> params_request" where
  "nested_desc_creator_params_set_max_cll max_cll = Set_max_cll max_cll"

definition nested_desc_creator_params_set_max_fall :: "u32 \<Rightarrow> params_request" where
  "nested_desc_creator_params_set_max_fall max_fall = Set_max_fall max_fall"

fun nested_desc_creator_params_set :: "params_request \<Rightarrow> params_request" where
  "nested_desc_creator_params_set (Set_tf_named tf) = Set_tf_named tf"
| "nested_desc_creator_params_set (Set_tf_power eexp) = Set_tf_power eexp"
| "nested_desc_creator_params_set (Set_primaries_named primaries) = Set_primaries_named primaries"
| "nested_desc_creator_params_set (Set_primaries xs) = Set_primaries xs"
| "nested_desc_creator_params_set (Set_luminances a b c) = Set_luminances a b c"
| "nested_desc_creator_params_set (Set_mastering_display_primaries xs) = Set_mastering_display_primaries xs"
| "nested_desc_creator_params_set (Set_mastering_luminance a b) = Set_mastering_luminance a b"
| "nested_desc_creator_params_set (Set_max_cll v) = nested_desc_creator_params_set_max_fall v"
| "nested_desc_creator_params_set (Set_max_fall v) = nested_desc_creator_params_set_max_cll v"

text \<open>A creator: its upstream object (\<open>NULL\<close> once it made its description, and then every request on it
  dereferences it) and what was asked of it.\<close>

record desc_creator =
  dc_upstream :: bool
  dc_requests :: "params_request list"

definition creator_request :: "params_request \<Rightarrow> desc_creator \<Rightarrow> halt + desc_creator" where
  "creator_request q c =
     (if dc_upstream c then Inr (c\<lparr>dc_requests := dc_requests c @ [nested_desc_creator_params_set q]\<rparr>) else Inl Undefined)"

definition nested_desc_creator_params_create :: "desc_creator \<Rightarrow> halt + params_request list \<times> desc_creator" where
  "nested_desc_creator_params_create c =
     (if dc_upstream c then Inr (dc_requests c, c\<lparr>dc_upstream := False\<rparr>) else Inl Undefined)"

fun creator_requests :: "params_request list \<Rightarrow> desc_creator \<Rightarrow> halt + desc_creator" where
  "creator_requests [] c = Inr c"
| "creator_requests (q # qs) c = and_then (creator_request q c) (creator_requests qs)"

text \<open>What the compositor is asked for is what the client asked for with the two light levels exchanged.\<close>

lemma light_levels_exchanged:
  "creator_requests qs \<lparr>dc_upstream = True, dc_requests = []\<rparr> =
     Inr \<lparr>dc_upstream = True, dc_requests =
       map (\<lambda>q. case q of Set_max_cll v \<Rightarrow> Set_max_fall v | Set_max_fall v \<Rightarrow> Set_max_cll v | _ \<Rightarrow> q) qs\<rparr>"
proof -
  have one: "nested_desc_creator_params_set q =
      (case q of Set_max_cll v \<Rightarrow> Set_max_fall v | Set_max_fall v \<Rightarrow> Set_max_cll v | _ \<Rightarrow> q)" for q
    by (cases q) (simp_all add: nested_desc_creator_params_set_max_cll_def nested_desc_creator_params_set_max_fall_def)
  have "creator_requests qs \<lparr>dc_upstream = True, dc_requests = rs\<rparr> =
      Inr \<lparr>dc_upstream = True, dc_requests = rs @
        map (\<lambda>q. case q of Set_max_cll v \<Rightarrow> Set_max_fall v | Set_max_fall v \<Rightarrow> Set_max_cll v | _ \<Rightarrow> q) qs\<rparr>" for rs
    by (induction qs arbitrary: rs) (simp_all add: creator_request_def one)
  then show ?thesis by simp
qed

definition desc_creator_params_handle_resource_destroy :: "desc_creator \<Rightarrow> bool" where
  "desc_creator_params_handle_resource_destroy c = dc_upstream c"

text \<open>The creator from a profile: the requests it passes on (the file with its offset and length; the descriptor is closed
  after it was passed on), and the description it makes.\<close>

record icc_creator =
  ic_upstream :: bool
  ic_files :: "(int \<times> u32 \<times> u32) list"
  ic_closed :: "int list"

definition nested_desc_creator_icc_set_icc_file :: "int \<Rightarrow> u32 \<Rightarrow> u32 \<Rightarrow> icc_creator \<Rightarrow> halt + icc_creator" where
  "nested_desc_creator_icc_set_icc_file icc_profile offset len c =
     (if \<not> icc_profile \<ge> 0 then Inl Abort
      else if \<not> ic_upstream c then Inl Undefined
      else Inr (c\<lparr>ic_files := ic_files c @ [(icc_profile, offset, len)], ic_closed := ic_closed c @ [icc_profile]\<rparr>))"

definition nested_desc_creator_icc_create :: "icc_creator \<Rightarrow> halt + (int \<times> u32 \<times> u32) list \<times> icc_creator" where
  "nested_desc_creator_icc_create c =
     (if ic_upstream c then Inr (ic_files c, c\<lparr>ic_upstream := False\<rparr>) else Inl Undefined)"

text \<open>What the compositor says about a description a client made, as long as the client's object is there.\<close>

definition client_desc_handle_failed :: "nat option \<Rightarrow> u32 \<Rightarrow> string \<Rightarrow> color_effect list" where
  "client_desc_handle_failed resource cause msg =
     (case resource of None \<Rightarrow> [] | Some r \<Rightarrow> [Send_failed r cause (Some msg)])"

definition client_desc_handle_ready :: "nat option \<Rightarrow> u32 \<Rightarrow> color_effect list" where
  "client_desc_handle_ready resource identity = (case resource of None \<Rightarrow> [] | Some r \<Rightarrow> [Send_ready r identity])"

definition client_desc_handle_ready2 :: "(nat \<Rightarrow> u32) \<Rightarrow> nat option \<Rightarrow> u32 \<Rightarrow> u32 \<Rightarrow> color_effect list" where
  "client_desc_handle_ready2 resource_version resource identity_hi identity_lo =
     (case resource of
        None \<Rightarrow> []
      | Some r \<Rightarrow>
          if resource_version r \<ge> 2 then [Send_ready2 r identity_hi identity_lo]
          else [Send_ready r (color_identity_v2_to_v1 identity_hi identity_lo)])"

subsection \<open>The view of the outputs\<close>

text \<open>The \<open>output_desc\<close> that Outputs and Locker keep for an output, from its \<open>image_description_state\<close>: there is no
  description before \<open>setup_color_management_for_surface\<close>, one is pending until the first completes or fails,
  and from then on one is current.\<close>

definition output_desc_of :: "color_state \<Rightarrow> nat \<Rightarrow> output_desc" where
  "output_desc_of s i =
     (if i \<notin> set (cd_outputs s) then No_color_output
      else if id_current (cd_output_desc s i) = None then Desc_pending else Desc_current)"

lemma setup_view:
  assumes "refs_exact s" and "i \<notin> set (cd_outputs s)"
  shows "output_desc_of (setup_color_management_for_surface_desc i s) i = Desc_pending"
proof -
  have "cd_output_desc s i = zero_desc" using assms by (simp add: refs_exact_def shaped_def)
  then show ?thesis
    by (simp add: output_desc_of_def setup_color_management_for_surface_desc_def request_description_eq effects_def on_desc_def
        on_props_def zero_desc_def)
qed

lemma commit_view:
  assumes "commit_description (Of_output i) s = Inr s'" and "id_pending (cd_output_desc s i) \<noteq> None"
  shows "id_current (cd_output_desc s' i) = id_pending (cd_output_desc s i)"
proof -
  let ?f = "\<lambda>st. st\<lparr>id_current := id_pending st, id_pending := None\<rparr>"
  from assms(1) obtain s1 where s1: "unref_image_description_props (id_current (desc_of s (Of_output i))) s = Inr s1"
    and s': "s' = on_desc (Of_output i) ?f s1 \<or> request_new_image_desc (Of_output i) (on_desc (Of_output i) ?f s1) = Inr s'"
    by (auto simp: commit_description_def Let_def and_then_Inr split: if_splits)
  have "id_current (desc_of s' (Of_output i)) = id_current (desc_of (on_desc (Of_output i) ?f s1) (Of_output i))"
    using s' by (auto simp: request_new_image_desc_def Let_def assert_then_def request_description_eq desc_of_def on_desc_def
        effects_def on_props_def split: if_splits)
  then show ?thesis using unref_desc [OF s1] by (simp add: current_of)
qed

end
