(* ===== verification/Options.thy ===== *)
theory Options
  imports Types "HOL-Library.Sublist"
begin

section \<open>Options and configuration file (main.c)\<close>

text \<open>
  The command line and the configuration file as \<open>main\<close> reads them, the images they name, and the command that
  draws the background when none is given.  \<open>getopt_long\<close>, \<open>strtol\<close> and \<open>strtoul\<close> are modelled as the C library
  has them (arguments that are not options may stand anywhere, as without \<open>POSIXLY_CORRECT\<close>; a long option may
  be abbreviated; \<open>long\<close> has 64 bits).  What comes from outside is in a record: the expansion of words by the shell
  (\<open>wordexp\<close>), the loading of an image, the conversion of decimal numbers (\<open>strtof\<close>, with the rest of the string), files and
  the environment.  A function that may end the process returns a sum.  Strings are the
  characters before the terminating zero.
\<close>

subsection \<open>Numbers of the C library\<close>

definition isspace :: "char \<Rightarrow> bool" where
  "isspace c \<longleftrightarrow> c \<in> {CHR '' '', CHR 0x09, CHR 0x0A, CHR 0x0B, CHR 0x0C, CHR 0x0D}"

definition digit_value :: "char \<Rightarrow> nat option" where
  "digit_value c =
     (let n = of_char c :: nat in
      if 48 \<le> n \<and> n \<le> 57 then Some (n - 48)
      else if 97 \<le> n \<and> n \<le> 122 then Some (n - 87)
      else if 65 \<le> n \<and> n \<le> 90 then Some (n - 55)
      else None)"

definition is_digit :: "nat \<Rightarrow> char \<Rightarrow> bool" where
  "is_digit base c \<longleftrightarrow> (case digit_value c of None \<Rightarrow> False | Some d \<Rightarrow> d < base)"

fun digits :: "nat \<Rightarrow> nat \<Rightarrow> string \<Rightarrow> nat \<times> string" where
  "digits base acc [] = (acc, [])"
| "digits base acc (c # cs) =
     (if is_digit base c then digits base (acc * base + the (digit_value c)) cs else (acc, c # cs))"

text \<open>White space, a sign, and the prefix \<open>0x\<close> if a hexadecimal digit follows; without a digit nothing is read.\<close>

definition hex_prefix :: "string \<Rightarrow> bool" where
  "hex_prefix cs = (case cs of z # x # d # _ \<Rightarrow> z = CHR ''0'' \<and> (x = CHR ''x'' \<or> x = CHR ''X'') \<and> is_digit 16 d | _ \<Rightarrow> False)"

definition scan_number :: "nat \<Rightarrow> string \<Rightarrow> int \<times> bool \<times> string" where
  "scan_number base str =
     (let cs = dropWhile isspace str;
          negative = (cs \<noteq> [] \<and> hd cs = CHR ''-'');
          ds = (if cs \<noteq> [] \<and> (hd cs = CHR ''-'' \<or> hd cs = CHR ''+'') then tl cs else cs);
          b = (if base = 0 then if hex_prefix ds then 16 else if ds \<noteq> [] \<and> hd ds = CHR ''0'' then 8 else 10 else base);
          body = (if b = 16 \<and> hex_prefix ds then drop 2 ds else ds);
          (n, rest) = digits b 0 body
      in if body = rest then (0, False, str) else (int n, negative, rest))"

definition strtol :: "nat \<Rightarrow> string \<Rightarrow> int \<times> string" where
  "strtol base str =
     (let (n, negative, rest) = scan_number base str
      in (if negative then max (- n) (- (2 ^ 63)) else min n (2 ^ 63 - 1), rest))"

definition strtoul :: "nat \<Rightarrow> string \<Rightarrow> u64" where
  "strtoul base str =
     (let (n, negative, rest) = scan_number base str
      in if n > 2 ^ 64 - 1 then - 1 else if negative then - word_of_int n else word_of_int n)"

definition atoi :: "string \<Rightarrow> int" where
  "atoi str = to_int32 (fst (strtol 10 str))"

subsection \<open>Colours and modes\<close>

definition parse_color :: "string \<Rightarrow> u32" where
  "parse_color str =
     (let color = (if str \<noteq> [] \<and> hd str = CHR ''#'' then tl str else str)
      in if length color \<noteq> 6 \<and> length color \<noteq> 8 then 0xFFFFFFFF
         else
           let res = ucast (strtoul 16 color)
           in if length color = 6 then (push_bit 8 res) OR 0xFF else res)"

definition parse_background_mode :: "string \<Rightarrow> background_mode" where
  "parse_background_mode mode =
     (if mode = ''stretch'' then BACKGROUND_MODE_STRETCH
      else if mode = ''fill'' then BACKGROUND_MODE_FILL
      else if mode = ''fit'' then BACKGROUND_MODE_FIT
      else if mode = ''center'' then BACKGROUND_MODE_CENTER
      else if mode = ''tile'' then BACKGROUND_MODE_TILE
      else if mode = ''solid_color'' then BACKGROUND_MODE_SOLID_COLOR
      else BACKGROUND_MODE_INVALID)"

subsection \<open>The option table and getopt_long\<close>

text \<open>The codes of the options; \<open>O_c\<close> is the character constant \<open>'c'\<close>, \<open>Bad_option\<close> the question mark.\<close>

datatype (plugins only: code size) option_code =
    O_c | O_d | O_e | O_F | O_f | O_h | O_i | O_k | O_K | O_L | O_l | O_n | O_r | O_s | O_t | O_u | O_v | O_C | O_R |
    LO_BS_HL_COLOR | LO_CAPS_LOCK_BS_HL_COLOR | LO_CAPS_LOCK_KEY_HL_COLOR | LO_FONT | LO_FONT_SIZE |
    LO_IND_IDLE_VISIBLE | LO_IND_RADIUS | LO_IND_THICKNESS | LO_IND_X_POSITION | LO_IND_Y_POSITION |
    LO_INSIDE_COLOR | LO_INSIDE_CLEAR_COLOR | LO_INSIDE_CAPS_LOCK_COLOR | LO_INSIDE_VER_COLOR |
    LO_INSIDE_WRONG_COLOR | LO_KEY_HL_COLOR | LO_LAYOUT_BG_COLOR | LO_LAYOUT_BORDER_COLOR | LO_LAYOUT_TXT_COLOR |
    LO_LINE_COLOR | LO_LINE_CLEAR_COLOR | LO_LINE_CAPS_LOCK_COLOR | LO_LINE_VER_COLOR | LO_LINE_WRONG_COLOR |
    LO_RING_COLOR | LO_RING_CLEAR_COLOR | LO_RING_CAPS_LOCK_COLOR | LO_RING_VER_COLOR | LO_RING_WRONG_COLOR |
    LO_SEP_COLOR | LO_TEXT_COLOR | LO_TEXT_CLEAR_COLOR | LO_TEXT_CAPS_LOCK_COLOR | LO_TEXT_VER_COLOR |
    LO_TEXT_WRONG_COLOR | LO_PLUGIN_GRACE | LO_PLUGIN_PAUSE_WHEN_HIDDEN | LO_PLUGIN_PAUSE_DELAY |
    LO_PLUGIN_POINTER_HYSTERESIS | LO_PLUGIN_COMMAND | LO_PLUGIN_COMMAND_EACH | Bad_option

definition long_options :: "(string \<times> bool \<times> option_code) list" where
  "long_options = [
     (''config'', True, O_C), (''color'', True, O_c), (''debug'', False, O_d),
     (''ignore-empty-password'', False, O_e), (''daemonize'', False, O_f), (''ready-fd'', True, O_R),
     (''help'', False, O_h), (''image'', True, O_i), (''disable-caps-lock-text'', False, O_L),
     (''indicator-caps-lock'', False, O_l), (''line-uses-inside'', False, O_n), (''line-uses-ring'', False, O_r),
     (''scaling'', True, O_s), (''tiling'', False, O_t), (''no-unlock-indicator'', False, O_u),
     (''show-keyboard-layout'', False, O_k), (''hide-keyboard-layout'', False, O_K),
     (''show-failed-attempts'', False, O_F), (''version'', False, O_v), (''bs-hl-color'', True, LO_BS_HL_COLOR),
     (''caps-lock-bs-hl-color'', True, LO_CAPS_LOCK_BS_HL_COLOR),
     (''caps-lock-key-hl-color'', True, LO_CAPS_LOCK_KEY_HL_COLOR), (''font'', True, LO_FONT),
     (''font-size'', True, LO_FONT_SIZE), (''indicator-idle-visible'', False, LO_IND_IDLE_VISIBLE),
     (''indicator-radius'', True, LO_IND_RADIUS), (''indicator-thickness'', True, LO_IND_THICKNESS),
     (''indicator-x-position'', True, LO_IND_X_POSITION), (''indicator-y-position'', True, LO_IND_Y_POSITION),
     (''inside-color'', True, LO_INSIDE_COLOR), (''inside-clear-color'', True, LO_INSIDE_CLEAR_COLOR),
     (''inside-caps-lock-color'', True, LO_INSIDE_CAPS_LOCK_COLOR),
     (''inside-ver-color'', True, LO_INSIDE_VER_COLOR), (''inside-wrong-color'', True, LO_INSIDE_WRONG_COLOR),
     (''key-hl-color'', True, LO_KEY_HL_COLOR), (''layout-bg-color'', True, LO_LAYOUT_BG_COLOR),
     (''layout-border-color'', True, LO_LAYOUT_BORDER_COLOR), (''layout-text-color'', True, LO_LAYOUT_TXT_COLOR),
     (''line-color'', True, LO_LINE_COLOR), (''line-clear-color'', True, LO_LINE_CLEAR_COLOR),
     (''line-caps-lock-color'', True, LO_LINE_CAPS_LOCK_COLOR), (''line-ver-color'', True, LO_LINE_VER_COLOR),
     (''line-wrong-color'', True, LO_LINE_WRONG_COLOR), (''ring-color'', True, LO_RING_COLOR),
     (''ring-clear-color'', True, LO_RING_CLEAR_COLOR), (''ring-caps-lock-color'', True, LO_RING_CAPS_LOCK_COLOR),
     (''ring-ver-color'', True, LO_RING_VER_COLOR), (''ring-wrong-color'', True, LO_RING_WRONG_COLOR),
     (''separator-color'', True, LO_SEP_COLOR), (''text-color'', True, LO_TEXT_COLOR),
     (''text-clear-color'', True, LO_TEXT_CLEAR_COLOR), (''text-caps-lock-color'', True, LO_TEXT_CAPS_LOCK_COLOR),
     (''text-ver-color'', True, LO_TEXT_VER_COLOR), (''text-wrong-color'', True, LO_TEXT_WRONG_COLOR),
     (''grace'', True, LO_PLUGIN_GRACE), (''pause-when-hidden'', False, LO_PLUGIN_PAUSE_WHEN_HIDDEN),
     (''pause-when-hidden-delay'', True, LO_PLUGIN_PAUSE_DELAY),
     (''pointer-hysteresis'', True, LO_PLUGIN_POINTER_HYSTERESIS), (''command'', True, LO_PLUGIN_COMMAND),
     (''command-each'', True, LO_PLUGIN_COMMAND_EACH)]"

definition short_options :: "(char \<times> bool \<times> option_code) list" where
  "short_options = [
     (CHR ''c'', True, O_c), (CHR ''d'', False, O_d), (CHR ''e'', False, O_e), (CHR ''F'', False, O_F),
     (CHR ''f'', False, O_f), (CHR ''h'', False, O_h), (CHR ''i'', True, O_i), (CHR ''k'', False, O_k),
     (CHR ''K'', False, O_K), (CHR ''L'', False, O_L), (CHR ''l'', False, O_l), (CHR ''n'', False, O_n),
     (CHR ''r'', False, O_r), (CHR ''s'', True, O_s), (CHR ''t'', False, O_t), (CHR ''u'', False, O_u),
     (CHR ''v'', False, O_v), (CHR ''C'', True, O_C), (CHR ''R'', True, O_R)]"

text \<open>An exact name wins; an abbreviation must be the beginning of one name only.\<close>

definition find_long :: "(string \<times> bool \<times> option_code) list \<Rightarrow> string \<Rightarrow> (bool \<times> option_code) option" where
  "find_long table name =
     (case map_of table name of
        Some r \<Rightarrow> Some r
      | None \<Rightarrow> (case filter (\<lambda>(n, _). prefix name n) table of [(_, r)] \<Rightarrow> Some r | _ \<Rightarrow> None))"

text \<open>All options of a command line in order, each with its argument.  The first argument is what is left
  of a cluster of short options.\<close>

function getopt_long ::
  "(char \<times> bool \<times> option_code) list \<Rightarrow> (string \<times> bool \<times> option_code) list \<Rightarrow> string \<Rightarrow> string list \<Rightarrow> (option_code \<times> string) list"
where
  "getopt_long short long (c # cs) args =
     (case map_of short c of
        None \<Rightarrow> (Bad_option, []) # getopt_long short long cs args
      | Some (True, code) \<Rightarrow>
          if cs \<noteq> [] then (code, cs) # getopt_long short long [] args
          else (case args of [] \<Rightarrow> [(Bad_option, [])] | v # args \<Rightarrow> (code, v) # getopt_long short long [] args)
      | Some (False, code) \<Rightarrow> (code, []) # getopt_long short long cs args)"
| "getopt_long short long [] [] = []"
| "getopt_long short long [] (a # args) =
     (if a = ''--'' then []
      else if prefix ''--'' a then
        let body = drop 2 a; name = takeWhile (\<lambda>c. c \<noteq> CHR ''='') body; val = drop (length name) body
        in (case find_long long name of
              None \<Rightarrow> (Bad_option, []) # getopt_long short long [] args
            | Some (True, code) \<Rightarrow>
                if val \<noteq> [] then (code, tl val) # getopt_long short long [] args
                else (case args of [] \<Rightarrow> [(Bad_option, [])] | v # args \<Rightarrow> (code, v) # getopt_long short long [] args)
            | Some (False, code) \<Rightarrow>
                (if val \<noteq> [] then (Bad_option, []) else (code, [])) # getopt_long short long [] args)
      else if prefix ''-'' a \<and> a \<noteq> ''-'' then getopt_long short long (tl a) args
      else getopt_long short long [] args)"
  by pat_completeness auto

termination
  by (relation "measure (\<lambda>(_, _, cs, args). length cs + sum_list (map (\<lambda>a. Suc (length a)) args))")
    (auto split: list.splits simp: prefix_def)

subsection \<open>Images\<close>

record outside =
  ou_wordexp :: "string \<Rightarrow> string list option"
  ou_load_image :: "string \<Rightarrow> bool option"
  ou_strtof :: "string \<Rightarrow> rat \<times> string"
  ou_file :: "string \<Rightarrow> string list option"
  ou_getenv :: "string \<Rightarrow> string option"
  ou_sysconfdir :: string

definition option_then :: "halt + 'a \<Rightarrow> ('a \<Rightarrow> halt + 'b) \<Rightarrow> halt + 'b" where
  "option_then r f = (case r of Inl h \<Rightarrow> Inl h | Inr x \<Rightarrow> f x)"

lemma option_then_simps [simp]: "option_then (Inl h) f = Inl h" "option_then (Inr x) f = f x"
  by (simp_all add: option_then_def)

definition join_args :: "string list \<Rightarrow> halt + string" where
  "join_args argv = (if argv = [] then Inl Abort else Inr (butlast (concat (map (\<lambda>a. a @ '' '') argv))))"

text \<open>The loop that puts a backslash between two spaces until there are none.\<close>

fun escape_first :: "string \<Rightarrow> string option" where
  "escape_first (c # d # cs) =
     (if c = CHR '' '' \<and> d = CHR '' '' then Some (c # CHR 0x5C # d # cs) else map_option (Cons c) (escape_first (d # cs)))"
| "escape_first _ = None"

partial_function (option) escape_spaces :: "string \<Rightarrow> string option" where
  "escape_spaces path = (case escape_first path of None \<Rightarrow> Some path | Some p \<Rightarrow> escape_spaces p)"

definition remove_image :: "string option \<Rightarrow> swaylock_image list \<Rightarrow> swaylock_image list" where
  "remove_image name images =
     takeWhile (\<lambda>i. im_output_name i \<noteq> name) images @ drop 1 (dropWhile (\<lambda>i. im_output_name i \<noteq> name) images)"

definition load_image :: "outside \<Rightarrow> string \<Rightarrow> swaylock_image list \<Rightarrow> halt + swaylock_image list" where
  "load_image w arg images =
     (let (name, path) =
        (if CHR '':'' \<in> set arg then
           let n = takeWhile (\<lambda>c. c \<noteq> CHR '':'') arg
           in (if n = [] then None else Some n, drop (length n + 1) arg)
         else (None, arg));
        others = remove_image name images
      in case escape_spaces path of
           None \<Rightarrow> Inl Hang
         | Some escaped \<Rightarrow>
             option_then (case ou_wordexp w escaped of None \<Rightarrow> Inr escaped | Some ws \<Rightarrow> join_args ws) (\<lambda>full.
               case ou_load_image w full of
                 None \<Rightarrow> Inr others
               | Some opaque \<Rightarrow> Inr (\<lparr>im_path = full, im_output_name = name, im_opaque = opaque\<rparr> # others)))"

subsection \<open>One option\<close>

datatype (plugins only: code size) line_mode = LM_LINE | LM_INSIDE | LM_RING

record settings =
  se_args :: swaylock_args
  se_images :: "swaylock_image list"
  se_line_mode :: line_mode
  se_config_path :: "string option"
  se_debug :: bool

text \<open>Which of the pointers \<open>parse_options\<close> got are \<open>NULL\<close>.\<close>

record targets =
  to_state :: bool
  to_line_mode :: bool
  to_config_path :: bool

text \<open>The options that set a colour.\<close>

fun color_option :: "option_code \<Rightarrow> (u32 \<Rightarrow> swaylock_colors \<Rightarrow> swaylock_colors) option" where
  "color_option O_c = Some (\<lambda>v cl. cl\<lparr>c_background := v\<rparr>)"
| "color_option LO_BS_HL_COLOR = Some (\<lambda>v cl. cl\<lparr>c_bs_highlight := v\<rparr>)"
| "color_option LO_CAPS_LOCK_BS_HL_COLOR = Some (\<lambda>v cl. cl\<lparr>c_caps_lock_bs_highlight := v\<rparr>)"
| "color_option LO_CAPS_LOCK_KEY_HL_COLOR = Some (\<lambda>v cl. cl\<lparr>c_caps_lock_key_highlight := v\<rparr>)"
| "color_option LO_INSIDE_COLOR = Some (\<lambda>v cl. cl\<lparr>c_inside := (c_inside cl)\<lparr>cs_input := v\<rparr>\<rparr>)"
| "color_option LO_INSIDE_CLEAR_COLOR = Some (\<lambda>v cl. cl\<lparr>c_inside := (c_inside cl)\<lparr>cs_cleared := v\<rparr>\<rparr>)"
| "color_option LO_INSIDE_CAPS_LOCK_COLOR = Some (\<lambda>v cl. cl\<lparr>c_inside := (c_inside cl)\<lparr>cs_caps_lock := v\<rparr>\<rparr>)"
| "color_option LO_INSIDE_VER_COLOR = Some (\<lambda>v cl. cl\<lparr>c_inside := (c_inside cl)\<lparr>cs_verifying := v\<rparr>\<rparr>)"
| "color_option LO_INSIDE_WRONG_COLOR = Some (\<lambda>v cl. cl\<lparr>c_inside := (c_inside cl)\<lparr>cs_wrong := v\<rparr>\<rparr>)"
| "color_option LO_KEY_HL_COLOR = Some (\<lambda>v cl. cl\<lparr>c_key_highlight := v\<rparr>)"
| "color_option LO_LAYOUT_BG_COLOR = Some (\<lambda>v cl. cl\<lparr>c_layout_background := v\<rparr>)"
| "color_option LO_LAYOUT_BORDER_COLOR = Some (\<lambda>v cl. cl\<lparr>c_layout_border := v\<rparr>)"
| "color_option LO_LAYOUT_TXT_COLOR = Some (\<lambda>v cl. cl\<lparr>c_layout_text := v\<rparr>)"
| "color_option LO_LINE_COLOR = Some (\<lambda>v cl. cl\<lparr>c_line := (c_line cl)\<lparr>cs_input := v\<rparr>\<rparr>)"
| "color_option LO_LINE_CLEAR_COLOR = Some (\<lambda>v cl. cl\<lparr>c_line := (c_line cl)\<lparr>cs_cleared := v\<rparr>\<rparr>)"
| "color_option LO_LINE_CAPS_LOCK_COLOR = Some (\<lambda>v cl. cl\<lparr>c_line := (c_line cl)\<lparr>cs_caps_lock := v\<rparr>\<rparr>)"
| "color_option LO_LINE_VER_COLOR = Some (\<lambda>v cl. cl\<lparr>c_line := (c_line cl)\<lparr>cs_verifying := v\<rparr>\<rparr>)"
| "color_option LO_LINE_WRONG_COLOR = Some (\<lambda>v cl. cl\<lparr>c_line := (c_line cl)\<lparr>cs_wrong := v\<rparr>\<rparr>)"
| "color_option LO_RING_COLOR = Some (\<lambda>v cl. cl\<lparr>c_ring := (c_ring cl)\<lparr>cs_input := v\<rparr>\<rparr>)"
| "color_option LO_RING_CLEAR_COLOR = Some (\<lambda>v cl. cl\<lparr>c_ring := (c_ring cl)\<lparr>cs_cleared := v\<rparr>\<rparr>)"
| "color_option LO_RING_CAPS_LOCK_COLOR = Some (\<lambda>v cl. cl\<lparr>c_ring := (c_ring cl)\<lparr>cs_caps_lock := v\<rparr>\<rparr>)"
| "color_option LO_RING_VER_COLOR = Some (\<lambda>v cl. cl\<lparr>c_ring := (c_ring cl)\<lparr>cs_verifying := v\<rparr>\<rparr>)"
| "color_option LO_RING_WRONG_COLOR = Some (\<lambda>v cl. cl\<lparr>c_ring := (c_ring cl)\<lparr>cs_wrong := v\<rparr>\<rparr>)"
| "color_option LO_SEP_COLOR = Some (\<lambda>v cl. cl\<lparr>c_separator := v\<rparr>)"
| "color_option LO_TEXT_COLOR = Some (\<lambda>v cl. cl\<lparr>c_text := (c_text cl)\<lparr>cs_input := v\<rparr>\<rparr>)"
| "color_option LO_TEXT_CLEAR_COLOR = Some (\<lambda>v cl. cl\<lparr>c_text := (c_text cl)\<lparr>cs_cleared := v\<rparr>\<rparr>)"
| "color_option LO_TEXT_CAPS_LOCK_COLOR = Some (\<lambda>v cl. cl\<lparr>c_text := (c_text cl)\<lparr>cs_caps_lock := v\<rparr>\<rparr>)"
| "color_option LO_TEXT_VER_COLOR = Some (\<lambda>v cl. cl\<lparr>c_text := (c_text cl)\<lparr>cs_verifying := v\<rparr>\<rparr>)"
| "color_option LO_TEXT_WRONG_COLOR = Some (\<lambda>v cl. cl\<lparr>c_text := (c_text cl)\<lparr>cs_wrong := v\<rparr>\<rparr>)"
| "color_option _ = None"

definition on_args :: "(swaylock_args \<Rightarrow> swaylock_args) \<Rightarrow> settings \<Rightarrow> settings" where
  "on_args f s = s\<lparr>se_args := f (se_args s)\<rparr>"

definition grace_unit :: "string \<Rightarrow> rat option" where
  "grace_unit e =
     (if e = [] \<or> e = ''s'' \<or> e = ''sec'' then Some 1
      else if e = ''m'' \<or> e = ''min'' then Some 60
      else if e = ''h'' \<or> e = ''hr'' then Some 3600
      else None)"

text \<open>The cases that change the settings of \<open>state\<close>, but the colours.\<close>

fun args_option :: "outside \<Rightarrow> option_code \<Rightarrow> string \<Rightarrow> swaylock_args \<Rightarrow> swaylock_args" where
  "args_option w O_e optarg a = a\<lparr>a_ignore_empty := True\<rparr>"
| "args_option w O_F optarg a = a\<lparr>a_show_failed_attempts := True\<rparr>"
| "args_option w O_f optarg a = a\<lparr>a_daemonize := True\<rparr>"
| "args_option w O_R optarg a = a\<lparr>a_ready_fd := to_int32 (fst (strtol 10 optarg))\<rparr>"
| "args_option w O_k optarg a = a\<lparr>a_show_keyboard_layout := True\<rparr>"
| "args_option w O_K optarg a = a\<lparr>a_hide_keyboard_layout := True\<rparr>"
| "args_option w O_L optarg a = a\<lparr>a_show_caps_lock_text := False\<rparr>"
| "args_option w O_l optarg a = a\<lparr>a_show_caps_lock_indicator := True\<rparr>"
| "args_option w O_s optarg a = a\<lparr>a_mode := parse_background_mode optarg\<rparr>"
| "args_option w O_t optarg a = a\<lparr>a_mode := BACKGROUND_MODE_TILE\<rparr>"
| "args_option w O_u optarg a = a\<lparr>a_show_indicator := False\<rparr>"
| "args_option w LO_FONT optarg a = a\<lparr>a_font := optarg\<rparr>"
| "args_option w LO_FONT_SIZE optarg a = a\<lparr>a_font_size := word_of_int (atoi optarg)\<rparr>"
| "args_option w LO_IND_IDLE_VISIBLE optarg a = a\<lparr>a_indicator_idle_visible := True\<rparr>"
| "args_option w LO_IND_RADIUS optarg a = a\<lparr>a_radius := word_of_int (fst (strtol 0 optarg))\<rparr>"
| "args_option w LO_IND_THICKNESS optarg a = a\<lparr>a_thickness := word_of_int (fst (strtol 0 optarg))\<rparr>"
| "args_option w LO_IND_X_POSITION optarg a =
     a\<lparr>a_override_indicator_x_position := True, a_indicator_x_position := word_of_int (atoi optarg)\<rparr>"
| "args_option w LO_IND_Y_POSITION optarg a =
     a\<lparr>a_override_indicator_y_position := True, a_indicator_y_position := word_of_int (atoi optarg)\<rparr>"
| "args_option w LO_PLUGIN_GRACE optarg a =
     (let (value, e) = ou_strtof w optarg
      in case grace_unit e of None \<Rightarrow> a | Some unit \<Rightarrow> a\<lparr>a_grace_time := value * unit\<rparr>)"
| "args_option w LO_PLUGIN_POINTER_HYSTERESIS optarg a =
     (let (value, e) = ou_strtof w optarg in if e = [] then a\<lparr>a_grace_pointer_hysteresis := value\<rparr> else a)"
| "args_option w LO_PLUGIN_PAUSE_WHEN_HIDDEN optarg a = a\<lparr>a_pause_when_hidden := True\<rparr>"
| "args_option w LO_PLUGIN_PAUSE_DELAY optarg a =
     (let (value, e) = strtol 10 optarg
      in if e = [] \<and> value > 0 \<and> value \<le> 3600000 then a\<lparr>a_hidden_timeout_ms := value\<rparr> else a)"
| "args_option w LO_PLUGIN_COMMAND optarg a = a\<lparr>a_plugin_command := Some optarg, a_plugin_per_output := False\<rparr>"
| "args_option w LO_PLUGIN_COMMAND_EACH optarg a = a\<lparr>a_plugin_command := Some optarg, a_plugin_per_output := True\<rparr>"
| "args_option w _ optarg a = a"

text \<open>The result says whether \<open>parse_options\<close> goes on (\<open>None\<close>) or returns a status.\<close>

definition parse_option ::
  "outside \<Rightarrow> targets \<Rightarrow> option_code \<Rightarrow> string \<Rightarrow> settings \<Rightarrow> halt + int option \<times> settings" where
  "parse_option w t c optarg s =
     (if c = Bad_option \<or> c = O_h then Inr (Some 1, s)
      else if c = O_v then Inl (Exit 0)
      else if c = O_d then Inr (None, s\<lparr>se_debug := True\<rparr>)
      else if c = O_C then Inr (None, if to_config_path t then s\<lparr>se_config_path := Some optarg\<rparr> else s)
      else if c = O_n then Inr (None, if to_line_mode t then s\<lparr>se_line_mode := LM_INSIDE\<rparr> else s)
      else if c = O_r then Inr (None, if to_line_mode t then s\<lparr>se_line_mode := LM_RING\<rparr> else s)
      else if \<not> to_state t then Inr (None, s)
      else if c = O_i then
        option_then (load_image w optarg (se_images s)) (\<lambda>images. Inr (None, s\<lparr>se_images := images\<rparr>))
      else (case color_option c of
              Some set_color \<Rightarrow>
                Inr (None, on_args (\<lambda>a. a\<lparr>a_colors := set_color (parse_color optarg) (a_colors a)\<rparr>) s)
            | None \<Rightarrow>
                let s1 = on_args (args_option w c optarg) s
                in Inr (if c = O_s \<and> a_mode (se_args s1) = BACKGROUND_MODE_INVALID then Some 1 else None, s1)))"

fun parse_codes ::
  "outside \<Rightarrow> targets \<Rightarrow> (option_code \<times> string) list \<Rightarrow> settings \<Rightarrow> halt + int \<times> settings" where
  "parse_codes w t [] s = Inr (0, s)"
| "parse_codes w t ((c, optarg) # cs) s =
     option_then (parse_option w t c optarg s) (\<lambda>(status, s1).
       case status of Some r \<Rightarrow> Inr (r, s1) | None \<Rightarrow> parse_codes w t cs s1)"

text \<open>\<open>args\<close> is the command line without the name of the program.\<close>

definition parse_options :: "outside \<Rightarrow> targets \<Rightarrow> string list \<Rightarrow> settings \<Rightarrow> halt + int \<times> settings" where
  "parse_options w t args = parse_codes w t (getopt_long short_options long_options [] args)"

subsection \<open>The configuration file\<close>

definition file_exists :: "outside \<Rightarrow> string \<Rightarrow> bool" where
  "file_exists w path \<longleftrightarrow> ou_file w path \<noteq> None"

definition config_paths :: "outside \<Rightarrow> string list" where
  "config_paths w =
     [''$HOME/.swaylock/config'',
      (case ou_getenv w ''XDG_CONFIG_HOME'' of
         Some (_ # _) \<Rightarrow> ''$XDG_CONFIG_HOME/swaylock/config''
       | _ \<Rightarrow> ''$HOME/.config/swaylock/config''),
      ou_sysconfdir w @ ''/swaylock/config'']"

fun first_config :: "outside \<Rightarrow> string list \<Rightarrow> halt + string option" where
  "first_config w [] = Inr None"
| "first_config w (p # ps) =
     (case ou_wordexp w p of
        None \<Rightarrow> first_config w ps
      | Some [] \<Rightarrow> Inl Undefined
      | Some (path # _) \<Rightarrow> if file_exists w path then Inr (Some path) else first_config w ps)"

definition get_config_path :: "outside \<Rightarrow> halt + string option" where
  "get_config_path w = first_config w (config_paths w)"

text \<open>A file is the list of its lines without the newlines.  The loop ends at the first line that is refused.\<close>

fun config_lines :: "outside \<Rightarrow> string list \<Rightarrow> settings \<Rightarrow> halt + settings" where
  "config_lines w [] s = Inr s"
| "config_lines w (line # lines) s =
     (if line = [] \<or> hd line = CHR ''#'' then config_lines w lines s
      else option_then (parse_options w \<lparr>to_state = True, to_line_mode = True, to_config_path = False\<rparr> [''--'' @ line] s)
             (\<lambda>(result, s1). if result \<noteq> 0 then Inr s1 else config_lines w lines s1))"

definition load_config :: "outside \<Rightarrow> string \<Rightarrow> settings \<Rightarrow> halt + int \<times> settings" where
  "load_config w path s =
     (case ou_file w path of
        None \<Rightarrow> Inr (0, s)
      | Some lines \<Rightarrow> option_then (config_lines w lines s) (\<lambda>s1. Inr (0, s1)))"

subsection \<open>The start of main\<close>

definition default_settings :: settings where
  "default_settings =
     \<lparr>se_args = default_args, se_images = [], se_line_mode = LM_LINE, se_config_path = None, se_debug = False\<rparr>"

definition apply_line_mode :: "settings \<Rightarrow> settings" where
  "apply_line_mode s =
     (case se_line_mode s of
        LM_LINE \<Rightarrow> s
      | LM_INSIDE \<Rightarrow> on_args (\<lambda>a. a\<lparr>a_colors := (a_colors a)\<lparr>c_line := c_inside (a_colors a)\<rparr>\<rparr>) s
      | LM_RING \<Rightarrow> on_args (\<lambda>a. a\<lparr>a_colors := (a_colors a)\<lparr>c_line := c_ring (a_colors a)\<rparr>\<rparr>) s)"

text \<open>The result is the settings, or the status \<open>main\<close> returns.\<close>

definition configure :: "outside \<Rightarrow> string list \<Rightarrow> halt + int \<times> settings" where
  "configure w args =
     option_then (parse_options w \<lparr>to_state = False, to_line_mode = False, to_config_path = True\<rparr> args default_settings)
       (\<lambda>(result, s). if result \<noteq> 0 then Inr (result, s) else
         option_then (case se_config_path s of Some p \<Rightarrow> Inr (Some p) | None \<Rightarrow> get_config_path w) (\<lambda>path.
         option_then (case path of None \<Rightarrow> Inr (0, s) | Some p \<Rightarrow> load_config w p s) (\<lambda>(status, s1).
           if status \<noteq> 0 then Inr (status, s1) else
           option_then (if args = [] then Inr (0, s1)
                        else parse_options w \<lparr>to_state = True, to_line_mode = True, to_config_path = False\<rparr> args s1)
             (\<lambda>(result, s2). if result \<noteq> 0 then Inr (result, s2) else Inr (0, apply_line_mode s2)))))"

subsection \<open>The default command\<close>

text \<open>\<open>command\<close> has 2048 bytes; \<open>sprintf\<close> writes the text and a terminating zero at an offset into it.\<close>

fun hex_digits :: "nat \<Rightarrow> nat \<Rightarrow> string" where
  "hex_digits 0 n = []"
| "hex_digits (Suc k) n =
     hex_digits k (n div 16) @ [char_of (if n mod 16 < 10 then 48 + n mod 16 else 87 + n mod 16)]"

definition print_at :: "string \<Rightarrow> string \<Rightarrow> halt + string" where
  "print_at command str = (if length command + length str + 1 > 2048 then Inl Undefined else Inr (command @ str))"

definition mode_name :: "background_mode \<Rightarrow> string" where
  "mode_name m =
     (case m of
        BACKGROUND_MODE_STRETCH \<Rightarrow> ''stretch''
      | BACKGROUND_MODE_FILL \<Rightarrow> ''fill''
      | BACKGROUND_MODE_FIT \<Rightarrow> ''fit''
      | BACKGROUND_MODE_CENTER \<Rightarrow> ''center''
      | BACKGROUND_MODE_TILE \<Rightarrow> ''tile''
      | _ \<Rightarrow> ''solid_color'')"

definition image_option :: "background_mode \<Rightarrow> swaylock_image \<Rightarrow> string" where
  "image_option mode i =
     '' -o '' @ [CHR 0x27] @ (case im_output_name i of None \<Rightarrow> ''*'' | Some n \<Rightarrow> n) @ [CHR 0x27] @
     '' -i '' @ [CHR 0x27] @ im_path i @ [CHR 0x27] @ '' -m '' @ mode_name mode"

fun print_images :: "background_mode \<Rightarrow> swaylock_image list \<Rightarrow> string \<Rightarrow> halt + string" where
  "print_images mode [] command = Inr command"
| "print_images mode (i # is) command = option_then (print_at command (image_option mode i)) (print_images mode is)"

definition color_option_text :: "u32 \<Rightarrow> string" where
  "color_option_text background = ''swaybg -c '' @ [CHR 0x27, CHR ''#''] @ hex_digits 6 (unat (drop_bit 8 background)) @ [CHR 0x27]"

definition default_command :: "settings \<Rightarrow> halt + string" where
  "default_command s =
     option_then (print_at [] (color_option_text (c_background (a_colors (se_args s)))))
       (print_images (a_mode (se_args s)) (se_images s))"

definition set_command :: "settings \<Rightarrow> halt + settings" where
  "set_command s =
     (case a_plugin_command (se_args s) of
        Some _ \<Rightarrow> Inr s
      | None \<Rightarrow> option_then (default_command s) (\<lambda>command. Inr (on_args (\<lambda>a. a\<lparr>a_plugin_command := Some command\<rparr>) s)))"

subsection \<open>Colours are read back\<close>

definition hex_char :: "nat \<Rightarrow> char" where
  "hex_char d = char_of (if d < 10 then 48 + d else 87 + d)"

lemma hex_char_cases:
  assumes "d < 16"
  shows "digit_value (hex_char d) = Some d \<and> \<not> isspace (hex_char d) \<and>
    hex_char d \<notin> {CHR ''-'', CHR ''+'', CHR ''x'', CHR ''X'', CHR ''#''}"
proof -
  have n: "of_char (hex_char d) = (if d < 10 then 48 + d else 87 + d)"
    using assms by (simp add: hex_char_def)
  then have "hex_char d \<noteq> c" 
    if "of_char c < (48 :: nat) \<or> (57 :: nat) < of_char c \<and> of_char c < (97 :: nat) \<or> of_char c > (102 :: nat)" for c
    using assms that by (auto split: if_splits)
  then have "\<not> isspace (hex_char d)" "hex_char d \<notin> {CHR ''-'', CHR ''+'', CHR ''x'', CHR ''X'', CHR ''#''}"
    by (simp_all add: isspace_def)
  moreover have "digit_value (hex_char d) = Some d" using assms n by (simp add: digit_value_def)
  ultimately show ?thesis by blast
qed

lemma hex_digits_Suc: "hex_digits (Suc k) n = hex_digits k (n div 16) @ [hex_char (n mod 16)]"
  by (simp add: hex_char_def)

declare hex_digits.simps(2) [simp del]

lemma length_hex_digits [simp]: "length (hex_digits k n) = k"
  by (induction k arbitrary: n) (simp_all add: hex_digits_Suc)

lemma hex_digits_chars: "c \<in> set (hex_digits k n) \<Longrightarrow> \<exists>d < 16. c = hex_char d"
proof (induction k arbitrary: n)
  case (Suc k)
  have "n mod 16 < 16" by simp
  with Suc.prems Suc.IH show ?case unfolding hex_digits_Suc by (metis UnE empty_iff empty_set list.set(2) insertE set_append)
qed simp

lemma digits_append:
  assumes "\<forall>c \<in> set cs. is_digit base c"
  shows "digits base acc (cs @ rest) = digits base (fold (\<lambda>c a. a * base + the (digit_value c)) cs acc) rest"
  using assms by (induction cs arbitrary: acc) simp_all

lemma hex_value: "fold (\<lambda>c a. a * 16 + the (digit_value c)) (hex_digits k n) 0 = n mod 16 ^ k"
proof (induction k arbitrary: n)
  case (Suc k)
  have "n mod 16 ^ Suc k = 16 * (n div 16 mod 16 ^ k) + n mod 16"
    by (simp add: mod_mult2_eq)
  then show ?case
    using Suc hex_char_cases [of "n mod 16"] by (simp add: hex_digits_Suc mult.commute)
qed simp

lemma scan_hex:
  assumes "0 < k"
  shows "scan_number 16 (hex_digits k n) = (int (n mod 16 ^ k), False, [])"
proof -
  let ?s = "hex_digits k n"
  have all: "\<exists>d < 16. c = hex_char d" if "c \<in> set ?s" for c using hex_digits_chars [OF that] .
  have dig: "\<forall>c \<in> set ?s. is_digit 16 c" using all hex_char_cases by (fastforce simp: is_digit_def)
  have ne: "?s \<noteq> []" using assms by (metis length_0_conv length_hex_digits less_not_refl)
  then have hd: "hd ?s \<in> set ?s" by simp
  have sign: "hd ?s \<noteq> CHR ''-'' \<and> hd ?s \<noteq> CHR ''+'' \<and> \<not> isspace (hd ?s)"
    using all [OF hd] hex_char_cases by (metis insertCI)
  have space: "dropWhile isspace ?s = ?s" using ne sign by (cases ?s) auto
  have "\<not> hex_prefix ?s"
  proof
    assume "hex_prefix ?s"
    then obtain x where "x \<in> set ?s" "x = CHR ''x'' \<or> x = CHR ''X''"
      by (auto simp: hex_prefix_def split: list.splits)
    with all hex_char_cases show False by (metis insertCI)
  qed
  moreover have "digits 16 0 ?s = (n mod 16 ^ k, [])"
    using digits_append [OF dig, of 0 "[]"] by (simp add: hex_value)
  ultimately show ?thesis using ne sign space by (simp add: scan_number_def Let_def)
qed

lemma strtoul_hex:
  assumes "0 < k" and "n < 16 ^ k" and "k \<le> 16"
  shows "strtoul 16 (hex_digits k n) = word_of_nat n"
proof -
  have "(16 :: nat) ^ k \<le> 16 ^ 16" using assms(3) by (rule power_increasing) simp
  with assms(2) have "n < 16 ^ 16" by (rule less_le_trans)
  then have "int n \<le> 2 ^ 64 - 1" by simp
  with assms show ?thesis by (simp add: strtoul_def scan_hex)
qed

lemma no_hash: "0 < k \<Longrightarrow> hd (hex_digits k n) \<noteq> CHR ''#''"
proof -
  assume "0 < k"
  then have "hex_digits k n \<noteq> []" by (metis length_0_conv length_hex_digits less_not_refl)
  then have "hd (hex_digits k n) \<in> set (hex_digits k n)" by simp
  from hex_digits_chars [OF this] show ?thesis using hex_char_cases by (metis insertCI)
qed

text \<open>C34. Colours are read as they are written: eight hexadecimal digits give the colour itself, six give it with full
  opacity, with or without the number sign in front.\<close>

theorem parse_color_roundtrip:
  "parse_color (hex_digits 8 (unat c)) = c \<and> parse_color (CHR ''#'' # hex_digits 8 (unat c)) = c \<and>
   parse_color (hex_digits 6 (unat (drop_bit 8 c))) = c OR 0xFF \<and>
   parse_color (CHR ''#'' # hex_digits 6 (unat (drop_bit 8 c))) = c OR 0xFF"
proof -
  have c: "unat c < 16 ^ 8" using unsigned_less [of c] by simp
  have d: "unat (drop_bit 8 c) < 16 ^ 6"
    using c by (simp add: drop_bit_eq_div unat_div)
  have full: "ucast (strtoul 16 (hex_digits 8 (unat c))) = c"
    using c by (simp add: strtoul_hex) (simp add: ucast_up_ucast_id is_up)
  have part: "push_bit 8 (ucast (strtoul 16 (hex_digits 6 (unat (drop_bit 8 c))))) OR 0xFF = c OR 0xFF"
  proof -
    have m: "(0xFF :: u32) = mask 8" by (simp add: mask_eq_exp_minus_1)
    have "push_bit 8 (drop_bit 8 c) OR mask 8 = c OR mask 8"
      by (rule bit_word_eqI) (auto simp: bit_simps)
    then show ?thesis
      unfolding m using d by (simp add: strtoul_hex) (simp add: ucast_up_ucast_id is_up)
  qed
  show ?thesis
    using no_hash [of 8 "unat c"] no_hash [of 6 "unat (drop_bit 8 c)"]
    by (simp add: parse_color_def full part Let_def)
qed

subsection \<open>The buffer of the default command\<close>


subsection \<open>Refused lines\<close>

lemma config_lines_append:
  assumes "parse_options w \<lparr>to_state = True, to_line_mode = True, to_config_path = False\<rparr> [''--'' @ bad] =
      (\<lambda>s. Inr (1, s))"
    and "bad \<noteq> []" and "hd bad \<noteq> CHR ''#''"
  shows "config_lines w (lines @ bad # rest) s = config_lines w lines s"
proof (induction lines arbitrary: s)
  case Nil
  show ?case using assms by simp
next
  case (Cons line lines)
  then show ?case by (auto simp: option_then_def split: sum.splits prod.splits)
qed

definition option_name :: "string \<Rightarrow> string" where
  "option_name line = takeWhile (\<lambda>c. c \<noteq> CHR ''='') line"

text \<open>C37. A mistake in the configuration file hides the rest of it: a line with a name that is not the beginning of
  exactly one option ends the reading, so every line after it has no effect, and still the program
  goes on and locks with the settings before it (the status is 0 for every file).\<close>

theorem refused_line_hides_rest:
  assumes "find_long long_options (option_name bad) = None" and "bad \<noteq> []" and "hd bad \<noteq> CHR ''#''"
    and "ou_file w path = Some (lines @ bad # rest)" and "load_config w path s = Inr (status, s')"
  shows "status = 0 \<and> config_lines w lines s = Inr s'"
proof -
  have "getopt_long short_options long_options [] [''--'' @ bad] = [(Bad_option, [])]"
    using assms(1,2) by (simp add: option_name_def Let_def)
  then have "parse_options w \<lparr>to_state = True, to_line_mode = True, to_config_path = False\<rparr> [''--'' @ bad] = (\<lambda>s. Inr (1, s))"
    by (simp add: parse_options_def parse_option_def fun_eq_iff)
  from config_lines_append [OF this assms(2,3), of lines rest s] assms(4,5) show ?thesis
    by (auto simp: load_config_def option_then_def split: sum.splits)
qed

definition no_outside :: outside where
  "no_outside = \<lparr>ou_wordexp = (\<lambda>p. Some [p]), ou_load_image = (\<lambda>_. Some True), ou_strtof = (\<lambda>s. (0, s)),
     ou_file = (\<lambda>p. if p = ''config'' then Some [''colour=ff0000'', ''ignore-empty-password''] else None),
     ou_getenv = (\<lambda>_. None), ou_sysconfdir = ''/etc''\<rparr>"

lemma refused_line_hides_rest_witness:
  "load_config no_outside ''config'' default_settings = Inr (0, default_settings) \<and>
     config_lines no_outside [] default_settings = Inr default_settings"
proof -
  have unknown: "find_long long_options (option_name ''colour=ff0000'') = None" by code_simp
  obtain status s' where l: "load_config no_outside ''config'' default_settings = Inr (status, s')"
  proof -
    have "\<not> isl (load_config no_outside ''config'' default_settings)" by code_simp
    then show thesis using that by (cases "load_config no_outside ''config'' default_settings") auto
  qed
  have "ou_file no_outside ''config'' = Some ([] @ ''colour=ff0000'' # [''ignore-empty-password''])"
    by (simp add: no_outside_def)
  from refused_line_hides_rest [OF unknown _ _ this l] have "status = 0" "config_lines no_outside [] default_settings = Inr s'"
    by simp_all
  with l show ?thesis by simp
qed

subsection \<open>Paths of images\<close>

fun escape :: "string \<Rightarrow> string" where
  "escape (c # d # cs) =
     (if c = CHR '' '' \<and> d = CHR '' '' then c # CHR 0x5C # escape (d # cs) else c # escape (d # cs))"
| "escape cs = cs"

fun double_spaces :: "string \<Rightarrow> nat" where
  "double_spaces (c # d # cs) = (if c = CHR '' '' \<and> d = CHR '' '' then 1 else 0) + double_spaces (d # cs)"
| "double_spaces cs = 0"

lemma escape_first_None: "escape_first path = None \<Longrightarrow> escape path = path"
  by (induction path rule: escape_first.induct) (auto split: if_splits)

lemma escape_first_Some:
  "escape_first path = Some p \<Longrightarrow> escape p = escape path \<and> double_spaces p < double_spaces path \<and> hd p = hd path \<and> p \<noteq> []"
proof (induction path arbitrary: p rule: escape_first.induct)
  case (1 c d cs)
  show ?case
  proof (cases "c = CHR '' '' \<and> d = CHR '' ''")
    case True
    with 1(2) show ?thesis by auto
  next
    case False
    with 1(2) obtain q where q: "escape_first (d # cs) = Some q" "p = c # q" by auto
    from 1(1) [OF False q(1)] have "escape q = escape (d # cs)" "double_spaces q < double_spaces (d # cs)" "hd q = d" "q \<noteq> []"
      by auto
    with False q(2) show ?thesis by (cases q) auto
  qed
qed simp_all

text \<open>The loop over a path ends, and puts a backslash between every two spaces.\<close>

lemma escape_spaces_ends: "escape_spaces path = Some (escape path)"
proof (induction "double_spaces path" arbitrary: path rule: less_induct)
  case less
  show ?case
  proof (cases "escape_first path")
    case None
    then show ?thesis by (simp add: escape_spaces.simps [of path] escape_first_None)
  next
    case (Some p)
    from escape_first_Some [OF this] less have "escape_spaces p = Some (escape path)" by simp
    with Some show ?thesis by (simp add: escape_spaces.simps [of path])
  qed
qed

text \<open>An image whose path expands to nothing aborts the program.\<close>

lemma empty_image_aborts: "ou_wordexp w [] = Some [] \<Longrightarrow> load_image w [] images = Inl Abort"
  by (simp add: load_image_def escape_spaces_ends join_args_def)

end
