(* ===== verification/Watcher.thy ===== *)
theory Watcher
  imports Options
begin

section \<open>The suspension watcher (sleep-watcher.c) and the log (log.c)\<close>

text \<open>
  The helper program that holds an inhibitor lock during the grace period, so that the locker learns of a suspension
  in time.  What the D-Bus library answers is in the inputs: the outcome of each call, the messages that
  arrive, and what reading a pipe returns.  \<open>userdata\<close> is the pointer the library hands to
  the handler of the signal, \<open>None\<close> for \<open>NULL\<close>.
\<close>

subsection \<open>The log\<close>

datatype (plugins only: code size) log_importance = LOG_SILENT | LOG_ERROR | LOG_INFO | LOG_DEBUG | LOG_IMPORTANCE_LAST

fun importance :: "log_importance \<Rightarrow> nat" where
  "importance LOG_SILENT = 0"
| "importance LOG_ERROR = 1"
| "importance LOG_INFO = 2"
| "importance LOG_DEBUG = 3"
| "importance LOG_IMPORTANCE_LAST = 4"

instantiation log_importance :: linorder
begin
definition less_eq_log_importance :: "log_importance \<Rightarrow> log_importance \<Rightarrow> bool" where
  "x \<le> y \<longleftrightarrow> importance x \<le> importance y"
definition less_log_importance :: "log_importance \<Rightarrow> log_importance \<Rightarrow> bool" where
  "x < y \<longleftrightarrow> importance x < importance y"
instance
proof
  fix x y :: log_importance
  assume "x \<le> y" and "y \<le> x"
  then show "x = y" by (cases x; cases y) (simp_all add: less_eq_log_importance_def)
qed (auto simp: less_eq_log_importance_def less_log_importance_def)
end

definition swaylock_log_init :: "log_importance \<Rightarrow> log_importance \<Rightarrow> log_importance" where
  "swaylock_log_init verbosity current =
     (if verbosity < LOG_IMPORTANCE_LAST then verbosity else current)"

definition verbosity_colors :: "string list" where
  "verbosity_colors = ['''', CHR 0x1B # ''[1;31m'', CHR 0x1B # ''[1;34m'', CHR 0x1B # ''[1;90m'']"

text \<open>What is written for one message; \<open>stamp\<close> is the formatted time, \<open>message\<close> the formatted text.\<close>

definition swaylock_log :: "log_importance \<Rightarrow> string \<Rightarrow> bool \<Rightarrow> log_importance \<Rightarrow> string \<Rightarrow> string" where
  "swaylock_log current stamp tty verbosity message =
     (if verbosity > current then []
      else stamp @
        (if tty then verbosity_colors ! (if verbosity < LOG_IMPORTANCE_LAST then importance verbosity else importance LOG_IMPORTANCE_LAST - 1) else []) @
        message @ (if tty then CHR 0x1B # ''[0m'' else []) @ [CHR 0x0A])"

definition swaylock_strip_path :: "string \<Rightarrow> string" where
  "swaylock_strip_path filepath =
     (if filepath \<noteq> [] \<and> hd filepath = CHR ''.'' then dropWhile (\<lambda>c. c = CHR ''.'' \<or> c = CHR ''/'') filepath
      else filepath)"

text \<open>\<open>log_init\<close> looks for one option in the whole command line; everything else is skipped.\<close>

definition log_init :: "string list \<Rightarrow> log_importance \<Rightarrow> log_importance" where
  "log_init args current =
     (if \<exists>p \<in> set (getopt_long [(CHR ''d'', False, O_d)] [(''debug'', False, O_d)] [] args). fst p = O_d
      then swaylock_log_init LOG_DEBUG current else swaylock_log_init LOG_ERROR current)"

text \<open>The argument of another option can switch the debug log on when it is attached and has a \<open>d\<close> before anything
  that is read as an argument.\<close>

lemma attached_argument_enables_debug: "log_init [''-cdd0000''] LOG_ERROR = LOG_DEBUG"
  by code_simp

subsection \<open>The inhibitor lock\<close>

record watcher =
  wa_session_name :: "string option"
  wa_sleep_lock_fd :: int
  wa_comm_r :: int
  wa_comm_w :: int
  wa_closed :: "int list"

text \<open>What taking the lock meets: whether the call succeeds, the descriptor in the answer (if it can be read), and the
  answer of duplicating it.\<close>

record lock_answers =
  la_called :: bool
  la_fd :: "int option"
  la_dup :: int

definition acquire_inhibitor_lock :: "lock_answers \<Rightarrow> watcher \<Rightarrow> watcher" where
  "acquire_inhibitor_lock a s =
     (if \<not> la_called a then s
      else case la_fd a of None \<Rightarrow> s | Some _ \<Rightarrow> s\<lparr>wa_sleep_lock_fd := la_dup a\<rparr>)"

definition release_inhibitor_lock :: "watcher \<Rightarrow> watcher" where
  "release_inhibitor_lock s =
     (let s1 = (if wa_sleep_lock_fd s \<ge> 0 then s\<lparr>wa_closed := wa_closed s @ [wa_sleep_lock_fd s]\<rparr> else s)
      in s1\<lparr>wa_sleep_lock_fd := - 1\<rparr>)"

text \<open>The handler of the signal: the flag of the message (\<open>None\<close> when it cannot be read, then the system is taken to go
  down).  The read from the pipe blocks until the locker closes its end; what it returns is only logged.\<close>

definition prepare_for_sleep :: "lock_answers \<Rightarrow> int option \<Rightarrow> watcher option \<Rightarrow> halt + watcher" where
  "prepare_for_sleep a flag userdata =
     (let going_down = (case flag of None \<Rightarrow> 1 | Some b \<Rightarrow> b) in
      case userdata of
        None \<Rightarrow> Inl Undefined
      | Some s \<Rightarrow>
          if going_down = 0 then Inr (acquire_inhibitor_lock a s)
          else if wa_comm_w s = - 1 then Inl Abort
          else Inr (release_inhibitor_lock (s\<lparr>wa_closed := wa_closed s @ [wa_comm_w s], wa_comm_w := - 1\<rparr>)))"

text \<open>Two ways to ask for the session; each answer is a name or nothing.\<close>

definition set_session :: "bool \<Rightarrow> bool \<Rightarrow> string option \<Rightarrow> watcher \<Rightarrow> watcher" where
  "set_session by_name by_pid name s =
     (if \<not> by_name \<and> \<not> by_pid then s
      else case name of None \<Rightarrow> s | Some n \<Rightarrow> s\<lparr>wa_session_name := Some n\<rparr>)"

subsection \<open>The loop\<close>

datatype (plugins only: code size) bus_message = Prepare_for_sleep "int option" lock_answers | Other_message | Bus_error

text \<open>One return of \<open>poll\<close>: interrupted, failed, or with the pipe or the bus ready (and the next message of the bus).\<close>

datatype (plugins only: code size) watch_input = Interrupted | Poll_failed | Polled bool "bus_message option"

datatype (plugins only: code size) watch_result = Watching watcher | Ended int watcher | Crashed halt

text \<open>The handler is registered with \<open>NULL\<close> as its user data.\<close>

definition signal_userdata :: "watcher \<Rightarrow> watcher option" where
  "signal_userdata s = None"

definition watch_step :: "watch_input \<Rightarrow> watcher \<Rightarrow> watch_result" where
  "watch_step inp s =
     (case inp of
        Interrupted \<Rightarrow> Watching s
      | Poll_failed \<Rightarrow> Ended 0 s
      | Polled comm bus \<Rightarrow>
          if comm then Ended 0 s
          else (case bus of
                  None \<Rightarrow> Watching s
                | Some Other_message \<Rightarrow> Watching s
                | Some Bus_error \<Rightarrow> Ended 0 s
                | Some (Prepare_for_sleep flag a) \<Rightarrow>
                    (case prepare_for_sleep a flag (signal_userdata s) of Inl h \<Rightarrow> Crashed h | Inr s1 \<Rightarrow> Watching s1)))"

fun watch :: "watch_input list \<Rightarrow> watcher \<Rightarrow> watch_result" where
  "watch [] s = Watching s"
| "watch (i # is) s = (case watch_step i s of Watching s1 \<Rightarrow> watch is s1 | r \<Rightarrow> r)"

text \<open>\<open>run\<close>: connecting to the bus, the session, registering for the signal, the lock, then the loop.\<close>

record run_answers =
  ra_bus :: bool
  ra_session_by_name :: bool
  ra_session_by_pid :: bool
  ra_session :: "string option"
  ra_match :: bool
  ra_lock :: lock_answers

definition watcher_run :: "run_answers \<Rightarrow> watch_input list \<Rightarrow> int \<Rightarrow> int \<Rightarrow> watch_result" where
  "watcher_run a inputs comm_r comm_w =
     (let s = \<lparr>wa_session_name = None, wa_sleep_lock_fd = - 1, wa_comm_r = comm_r, wa_comm_w = comm_w, wa_closed = []\<rparr>
      in if \<not> ra_bus a then Ended 1 s
         else
           let s1 = set_session (ra_session_by_name a) (ra_session_by_pid a) (ra_session a) s
           in if \<not> ra_match a then Ended 1 s1
              else watch inputs (acquire_inhibitor_lock (ra_lock a) s1))"

text \<open>\<open>main\<close>: two numbers on the command line, the end to close and the end to wait on.\<close>

definition watcher_main :: "run_answers \<Rightarrow> watch_input list \<Rightarrow> string list \<Rightarrow> watch_result option" where
  "watcher_main a inputs args =
     (case args of
        [w, r] \<Rightarrow>
          let (comm_w, end1) = strtol 10 w; (comm_r, end2) = strtol 10 r
          in if end1 \<noteq> [] \<or> end2 \<noteq> [] then None
             else Some (watcher_run a inputs (to_int32 comm_r) (to_int32 comm_w))
      | _ \<Rightarrow> None)"

subsection \<open>The first suspension\<close>

lemma watching_same: "watch is s = Watching s' \<Longrightarrow> s' = s"
proof (induction "is" arbitrary: s)
  case (Cons i "is")
  have "watch_step i s = Watching s1 \<Longrightarrow> s1 = s" for s1
    by (auto simp: watch_step_def signal_userdata_def prepare_for_sleep_def
        split: watch_input.splits if_splits option.splits bus_message.splits)
  with Cons show ?case by (auto split: watch_result.splits)
qed simp

lemma watch_append: "watch (is @ js) s = (case watch is s of Watching s1 \<Rightarrow> watch js s1 | r \<Rightarrow> r)"
  by (induction "is" arbitrary: s) (auto split: watch_result.splits)

text \<open>C20. The watcher crashes at the first suspension: as long as nothing else ended it, the announcement of a suspension
  (or of its end) makes it use a null pointer, because the handler is registered without its state; it
  never closes its pipe itself, never waits for the locker, and never releases or renews its lock.\<close>

theorem suspension_crashes_watcher:
  assumes "watch before s = Watching s'"
  shows "watch (before @ Polled False (Some (Prepare_for_sleep flag a)) # after) s = Crashed Undefined \<and> s' = s"
  using assms watching_same [OF assms]
  by (simp add: watch_append watch_step_def signal_userdata_def prepare_for_sleep_def)

lemma suspension_crashes_watcher_witness:
  "watcher_run \<lparr>ra_bus = True, ra_session_by_name = True, ra_session_by_pid = True, ra_session = Some ''/1'', ra_match = True,
       ra_lock = \<lparr>la_called = True, la_fd = Some 5, la_dup = 6\<rparr>\<rparr>
     ([Interrupted, Polled False (Some Other_message)] @ Polled False (Some (Prepare_for_sleep (Some 1) \<lparr>la_called = True, la_fd = Some 7, la_dup = 8\<rparr>)) # []) 3 4 =
   Crashed Undefined"
proof -
  have "watch [Interrupted, Polled False (Some Other_message)] s = Watching s" for s by (simp add: watch_step_def)
  from suspension_crashes_watcher [OF this] show ?thesis by (simp add: watcher_run_def Let_def)
qed

text \<open>The handler itself, given its state, does what it is for: it closes its end of the pipe, and only then
  the lock, both at most once.\<close>

lemma prepare_with_state:
  assumes "wa_comm_w s \<noteq> - 1" and "0 \<le> wa_sleep_lock_fd s" and "flag \<noteq> Some 0"
  shows "\<exists>s'. prepare_for_sleep a flag (Some s) = Inr s' \<and> wa_closed s' = wa_closed s @ [wa_comm_w s, wa_sleep_lock_fd s] \<and>
    wa_comm_w s' = - 1 \<and> wa_sleep_lock_fd s' = - 1"
  using assms by (auto simp: prepare_for_sleep_def release_inhibitor_lock_def Let_def split: option.split)

end
