(* ===== verification/BackgroundImage.thy ===== *)
theory BackgroundImage
  imports Types
begin

section \<open>Images (cairo.c, background-image.c)\<close>

text \<open>
  The conversion of a decoded image to cairo's pixel format, and where an image is drawn on a buffer.  Pixels are bytes,
  rows lists of them, in the order of a little-endian machine; the products of the conversion are computed in
  \<open>guint\<close>, 32 bits.  Scales and positions are rationals where the code has \<open>double\<close>.
\<close>

subsection \<open>Pixels\<close>

definition premul_alpha :: "byte \<Rightarrow> byte \<Rightarrow> byte" where
  "premul_alpha a b = (let z = ucast a * ucast b + (0x80 :: u32) in ucast (drop_bit 8 (z + drop_bit 8 z)))"

fun convert_rgb :: "byte list \<Rightarrow> byte list" where
  "convert_rgb (r # g # b # gp) = b # g # r # 0 # convert_rgb gp"
| "convert_rgb _ = []"

fun convert_rgba :: "byte list \<Rightarrow> byte list" where
  "convert_rgba (r # g # b # a # gp) = premul_alpha b a # premul_alpha g a # premul_alpha r a # a # convert_rgba gp"
| "convert_rgba _ = []"

text \<open>The loop over the rows: \<open>w\<close> pixels at the beginning of each \<open>stride\<close> bytes of the source go to the beginning of each
  \<open>cstride\<close> bytes of the target (whose unused bytes are zero, as cairo creates it).\<close>

fun convert_rows :: "nat \<Rightarrow> nat \<Rightarrow> nat \<Rightarrow> nat \<Rightarrow> nat \<Rightarrow> byte list \<Rightarrow> byte list" where
  "convert_rows chan w stride cstride 0 gdkpix = []"
| "convert_rows chan w stride cstride (Suc h) gdkpix =
     (let row = (if chan = 3 then convert_rgb (take (3 * w) gdkpix) else convert_rgba (take (4 * w) gdkpix))
      in row @ replicate (cstride - length row) 0 @ convert_rows chan w stride cstride h (drop stride gdkpix))"

text \<open>\<open>pixels\<close> is what gdk-pixbuf returns, \<open>created\<close> whether cairo could create the surface.\<close>

definition gdk_cairo_image_surface_create_from_pixbuf ::
  "nat \<Rightarrow> byte list option \<Rightarrow> nat \<Rightarrow> nat \<Rightarrow> nat \<Rightarrow> bool \<Rightarrow> nat \<Rightarrow> byte list option" where
  "gdk_cairo_image_surface_create_from_pixbuf chan pixels w h stride created cstride =
     (if chan < 3 then None
      else case pixels of
             None \<Rightarrow> None
           | Some gdkpix \<Rightarrow> if created then Some (convert_rows chan w stride cstride h gdkpix) else None)"

datatype (plugins only: code size) subpixel_order = ORDER_DEFAULT | ORDER_RGB | ORDER_BGR | ORDER_VRGB | ORDER_VBGR

text \<open>The values of \<open>enum wl_output_subpixel\<close>: horizontal RGB is 2, horizontal BGR 3, vertical RGB 4, vertical BGR 5.\<close>

definition to_cairo_subpixel_order :: "int \<Rightarrow> subpixel_order" where
  "to_cairo_subpixel_order subpixel =
     (if subpixel = 2 then ORDER_RGB else if subpixel = 3 then ORDER_BGR else if subpixel = 4 then ORDER_VRGB
      else if subpixel = 5 then ORDER_VBGR else ORDER_DEFAULT)"

definition cairo_set_source_u32 :: "u32 \<Rightarrow> rat \<times> rat \<times> rat \<times> rat" where
  "cairo_set_source_u32 color =
     (of_nat (unat (drop_bit 24 color AND 0xFF)) / 255, of_nat (unat (drop_bit 16 color AND 0xFF)) / 255,
      of_nat (unat (drop_bit 8 color AND 0xFF)) / 255, of_nat (unat (color AND 0xFF)) / 255)"

text \<open>The product of two bytes, taken as fractions of 255, rounded to the nearest byte.\<close>

lemma round_255:
  fixes n :: nat
  assumes "n \<le> 255 * 255"
  shows "(n + 128 + (n + 128) div 256) div 256 = (n + 127) div 255"
proof -
  define q where "q = (n + 127) div 255"
  define r where "r = (n + 127) mod 255"
  have n: "n + 127 = 255 * q + r" and r: "r < 255" by (simp_all add: q_def r_def)
  have q: "q \<le> 255" using assms n by linarith
  show ?thesis
  proof (cases "q \<le> r + 1")
    case True
    have "256 * q \<le> n + 128" "n + 128 < 256 * q + 256" "256 * q \<le> n + 128 + q" "n + 128 + q < 256 * q + 256"
      using n r True by linarith+
    then have "(n + 128) div 256 = q" "(n + 128 + q) div 256 = q" by (auto intro!: div_nat_eqI)
    then show ?thesis by (simp add: q_def)
  next
    case False
    have "256 * (q - 1) \<le> n + 128" "n + 128 < 256 * (q - 1) + 256" "256 * q \<le> n + 128 + (q - 1)"
      "n + 128 + (q - 1) < 256 * q + 256"
      using n r q False by linarith+
    then have "(n + 128) div 256 = q - 1" "(n + 128 + (q - 1)) div 256 = q" by (auto intro!: div_nat_eqI)
    then show ?thesis by (simp add: q_def)
  qed
qed

lemma premul_alpha_value: "unat (premul_alpha a b) = (unat a * unat b + 127) div 255"
proof -
  let ?n = "unat a * unat b"
  have bytes: "unat a \<le> 255" "unat b \<le> 255"
    using unsigned_less [of a, where 'a = nat] unsigned_less [of b, where 'a = nat] by simp_all
  from bytes have le: "?n \<le> 255 * 255" by (rule mult_le_mono)
  have id: "take_bit 32 (unat a) = unat a" "take_bit 32 (unat b) = unat b"
    using bytes by (simp_all add: take_bit_nat_eq_self_iff)
  have z: "unat (ucast a * ucast b + 0x80 :: u32) = ?n + 128"
    using le by (simp add: unat_word_ariths unsigned_ucast_eq id)
  have d: "(?n + 128) div 256 \<le> 255" using le by simp
  have "unat (drop_bit 8 ((ucast a * ucast b + 0x80) + drop_bit 8 (ucast a * ucast b + 0x80)) :: u32) =
      (?n + 128 + (?n + 128) div 256) div 256"
    using le d by (simp add: unat_drop_bit_eq drop_bit_eq_div unat_add_lem [THEN iffD1] z unat_div)
  also have "\<dots> = (?n + 127) div 255" using le by (rule round_255)
  finally show ?thesis
    using le by (simp add: premul_alpha_def Let_def unsigned_ucast_eq take_bit_nat_eq_self_iff div_less_iff_less_mult)
qed

text \<open>A row is converted pixel by pixel: the bytes come in cairo's order, the colours premultiplied and rounded.\<close>

lemma length_convert_rgb [simp]: "length (convert_rgb gp) = 4 * (length gp div 3)"
  by (induction gp rule: convert_rgb.induct) simp_all

lemma length_convert_rgba [simp]: "length (convert_rgba gp) = 4 * (length gp div 4)"
  by (induction gp rule: convert_rgba.induct) simp_all

lemma convert_rgba_pixel:
  assumes "4 * x + 3 < length gp"
  shows "convert_rgba gp ! (4 * x + 3) = gp ! (4 * x + 3) \<and>
    (\<forall>k < 3. convert_rgba gp ! (4 * x + k) = premul_alpha (gp ! (4 * x + (2 - k))) (gp ! (4 * x + 3)))"
  using assms
proof (induction gp arbitrary: x rule: convert_rgba.induct)
  case (1 r g b a gp)
  show ?case
  proof (cases x)
    case 0
    then show ?thesis by (simp add: numeral_3_eq_3 All_less_Suc2 numeral_2_eq_2)
  next
    case (Suc y)
    with "1.IH" [of y] "1.prems" show ?thesis by (auto simp: numeral_eq_Suc)
  qed
qed simp_all

lemma length_convert_rows:
  assumes "chan = 3 \<or> chan = 4" and "4 * w \<le> cstride" and "chan * w \<le> stride" and "h * stride \<le> length gdkpix + (stride - chan * w)"
  shows "length (convert_rows chan w stride cstride h gdkpix) = h * cstride"
  using assms(4)
proof (induction h arbitrary: gdkpix)
  case (Suc h)
  have "chan * w \<le> length gdkpix" "h * stride \<le> length (drop stride gdkpix) + (stride - chan * w)" using assms(3) Suc.prems by auto
  then show ?case using Suc assms(1,2) by (auto simp: Let_def)
qed simp

lemma rows_converted:
  assumes "4 * w \<le> cstride" and "4 * w \<le> stride" and "h * stride \<le> length gdkpix + (stride - 4 * w)" and "y < h" and "x < w" and "k < 3"
  shows "let out = convert_rows 4 w stride cstride h gdkpix; src = y * stride + 4 * x; dst = y * cstride + 4 * x in
    length out = h * cstride \<and> out ! (dst + 3) = gdkpix ! (src + 3) \<and>
    unat (out ! (dst + k)) = (unat (gdkpix ! (src + (2 - k))) * unat (gdkpix ! (src + 3)) + 127) div 255"
  using assms(3,4)
proof (induction h arbitrary: y gdkpix)
  case (Suc h)
  let ?row = "convert_rgba (take (4 * w) gdkpix)"
  have long: "4 * w \<le> length gdkpix" using assms(2) Suc.prems by simp
  then have row: "length ?row = 4 * w" by simp
  have all: "length (convert_rows 4 w stride cstride (Suc h) gdkpix) = Suc h * cstride"
    using assms(1,2) Suc.prems by (intro length_convert_rows) auto
  show ?case
  proof (cases y)
    case 0
    have "4 * x + 3 < length (take (4 * w) gdkpix)" using assms(5) long by simp
    from convert_rgba_pixel [OF this] assms(5,6) long row all 0 show ?thesis
      by (simp add: Let_def nth_append premul_alpha_value)
  next
    case (Suc z)
    have "h * stride \<le> length (drop stride gdkpix) + (stride - 4 * w)" using Suc.prems(1) assms(2) by auto
    note IH = Suc.IH [OF this, of z]
    have rows: "convert_rows 4 w stride cstride (Suc h) gdkpix =
        (?row @ replicate (cstride - length ?row) 0) @ convert_rows 4 w stride cstride h (drop stride gdkpix)"
      by (simp add: Let_def)
    have "length (?row @ replicate (cstride - length ?row) 0) = cstride" using row assms(1) by simp
    then have skip: "convert_rows 4 w stride cstride (Suc h) gdkpix ! (Suc z * cstride + i) =
        convert_rows 4 w stride cstride h (drop stride gdkpix) ! (z * cstride + i)" for i
      unfolding rows nth_append by simp
    have "stride \<le> length gdkpix" using Suc Suc.prems assms(2) by (cases h) auto
    then have "drop stride gdkpix ! (z * stride + i) = gdkpix ! (Suc z * stride + i)" for i
      by (simp add: add.assoc)
    with IH Suc Suc.prems(2) show ?thesis
      unfolding Let_def add.assoc all Suc skip by (simp add: add.assoc)
  qed
qed simp

text \<open>A decoded image with transparency is converted pixel by pixel: in every row the bytes of a pixel come in
  cairo's order, the alpha value unchanged and every colour multiplied by it and rounded to the nearest value; the result has
  exactly the rows cairo's surface has, so the conversion writes no byte beyond it.\<close>

theorem image_converted:
  assumes "gdk_cairo_image_surface_create_from_pixbuf 4 (Some gdkpix) w h stride True cstride = Some out"
    and "4 * w \<le> cstride" and "4 * w \<le> stride" and "(h - 1) * stride + 4 * w \<le> length gdkpix" and "y < h" and "x < w" and "k < 3"
  shows "let src = y * stride + 4 * x; dst = y * cstride + 4 * x in
    length out = h * cstride \<and> out ! (dst + 3) = gdkpix ! (src + 3) \<and>
    unat (out ! (dst + k)) = (unat (gdkpix ! (src + (2 - k))) * unat (gdkpix ! (src + 3)) + 127) div 255"
proof -
  obtain g where h: "h = Suc g" using assms(5) by (cases h) auto
  have "h * stride \<le> length gdkpix + (stride - 4 * w)" using assms(3,4) by (simp add: h)
  from rows_converted [OF assms(2,3) this assms(5-7)] assms(1) show ?thesis
    by (simp add: gdk_cairo_image_surface_create_from_pixbuf_def Let_def)
qed

lemma image_converted_witness:
  "\<exists>out. gdk_cairo_image_surface_create_from_pixbuf 4 (Some [200, 100, 50, 128, 9, 9, 9, 255]) 1 2 4 True 4 = Some out \<and>
    unat (out ! 0) = (50 * 128 + 127) div 255"
proof -
  have "gdk_cairo_image_surface_create_from_pixbuf 4 (Some [200, 100, 50, 128, 9, 9, 9, 255]) 1 2 4 True 4 =
      Some (convert_rows 4 1 4 4 2 [200, 100, 50, 128, 9, 9, 9, 255])"
    by (simp add: gdk_cairo_image_surface_create_from_pixbuf_def)
  moreover from image_converted [OF this, of 0 0 0]
  have "unat (convert_rows 4 1 4 4 2 [200, 100, 50, 128, 9, 9, 9, 255] ! 0) = (50 * 128 + 127) div 255"
    by (simp add: Let_def)
  ultimately show ?thesis by blast
qed

text \<open>Loading: \<open>decode\<close> is gdk-pixbuf's answer for the path, with the size and stride of the image; a failure at any step is
  logged and gives no image.\<close>

definition load_background_image ::
  "(string \<Rightarrow> (nat \<times> byte list option \<times> nat \<times> nat \<times> nat) option) \<Rightarrow> (nat \<Rightarrow> nat \<Rightarrow> bool \<times> nat) \<Rightarrow> string \<Rightarrow> byte list option" where
  "load_background_image decode create path =
     (case decode path of
        None \<Rightarrow> None
      | Some (chan, pixels, w, h, stride) \<Rightarrow>
          (case create w h of (created, cstride) \<Rightarrow> gdk_cairo_image_surface_create_from_pixbuf chan pixels w h stride created cstride))"

subsection \<open>Where an image is drawn\<close>

datatype (plugins only: code size) placement = Scaled rat rat rat rat | Tiled

text \<open>The scales, and the position in scaled units; \<open>None\<close> is the failed assertion.\<close>

definition render_background_image :: "background_mode \<Rightarrow> int \<Rightarrow> int \<Rightarrow> rat \<Rightarrow> rat \<Rightarrow> placement option" where
  "render_background_image mode buffer_width buffer_height width height =
     (let bw = of_int buffer_width; bh = of_int buffer_height;
          across = (let scale = bw / width in Scaled scale scale 0 (bh / 2 / scale - height / 2));
          down = (let scale = bh / height in Scaled scale scale (bw / 2 / scale - width / 2) 0)
      in case mode of
           BACKGROUND_MODE_STRETCH \<Rightarrow> Some (Scaled (bw / width) (bh / height) 0 0)
         | BACKGROUND_MODE_FILL \<Rightarrow> Some (if bw / bh > width / height then across else down)
         | BACKGROUND_MODE_FIT \<Rightarrow> Some (if bw / bh > width / height then down else across)
         | BACKGROUND_MODE_CENTER \<Rightarrow>
             Some (Scaled 1 1 (of_int (trunc_rat (bw / 2 - width / 2))) (of_int (trunc_rat (bh / 2 - height / 2))))
         | BACKGROUND_MODE_TILE \<Rightarrow> Some Tiled
         | _ \<Rightarrow> None)"

text \<open>Filling covers the buffer; fitting stays inside of it.\<close>

lemma fill_covers:
  assumes "0 < buffer_width" and "0 < buffer_height" and "0 < width" and "0 < height"
  shows "\<exists>sx sy x y. render_background_image BACKGROUND_MODE_FILL buffer_width buffer_height width height = Some (Scaled sx sy x y) \<and>
    sx * x \<le> 0 \<and> of_int buffer_width \<le> sx * (x + width) \<and> sy * y \<le> 0 \<and> of_int buffer_height \<le> sy * (y + height)"
proof -
  define bw bh :: rat where b: "bw = of_int buffer_width" "bh = of_int buffer_height"
  have pos: "0 < bw" "0 < bh" using assms(1,2) by (simp_all add: b)
  show ?thesis
  proof (cases "bw / bh > width / height")
    case True
    then have "bh \<le> bw / width * height" using pos assms(3,4) by (simp add: field_simps)
    with True pos assms(3,4) show ?thesis
      by (intro exI [of _ "bw / width"] exI [of _ "0 :: rat"] exI [of _ "bh / 2 / (bw / width) - height / 2"])
        (simp add: render_background_image_def Let_def b [symmetric] field_simps)
  next
    case False
    then have "bw \<le> bh / height * width" using pos assms(3,4) by (simp add: field_simps)
    with False pos assms(3,4) show ?thesis
      by (intro exI [of _ "bh / height"] exI [of _ "bw / 2 / (bh / height) - width / 2"] exI [of _ "0 :: rat"])
        (simp add: render_background_image_def Let_def b [symmetric] field_simps)
  qed
qed

end
