(* ===== verification/Startup.thy ===== *)
theory Startup
  imports Clients
begin

section \<open>From the options to the nested server (main.c)\<close>

text \<open>
  What \<open>main\<close> does between the options and its loops: the pipes of the signal handlers, the connection to the compositor, the
  globals it binds in two round trips, the request for the lock, and the globals it offers to plugin clients.  The
  other theories begin where the globals are bound; here the state is what was bound and offered.  What a bound output or seat becomes is in
  Outputs and Seat; the outcomes of the calls and the announcements are arguments.
\<close>

datatype (plugins only: code) global_interface =
    Wl_compositor | Wl_subcompositor | Wl_shm | Zwp_linux_dmabuf | Wl_drm | Wl_seat | Wl_output
  | Ext_session_lock_manager | Wp_fractional_scale_manager | Wp_viewporter | Wp_color_manager
  | Wp_color_representation_manager | Wl_data_device_manager | Zwlr_layer_shell | Zxdg_output_manager | Other_global string

text \<open>The proxies bound so far with their versions; \<open>ug_color_outputs\<close> are the outputs that have a \<open>color_output\<close>.\<close>

record upstream_globals =
  ug_compositor :: "u32 option"
  ug_subcompositor :: "u32 option"
  ug_shm :: "u32 option"
  ug_linux_dmabuf :: "u32 option"
  ug_default_feedback :: bool
  ug_drm :: "u32 option"
  ug_seats :: "u32 list"
  ug_outputs :: "u32 list"
  ug_color_outputs :: "u32 list"
  ug_lock_manager :: "u32 option"
  ug_fractional_scale :: "u32 option"
  ug_viewporter :: "u32 option"
  ug_color_management :: "u32 option"
  ug_color_representation :: "u32 option"
  ug_binds :: "(u32 \<times> global_interface \<times> u32) list"

record startup_state =
  su_globals :: upstream_globals
  su_lock :: bool
  su_nested :: "(global_interface \<times> u32) list"
  su_halt :: "halt option"

definition no_globals :: upstream_globals where
  "no_globals = \<lparr>ug_compositor = None, ug_subcompositor = None, ug_shm = None, ug_linux_dmabuf = None, ug_default_feedback = False,
     ug_drm = None, ug_seats = [], ug_outputs = [], ug_color_outputs = [], ug_lock_manager = None, ug_fractional_scale = None,
     ug_viewporter = None, ug_color_management = None, ug_color_representation = None, ug_binds = []\<rparr>"

definition fresh_startup :: startup_state where
  "fresh_startup = \<lparr>su_globals = no_globals, su_lock = False, su_nested = [], su_halt = None\<rparr>"

subsection \<open>Pipes for the signal handlers\<close>

definition signal_pipe :: "swaylock_state \<Rightarrow> bool \<times> swaylock_state" where
  "signal_pipe s =
     (let (p, s1) = sys_ret s in
      if p \<noteq> 0 then (False, s1)
      else
        let (r, s2) = set_cloexec s1 in
        if \<not> r then (False, s2)
        else
          let (w, s3) = set_cloexec s2 in
          if \<not> w then (False, s3)
          else let (f, s4) = sys_ret s3 in (f \<noteq> -1, s4))"

definition signal_pipes :: "swaylock_state \<Rightarrow> swaylock_state" where
  "signal_pipes s =
     (let (first, s1) = signal_pipe s in
      if \<not> first then halt_with (Exit 1) s1
      else let (second, s2) = signal_pipe s1 in if \<not> second then halt_with (Exit 1) s2 else s2)"

subsection \<open>The globals of the compositor\<close>

definition registry_bind :: "u32 \<Rightarrow> global_interface \<Rightarrow> u32 \<Rightarrow> (upstream_globals \<Rightarrow> upstream_globals) \<Rightarrow> startup_state \<Rightarrow> startup_state" where
  "registry_bind name i v f s =
     s\<lparr>su_globals := (f (su_globals s))\<lparr>ug_binds := ug_binds (su_globals s) @ [(name, i, v)]\<rparr>\<rparr>"

definition on_globals :: "(upstream_globals \<Rightarrow> upstream_globals) \<Rightarrow> startup_state \<Rightarrow> startup_state" where
  "on_globals f s = s\<lparr>su_globals := f (su_globals s)\<rparr>"

text \<open>A second colour manager, or an output that has a colour object already, fails an assertion.\<close>

fun handle_global :: "u32 \<Rightarrow> global_interface \<Rightarrow> u32 \<Rightarrow> startup_state \<Rightarrow> startup_state" where
  "handle_global name Wl_compositor version s =
     (let v = if version \<ge> 5 then 5 else 4 in registry_bind name Wl_compositor v (\<lambda>g. g\<lparr>ug_compositor := Some v\<rparr>) s)"
| "handle_global name Wl_subcompositor version s = registry_bind name Wl_subcompositor 1 (\<lambda>g. g\<lparr>ug_subcompositor := Some 1\<rparr>) s"
| "handle_global name Wl_shm version s = registry_bind name Wl_shm 1 (\<lambda>g. g\<lparr>ug_shm := Some 1\<rparr>) s"
| "handle_global name Zwp_linux_dmabuf version s =
     (if version \<ge> 3 then
        let v = if version \<ge> 4 then 4 else version;
            s1 = registry_bind name Zwp_linux_dmabuf v (\<lambda>g. g\<lparr>ug_linux_dmabuf := Some v\<rparr>) s
        in if version \<ge> 4 then on_globals (\<lambda>g. g\<lparr>ug_default_feedback := True\<rparr>) s1 else s1
      else s)"
| "handle_global name Wl_drm version s = registry_bind name Wl_drm 2 (\<lambda>g. g\<lparr>ug_drm := Some 2\<rparr>) s"
| "handle_global name Wl_seat version s = registry_bind name Wl_seat 4 (\<lambda>g. g\<lparr>ug_seats := name # ug_seats g\<rparr>) s"
| "handle_global name Wl_output version s =
     (let s1 = registry_bind name Wl_output 4 (\<lambda>g. g\<lparr>ug_outputs := name # ug_outputs g\<rparr>) s
      in if ug_color_management (su_globals s1) \<noteq> None
         then on_globals (\<lambda>g. g\<lparr>ug_color_outputs := name # ug_color_outputs g\<rparr>) s1 else s1)"
| "handle_global name Ext_session_lock_manager version s =
     registry_bind name Ext_session_lock_manager 1 (\<lambda>g. g\<lparr>ug_lock_manager := Some 1\<rparr>) s"
| "handle_global name Wp_fractional_scale_manager version s =
     (let v = if version \<ge> 1 then 1 else version
      in registry_bind name Wp_fractional_scale_manager v (\<lambda>g. g\<lparr>ug_fractional_scale := Some v\<rparr>) s)"
| "handle_global name Wp_viewporter version s =
     (let v = if version \<ge> 1 then 1 else version in registry_bind name Wp_viewporter v (\<lambda>g. g\<lparr>ug_viewporter := Some v\<rparr>) s)"
| "handle_global name Wp_color_manager version s =
     (if ug_color_management (su_globals s) \<noteq> None then s\<lparr>su_halt := Some Abort\<rparr>
      else
        let v = if version \<ge> 2 then 2 else version;
            s1 = registry_bind name Wp_color_manager v (\<lambda>g. g\<lparr>ug_color_management := Some v\<rparr>) s;
            g = su_globals s1
        in if \<exists>i \<in> set (ug_outputs g). i \<in> set (ug_color_outputs g) then s1\<lparr>su_halt := Some Abort\<rparr>
           else on_globals (\<lambda>g. g\<lparr>ug_color_outputs := rev (ug_outputs g) @ ug_color_outputs g\<rparr>) s1)"
| "handle_global name Wp_color_representation_manager version s =
     (let v = if version \<ge> 1 then 1 else version
      in registry_bind name Wp_color_representation_manager v (\<lambda>g. g\<lparr>ug_color_representation := Some v\<rparr>) s)"
| "handle_global name _ version s = s"

fun handle_globals :: "(u32 \<times> global_interface \<times> u32) list \<Rightarrow> startup_state \<Rightarrow> startup_state" where
  "handle_globals [] s = s"
| "handle_globals ((name, i, version) # gs) s =
     (if su_halt s \<noteq> None then s else handle_globals gs (handle_global name i version s))"

subsection \<open>The sequence of main\<close>

definition wl_display_roundtrip :: "bool \<Rightarrow> (u32 \<times> global_interface \<times> u32) list \<Rightarrow> startup_state \<Rightarrow> startup_state" where
  "wl_display_roundtrip ok announced s =
     (let s1 = handle_globals announced s in if su_halt s1 = None \<and> \<not> ok then s1\<lparr>su_halt := Some (Exit 1)\<rparr> else s1)"

definition require_globals :: "startup_state \<Rightarrow> startup_state" where
  "require_globals s =
     (let g = su_globals s in
      if ug_compositor g = None then s\<lparr>su_halt := Some (Exit 1)\<rparr>
      else if ug_subcompositor g = None then s\<lparr>su_halt := Some (Exit 1)\<rparr>
      else if ug_shm g = None then s\<lparr>su_halt := Some (Exit 1)\<rparr>
      else if ug_lock_manager g = None then s\<lparr>su_halt := Some (Exit 1)\<rparr>
      else s)"

text \<open>The table of formats must be mapped when the compositor sends feedback; \<open>mapped\<close> is the outcome of \<open>mmap\<close>.\<close>

definition map_format_table :: "bool \<Rightarrow> startup_state \<Rightarrow> startup_state" where
  "map_format_table mapped s =
     (case ug_linux_dmabuf (su_globals s) of
        None \<Rightarrow> s
      | Some v \<Rightarrow> if v \<ge> 4 \<and> \<not> mapped then s\<lparr>su_halt := Some (Exit 1)\<rparr> else s)"

definition offer :: "global_interface \<Rightarrow> u32 option \<Rightarrow> startup_state \<Rightarrow> startup_state" where
  "offer i v s = (case v of None \<Rightarrow> s | Some v \<Rightarrow> s\<lparr>su_nested := su_nested s @ [(i, v)]\<rparr>)"

text \<open>The announcements of the colour protocols must be complete by now (\<open>cm_done\<close>, \<open>cr_done\<close>).\<close>

definition create_nested_globals :: "bool \<Rightarrow> bool \<Rightarrow> startup_state \<Rightarrow> startup_state" where
  "create_nested_globals cm_done cr_done s =
     (let g = su_globals s;
          s1 = offer Wl_shm (Some 1) (offer Wl_subcompositor (Some 1) (offer Wl_compositor (Some 4) s));
          s2 = offer Wl_drm (map_option (\<lambda>_. 2) (ug_drm g)) s1;
          s3 = offer Zwp_linux_dmabuf (ug_linux_dmabuf g) s2;
          s4 = offer Zxdg_output_manager (Some 2) (offer Zwlr_layer_shell (Some 5) (offer Wl_data_device_manager (Some 3) s3));
          s5 = offer Wp_fractional_scale_manager (map_option (\<lambda>_. 1) (ug_fractional_scale g)) s4;
          s6 = offer Wp_viewporter (map_option (\<lambda>_. 1) (ug_viewporter g)) s5
      in if ug_color_management g \<noteq> None \<and> \<not> cm_done then s6\<lparr>su_halt := Some Abort\<rparr>
         else
           let s7 = offer Wp_color_manager (ug_color_management g) s6
           in if ug_color_representation g \<noteq> None \<and> \<not> cr_done then s7\<lparr>su_halt := Some Abort\<rparr>
              else offer Wp_color_representation_manager (map_option (\<lambda>_. 1) (ug_color_representation g)) s7)"

fun startup_run :: "(startup_state \<Rightarrow> startup_state) list \<Rightarrow> startup_state \<Rightarrow> startup_state" where
  "startup_run [] s = s"
| "startup_run (f # fs) s = (if su_halt s \<noteq> None then s else startup_run fs (f s))"

record startup_input =
  in_connected :: bool
  in_first_ok :: bool
  in_first :: "(u32 \<times> global_interface \<times> u32) list"
  in_second_ok :: bool
  in_second :: "(u32 \<times> global_interface \<times> u32) list"
  in_mapped :: bool
  in_color_management_done :: bool
  in_color_representation_done :: bool

definition connect_to_compositor :: "startup_input \<Rightarrow> startup_state" where
  "connect_to_compositor inp =
     startup_run
       [(\<lambda>s. if in_connected inp then s else s\<lparr>su_halt := Some (Exit 1)\<rparr>),
        wl_display_roundtrip (in_first_ok inp) (in_first inp),
        require_globals,
        (\<lambda>s. s\<lparr>su_lock := True\<rparr>),
        wl_display_roundtrip (in_second_ok inp) (in_second inp),
        map_format_table (in_mapped inp),
        create_nested_globals (in_color_management_done inp) (in_color_representation_done inp)] fresh_startup"

subsection \<open>What the plugin clients are offered\<close>

text \<open>The interfaces that are bound once, whether one of them is bound, and whether it was announced in a usable version.\<close>

fun bound :: "global_interface \<Rightarrow> upstream_globals \<Rightarrow> bool" where
  "bound Wl_compositor g = (ug_compositor g \<noteq> None)"
| "bound Wl_subcompositor g = (ug_subcompositor g \<noteq> None)"
| "bound Wl_shm g = (ug_shm g \<noteq> None)"
| "bound Zwp_linux_dmabuf g = (ug_linux_dmabuf g \<noteq> None)"
| "bound Wl_drm g = (ug_drm g \<noteq> None)"
| "bound Ext_session_lock_manager g = (ug_lock_manager g \<noteq> None)"
| "bound Wp_fractional_scale_manager g = (ug_fractional_scale g \<noteq> None)"
| "bound Wp_viewporter g = (ug_viewporter g \<noteq> None)"
| "bound Wp_color_manager g = (ug_color_management g \<noteq> None)"
| "bound Wp_color_representation_manager g = (ug_color_representation g \<noteq> None)"
| "bound _ g = False"

definition required :: "global_interface set" where
  "required = {Wl_compositor, Wl_subcompositor, Wl_shm, Ext_session_lock_manager}"

definition optional :: "global_interface set" where
  "optional = {Zwp_linux_dmabuf, Wl_drm, Wp_fractional_scale_manager, Wp_viewporter, Wp_color_manager, Wp_color_representation_manager}"

definition announced :: "global_interface \<Rightarrow> (u32 \<times> global_interface \<times> u32) list \<Rightarrow> bool" where
  "announced i gs \<longleftrightarrow> (\<exists>name version. (name, i, version) \<in> set gs \<and> (i = Zwp_linux_dmabuf \<longrightarrow> version \<ge> 3))"

lemma registry_bind_view [simp]:
  "su_globals (registry_bind n i v f s) = (f (su_globals s))\<lparr>ug_binds := ug_binds (su_globals s) @ [(n, i, v)]\<rparr>"
  "su_halt (registry_bind n i v f s) = su_halt s" "su_lock (registry_bind n i v f s) = su_lock s"
  "su_nested (registry_bind n i v f s) = su_nested s"
  "su_globals (on_globals h s) = h (su_globals s)" "su_halt (on_globals h s) = su_halt s" "su_lock (on_globals h s) = su_lock s"
  "su_nested (on_globals h s) = su_nested s"
  by (simp_all add: registry_bind_def on_globals_def)

lemma bound_step:
  assumes "su_halt (handle_global n j v s) = None" and "i \<in> required \<union> optional"
  shows "bound i (su_globals (handle_global n j v s)) \<longleftrightarrow>
    bound i (su_globals s) \<or> i = j \<and> (i = Zwp_linux_dmabuf \<longrightarrow> v \<ge> 3)"
  using assms by (cases j) (auto simp: required_def optional_def Let_def split: if_splits)

lemma handle_global_keeps:
  "su_lock (handle_global n j v s) = su_lock s" "su_nested (handle_global n j v s) = su_nested s"
  by (cases j; simp add: Let_def)+

lemma handle_globals_keep:
  "su_lock (handle_globals gs s) = su_lock s" "su_nested (handle_globals gs s) = su_nested s"
  by (induction gs s rule: handle_globals.induct) (auto simp: handle_global_keeps)

lemma bound_all:
  assumes "su_halt (handle_globals gs s) = None" and "i \<in> required \<union> optional"
  shows "bound i (su_globals (handle_globals gs s)) \<longleftrightarrow> bound i (su_globals s) \<or> announced i gs"
  using assms
proof (induction gs s rule: handle_globals.induct)
  case (2 n j v gs s)
  have live: "su_halt s = None" using 2(2) by (cases "su_halt s") auto
  have "su_halt (handle_global n j v s) = None"
    using 2(2) live by (cases gs; cases "su_halt (handle_global n j v s)") auto
  from bound_step [OF this 2(3)] 2(1) 2(2,3) live show ?case
    by (auto simp: announced_def)
qed (simp add: announced_def)

lemma startup_live:
  assumes "su_halt (startup_run (f # fs) s) = None"
  shows "su_halt s = None" "startup_run (f # fs) s = startup_run fs (f s)"
  using assms by (auto split: if_splits)

definition entry :: "global_interface \<Rightarrow> u32 option \<Rightarrow> (global_interface \<times> u32) list" where
  "entry i v = (case v of None \<Rightarrow> [] | Some v \<Rightarrow> [(i, v)])"

lemma offer_view [simp]:
  "su_nested (offer i v s) = su_nested s @ entry i v" "su_halt (offer i v s) = su_halt s" "su_lock (offer i v s) = su_lock s"
  by (simp_all add: offer_def entry_def split: option.split)

lemma entry_names [simp]:
  "map fst (entry i v) = (if v = None then [] else [i])" "fst ` set (entry i v) = (if v = None then {} else {i})"
  by (cases v; simp add: entry_def)+

lemma create_nested_live:
  assumes "su_halt (create_nested_globals cm cr s) = None"
  shows "su_nested (create_nested_globals cm cr s) = su_nested s @
      entry Wl_compositor (Some 4) @ entry Wl_subcompositor (Some 1) @ entry Wl_shm (Some 1) @
      entry Wl_drm (map_option (\<lambda>_. 2) (ug_drm (su_globals s))) @ entry Zwp_linux_dmabuf (ug_linux_dmabuf (su_globals s)) @
      entry Wl_data_device_manager (Some 3) @ entry Zwlr_layer_shell (Some 5) @ entry Zxdg_output_manager (Some 2) @
      entry Wp_fractional_scale_manager (map_option (\<lambda>_. 1) (ug_fractional_scale (su_globals s))) @
      entry Wp_viewporter (map_option (\<lambda>_. 1) (ug_viewporter (su_globals s))) @
      entry Wp_color_manager (ug_color_management (su_globals s)) @
      entry Wp_color_representation_manager (map_option (\<lambda>_. 1) (ug_color_representation (su_globals s)))"
    "su_lock (create_nested_globals cm cr s) = su_lock s" "su_halt s = None"
  using assms unfolding create_nested_globals_def Let_def by (auto split: if_splits)

lemma nested_globals_offered:
  assumes "su_halt (create_nested_globals cm cr s) = None" "su_nested s = []"
  shows "fst ` set (su_nested (create_nested_globals cm cr s)) =
      {Wl_compositor, Wl_subcompositor, Wl_shm, Wl_data_device_manager, Zwlr_layer_shell, Zxdg_output_manager} \<union>
      {i \<in> optional. bound i (su_globals s)}"
    and "distinct (map fst (su_nested (create_nested_globals cm cr s)))"
proof -
  show "distinct (map fst (su_nested (create_nested_globals cm cr s)))"
    unfolding create_nested_live(1) [OF assms(1)] assms(2) by simp
  show "fst ` set (su_nested (create_nested_globals cm cr s)) =
      {Wl_compositor, Wl_subcompositor, Wl_shm, Wl_data_device_manager, Zwlr_layer_shell, Zxdg_output_manager} \<union>
      {i \<in> optional. bound i (su_globals s)}"
    unfolding create_nested_live(1) [OF assms(1)] assms(2) by (simp add: image_Un) (auto simp: optional_def)
qed

lemma roundtrip_live:
  assumes "su_halt (wl_display_roundtrip ok gs s) = None"
  shows "wl_display_roundtrip ok gs s = handle_globals gs s" "su_halt (handle_globals gs s) = None" "ok"
  using assms by (auto simp: wl_display_roundtrip_def Let_def split: if_splits)

lemma require_globals_live:
  assumes "su_halt (require_globals s) = None"
  shows "require_globals s = s" "\<forall>i \<in> required. bound i (su_globals s)"
  using assms by (auto simp: require_globals_def required_def Let_def split: if_splits)

lemma map_format_table_live: "su_halt (map_format_table m s) = None \<Longrightarrow> map_format_table m s = s"
  by (auto simp: map_format_table_def split: option.splits if_splits)

lemma connected_live:
  assumes "su_halt (connect_to_compositor inp) = None"
  defines "s1 \<equiv> handle_globals (in_first inp) fresh_startup"
  defines "s2 \<equiv> handle_globals (in_second inp) (s1\<lparr>su_lock := True\<rparr>)"
  shows "connect_to_compositor inp =
      create_nested_globals (in_color_management_done inp) (in_color_representation_done inp) s2"
    and "su_halt s1 = None" "su_halt s2 = None" "\<forall>i \<in> required. bound i (su_globals s1)"
proof -
  note r1 = startup_live [OF assms(1) [unfolded connect_to_compositor_def]]
  note r2 = startup_live [OF assms(1) [unfolded connect_to_compositor_def, unfolded r1(2)]]
  have con: "in_connected inp" using r2(1) by (auto split: if_splits)
  have e2: "connect_to_compositor inp = startup_run [require_globals, \<lambda>s. s\<lparr>su_lock := True\<rparr>,
      wl_display_roundtrip (in_second_ok inp) (in_second inp), map_format_table (in_mapped inp),
      create_nested_globals (in_color_management_done inp) (in_color_representation_done inp)]
      (wl_display_roundtrip (in_first_ok inp) (in_first inp) fresh_startup)"
    using con unfolding connect_to_compositor_def r1(2) r2(2) by simp
  note l3 = assms(1) [unfolded e2]
  note r3 = startup_live [OF l3]
  note first = roundtrip_live [OF r3(1)]
  show "su_halt s1 = None" using first(2) by (simp add: s1_def)
  note l4 = l3 [unfolded r3(2), unfolded first(1)]
  note r4 = startup_live [OF l4]
  note req = require_globals_live [OF r4(1)]
  show "\<forall>i \<in> required. bound i (su_globals s1)" using req(2) by (simp add: s1_def)
  note l5 = l4 [unfolded r4(2), unfolded req(1)]
  note r5 = startup_live [OF l5]
  note l6 = l5 [unfolded r5(2)]
  note r6 = startup_live [OF l6]
  note second = roundtrip_live [OF r6(1)]
  show "su_halt s2 = None" using second(2) by (simp add: s2_def s1_def)
  note l7 = l6 [unfolded r6(2), unfolded second(1)]
  note r7 = startup_live [OF l7]
  note table = map_format_table_live [OF r7(1)]
  have "connect_to_compositor inp =
      startup_run [] (create_nested_globals (in_color_management_done inp) (in_color_representation_done inp) s2)"
    unfolding s2_def s1_def
    by (simp only: e2 [unfolded first(1)] r3(2) [unfolded first(1) req(1)] r4(2) [unfolded req(1)] r5(2) [unfolded second(1)]
        r6(2) [unfolded second(1) table] r7(2) [unfolded table])
  then show "connect_to_compositor inp =
      create_nested_globals (in_color_management_done inp) (in_color_representation_done inp) s2" by simp
qed

text \<open>C40. The nested server offers what the compositor has: when the start succeeds, the lock was asked for, the compositor had
  announced the four required globals in the first round trip, and the plugin clients see each of the six basic
  interfaces once, and each optional one exactly when the compositor announced it (linux-dmabuf: in version 3 or
  later), in either round trip.\<close>

theorem nested_server_offers:
  assumes "su_halt (connect_to_compositor inp) = None"
  shows "su_lock (connect_to_compositor inp) \<and> (\<forall>i \<in> required. announced i (in_first inp)) \<and>
    distinct (map fst (su_nested (connect_to_compositor inp))) \<and>
    fst ` set (su_nested (connect_to_compositor inp)) =
      {Wl_compositor, Wl_subcompositor, Wl_shm, Wl_data_device_manager, Zwlr_layer_shell, Zxdg_output_manager} \<union>
      {i \<in> optional. announced i (in_first inp @ in_second inp)}"
proof -
  let ?s1 = "handle_globals (in_first inp) fresh_startup"
  let ?s2 = "handle_globals (in_second inp) (?s1\<lparr>su_lock := True\<rparr>)"
  note c = connected_live [OF assms]
  have fresh: "\<not> bound i (su_globals fresh_startup)" for i by (cases i) (simp_all add: fresh_startup_def no_globals_def)
  have b1: "bound i (su_globals ?s1) \<longleftrightarrow> announced i (in_first inp)" if "i \<in> required \<union> optional" for i
    using bound_all [OF c(2) that] fresh by simp
  have b2: "bound i (su_globals ?s2) \<longleftrightarrow> announced i (in_first inp @ in_second inp)" if "i \<in> optional" for i
    using bound_all [OF c(3), of i] b1 [of i] that by (auto simp: announced_def)
  have n: "su_nested ?s2 = []" by (simp add: handle_globals_keep fresh_startup_def)
  note live = assms [unfolded c(1)]
  have "{i \<in> optional. bound i (su_globals ?s2)} = {i \<in> optional. announced i (in_first inp @ in_second inp)}" using b2 by auto
  moreover have "su_lock (connect_to_compositor inp)"
    unfolding c(1) create_nested_live(2) [OF live] by (simp add: handle_globals_keep)
  ultimately show ?thesis
    using nested_globals_offered [OF live n] c(4) b1 unfolding c(1) by auto
qed

text \<open>An example: a compositor without linux-dmabuf of a usable version, and with the viewporter announced late.\<close>

definition example_startup :: startup_input where
  "example_startup = \<lparr>in_connected = True, in_first_ok = True,
     in_first = [(1, Wl_compositor, 6), (2, Wl_subcompositor, 1), (3, Wl_shm, 1), (4, Ext_session_lock_manager, 1),
                 (5, Zwp_linux_dmabuf, 2), (6, Wl_output, 4)],
     in_second_ok = True, in_second = [(7, Wp_viewporter, 1)], in_mapped = True,
     in_color_management_done = False, in_color_representation_done = False\<rparr>"

lemma nested_server_offers_witness:
  "Wp_viewporter \<in> fst ` set (su_nested (connect_to_compositor example_startup)) \<and>
   Zwp_linux_dmabuf \<notin> fst ` set (su_nested (connect_to_compositor example_startup))"
proof -
  have "su_halt (connect_to_compositor example_startup) = None" by code_simp
  from nested_server_offers [OF this] show ?thesis
    by (auto simp: example_startup_def announced_def optional_def)
qed

subsection \<open>Versions\<close>

text \<open>The versions the code asks for without looking at the announced one.\<close>

fun assumed_version :: "global_interface \<Rightarrow> u32" where
  "assumed_version Wl_compositor = 4"
| "assumed_version Wl_seat = 4"
| "assumed_version Wl_output = 4"
| "assumed_version Wl_drm = 2"
| "assumed_version Wl_subcompositor = 1"
| "assumed_version Wl_shm = 1"
| "assumed_version Ext_session_lock_manager = 1"
| "assumed_version _ = 0"

definition asked_within :: "(u32 \<times> global_interface \<times> u32) list \<Rightarrow> startup_state \<Rightarrow> bool" where
  "asked_within gs s \<longleftrightarrow> (\<forall>(name, i, v) \<in> set (ug_binds (su_globals s)). \<exists>version. (name, i, version) \<in> set gs \<and> v \<le> version)"

lemma asked_within_step:
  assumes "asked_within gs s" "(n, i, version) \<in> set gs" "assumed_version i \<le> version"
  shows "asked_within gs (handle_global n i version s)"
  using assms by (cases i) (auto simp: asked_within_def Let_def split: if_splits)

text \<open>A compositor that announces at least those is never asked for more than it announced.\<close>

lemma binds_within_announced:
  "asked_within gs s \<Longrightarrow> set hs \<subseteq> set gs \<Longrightarrow> \<forall>(name, i, version) \<in> set hs. assumed_version i \<le> version \<Longrightarrow>
   asked_within gs (handle_globals hs s)"
  by (induction hs s rule: handle_globals.induct) (auto intro: asked_within_step)

end
