(* ===== verification/Spec2Isabelle.thy ===== *)
theory Spec2Isabelle
  imports Unicode PwBackend WellFormed OutputLife ColorReplay Watcher BackgroundImage Startup
begin

text \<open>
  swaylock-plugin is a screen locker for Wayland compositors whose background is drawn by another program.  The locker locks the
  session through \<open>ext_session_lock_v1\<close>, reads the password from the keyboard, has a child process check it, and draws only a
  small indicator itself.  For the background it is a Wayland server of its own: it starts one wallpaper program (or one for every
  output), shows it the outputs, and forwards its surfaces to the lock surfaces upstream.  Everything in the locker runs in one event
  loop of descriptors and timers.

  The development models the C sources under \<open>src/\<close> as functions of explicit state and proves what makes the lock a lock: that
  nothing but an accepted password, a signal or the loss of the compositor ends it, whatever the wallpaper program does.  It also
  proves the behaviour of the parts, and states exactly where the code goes wrong.

  \<^bold>\<open>The state.\<close>  \<open>swaylock_state\<close> (Types) has a field for every field of \<open>struct swaylock_state\<close> and of the structures it
  holds.  An object on the heap is a number, a pointer is a number or \<open>None\<close>, a \<open>wl_list\<close> is the list of the numbers linked into it.
  A removed object stays out of its list, so a pointer that is still held is recognised as dangling.  What a function asks of the compositor, of a
  client or of the system is appended to the trace of effects; what the system answers comes from \<open>st_world\<close> or from
  arguments.  \<open>st_halt\<close> is how the process ended, if it did: with a status, by a failed assertion (\<open>Abort\<close>), by behaviour that C leaves
  undefined (\<open>Undefined\<close>: a null or dangling pointer, an access out of bounds, a division by zero), or in a loop that never ends (\<open>Hang\<close>).
  \<open>run\<close> composes statements and stops at the first that ends the process.

  \<^bold>\<open>Theories and sources.\<close>
    \<^item> Prelude: machine integers, lists and maps.
    \<^item> Unicode: \<open>unicode.c\<close>.  PasswordBuffer: the edits of the password in \<open>password.c\<close>, with the locale \<open>text_buffer\<close> (what a buffer of
      code points promises), interpreted on the code's buffer.
    \<^item> Comm: \<open>comm.c\<close> and \<open>password-buffer.c\<close>.  PwBackend: the children of \<open>pam.c\<close> and \<open>shadow.c\<close>.
    \<^item> EventLoop: \<open>loop.c\<close>, with the locales \<open>timer_service\<close> (interpreted there) and \<open>loop_host\<close> (what the loop needs of its
      callbacks, interpreted in Session on the callbacks of the program).
    \<^item> Types: the structures of \<open>swaylock.h\<close>, \<open>seat.h\<close>, \<open>pool-buffer.h\<close>, the trace and the world.
    \<^item> Options: the start of \<open>main\<close>, \<open>parse_options\<close>, \<open>load_image\<close>, \<open>load_config\<close>, the default command.
    \<^item> Render: \<open>render.c\<close>, \<open>pool-buffer.c\<close>.  BackgroundImage: \<open>cairo.c\<close>, \<open>background-image.c\<close>.
    \<^item> Timers: which field of which structure owns a timer.  Input: the timers and the key handler of \<open>password.c\<close>.
      Seat: \<open>seat.c\<close>.  Pause: \<open>--pause-when-hidden\<close> in \<open>main.c\<close>.
    \<^item> ForwardSurface: \<open>wl_surface\<close> of a plugin and its commit in \<open>forward.c\<close>; Commit: the properties of the commit.
      ForwardObjects: the other objects of a plugin in \<open>forward.c\<close>; ForwardLife, ShmPools: their life cycle and sharing.
    \<^item> Clients: plugin processes, the fallback without them (\<open>main.c\<close>).  Outputs: outputs, lock surfaces and layer surfaces
      (\<open>main.c\<close>); OutputLife: outputs that come, go and change size.
    \<^item> Formats: the formats and capabilities of the compositor, collected in \<open>forward-client.c\<close> and replayed in \<open>forward.c\<close>.
      ColorDesc and ColorReplay: the colour descriptions of the same two files.
    \<^item> Requests: everything a plugin client can ask for, as one type with its dispatch.  Frames: the handlers that leave the references
      between outputs, clients and timers alone.  Isolation: what no request of a client reaches.
    \<^item> Locker: the callbacks and the main loop of \<open>main.c\<close>.  Session and Endings: how the lock ends.
    \<^item> Wiring, OutputWiring, LockerWiring and WellFormed: the invariant of the whole program, kept by each handler and callback.
    \<^item> Startup: what \<open>main\<close> does before its loops: the pipes, the globals bound upstream and those offered to plugin clients.
    \<^item> Watcher: \<open>sleep-watcher.c\<close>, the helper that announces a suspension, and \<open>log.c\<close>.

  \<^bold>\<open>What is shown.\<close>  The session stays locked over all sequences of rounds of the main loop (Session), an accepted password
  unlocks, and a failing password child does not (Endings).  Whatever sequence of requests a wallpaper program makes, and however
  it dies, the password, the checker and the lock are out of its reach (Isolation).  From its start on, the program stays well
  formed: the armed timers are exactly those a live structure names, and outputs, clients and the server refer to each other
  consistently, so no assertion about clients can fail (WellFormed).  The timers, the password and the
  indicator agree after every key (Input); the password buffer refines a list of characters (PasswordBuffer); a request to the
  checker arrives as it was sent and the buffer is wiped (Comm), and the checker answers yes only for an accepted
  password (PwBackend).  A start that
  succeeds has asked for the lock and offers plugins what the compositor has (Startup).  A plugin's commit reaches the compositor only at the size the plugin acknowledged (Commit).  Shared memory pools,
  colour descriptions and format arrays are counted, freed and grown correctly over all histories (ShmPools, ColorDesc, Formats).  The
  \<open>_undefined\<close>, \<open>_aborts\<close>, \<open>_crashes\<close> and \<open>_overflows\<close> theorems are the opposite: sequences of ordinary events after which the
  process is stopped by its own assertions or uses memory it no longer has.

  \<^bold>\<open>Loops and bounds.\<close>  Recursion over data is structural.  The loops that retry a system call after a signal, the search for the
  topmost ancestor of a subsurface and the doubling of array sizes are partial functions, whose results are theorems
  (\<open>None\<close> is "never returns"; a loop in the state of the program that does not return is \<open>Hang\<close>).  No fuel is used.
  \<open>uint32_t\<close>, serials and flags are words; \<open>int\<close> values are integers, with the conversions to 32 bits written out; \<open>size_t\<close> of the growing
  arrays has its bound of 64 bits; other lengths are natural numbers.  \<open>float\<close> and \<open>double\<close> are rationals.

  \<^bold>\<open>Parameters.\<close>  Code that is not in the repository is an argument: the answers of system calls and the clock, PAM and \<open>crypt\<close>, the text
  extents of cairo, xkbcommon's view of a key, the order in which libwayland destroys the objects of a client that goes away,
  \<open>wordexp\<close>, \<open>strtof\<close>, files, gdk-pixbuf, the D-Bus library, and the constants of the colour protocol.  libwayland's part is taken as documented: a
  request reaches its handler with a live object of the right interface, an object is destroyed once, and nothing is sent to a
  client after a protocol error.

  \<^bold>\<open>Kept apart.\<close>  The announced formats (\<open>forward_formats\<close>), the colour descriptions (\<open>color_state\<close>), the options (\<open>settings\<close>), the
  start (\<open>startup_state\<close>) and the watcher have states of their own: no other component reads them but at the points the theories name.

  \<^bold>\<open>Not modelled.\<close>  Failing allocations; the requests that \<open>forward.c\<close> ignores (on regions and data devices); destructor requests that only
  call \<open>wl_resource_destroy\<close>; the tables of function pointers; the binding of globals that only create a resource; the
  wording of the help and of log messages; which pixels cairo draws; signal handlers, which write a byte to a pipe.
\<close>

end
